(* ===== verification/Prelude.thy ===== *)
theory Prelude
  imports Main "HOL-Library.AList"
begin

text \<open>
  What every theory of the development shares: the outcomes that C code can have beside
  returning (faults), sequencing of fallible steps, the C library's text conversions
  (\<open>printf\<close>'s decimal formats and \<open>atoi\<close>), the case-insensitive comparison the program uses
  for its keywords, C integer division, and the facts on association lists that the
  storage model rests on. Nothing here is specific to one component.
\<close>

section \<open>Faults and sequencing\<close>

text \<open>
  How a call can fail to return normally. \<open>NullDeref\<close> is a null pointer passed on
  (\<open>list_get\<close> out of range, a failed \<open>fopen\<close>), \<open>OutOfBounds\<close> an access past a buffer,
  \<open>DoubleFree\<close> and \<open>UseAfterFree\<close> misuse of the heap, \<open>DivByZero\<close> the arithmetic trap,
  \<open>Blocked\<close> a semaphore that nobody will post, \<open>ExitFailure\<close> a call of
  \<open>exit(EXIT_FAILURE)\<close> and \<open>Indeterminate\<close> a value the C standard leaves open.
\<close>

datatype fault =
    NullDeref | OutOfBounds | DoubleFree | UseAfterFree | DivByZero
  | Blocked | ExitFailure | Indeterminate

fun bindE :: "'e + 'a \<Rightarrow> ('a \<Rightarrow> 'e + 'b) \<Rightarrow> 'e + 'b" where
  "bindE (Inl e) k = Inl e"
| "bindE (Inr x) k = k x"

lemma bindE_Inr_iff [simp]:
  "bindE m k = Inr y \<longleftrightarrow> (\<exists>x. m = Inr x \<and> k x = Inr y)"
  by (cases m) auto

lemma bindE_Inl_iff:
  "bindE m k = Inl e \<longleftrightarrow> m = Inl e \<or> (\<exists>x. m = Inr x \<and> k x = Inl e)"
  by (cases m) auto

lemma bindE_assoc: "bindE (bindE m k) h = bindE m (\<lambda>x. bindE (k x) h)"
  by (cases m) auto

text \<open>
  What holds of the value when a step returns one; the rules compute it backwards through a
  sequence of steps, and \<open>okE_mono\<close> uses a fact about one step inside it.
\<close>

definition okE :: "('a \<Rightarrow> bool) \<Rightarrow> 'e + 'a \<Rightarrow> bool" where
  "okE P r = (case r of Inl e \<Rightarrow> True | Inr x \<Rightarrow> P x)"

lemma okE_simps [simp]: "okE P (Inl e)" "okE P (Inr x) = P x"
  by (simp_all add: okE_def)

lemma okE_bindE [simp]: "okE P (bindE r k) = okE (\<lambda>x. okE P (k x)) r"
  by (cases r) simp_all

lemma okE_mono: "okE Q r \<Longrightarrow> (\<And>x. Q x \<Longrightarrow> P x) \<Longrightarrow> okE P r"
  by (cases r) simp_all

lemma okE_D: "okE P r \<Longrightarrow> r = Inr x \<Longrightarrow> P x"
  by simp

lemma okE_I: "(\<And>x. r = Inr x \<Longrightarrow> P x) \<Longrightarrow> okE P r"
  by (cases r) simp_all

text \<open>A value that is only looked up: any fact about the state carries over it.\<close>

lemma okE_pure: "(\<And>x. P x) \<Longrightarrow> okE P r"
  by (rule okE_I)

text \<open>The same with no fault allowed: a step may wait, or return a value of which \<open>P\<close> holds.\<close>

definition sigueE :: "('a \<Rightarrow> bool) \<Rightarrow> fault + 'a \<Rightarrow> bool" where
  "sigueE P r = (case r of Inl f \<Rightarrow> f = Blocked | Inr x \<Rightarrow> P x)"

lemma sigueE_simps [simp]: "sigueE P (Inl f) = (f = Blocked)" "sigueE P (Inr x) = P x"
  by (simp_all add: sigueE_def)

lemma sigueE_bindE [simp]: "sigueE P (bindE r k) = sigueE (\<lambda>x. sigueE P (k x)) r"
  by (cases r) simp_all

lemma sigueE_mono: "sigueE Q r \<Longrightarrow> (\<And>x. Q x \<Longrightarrow> P x) \<Longrightarrow> sigueE P r"
  by (cases r) simp_all

text \<open>A counted loop \<open>for (i = 0; i < n; i++)\<close> whose body is a fallible step.\<close>

fun repeatE :: "nat \<Rightarrow> ('s \<Rightarrow> 'e + 's) \<Rightarrow> 's \<Rightarrow> 'e + 's" where
  "repeatE 0 f s = Inr s"
| "repeatE (Suc n) f s = bindE (f s) (repeatE n f)"

text \<open>A loop over the indices of a list, the index passed to the body.\<close>

fun foldE :: "('x \<Rightarrow> 's \<Rightarrow> 'e + 's) \<Rightarrow> 'x list \<Rightarrow> 's \<Rightarrow> 'e + 's" where
  "foldE f [] s = Inr s"
| "foldE f (x # xs) s = bindE (f x s) (foldE f xs)"

lemma foldE_append: "foldE f (xs @ ys) s = bindE (foldE f xs s) (foldE f ys)"
proof (induction xs arbitrary: s)
  case Nil
  show ?case by simp
next
  case (Cons x xs)
  then show ?case by (cases "f x s") simp_all
qed

text \<open>
  The two rules that carry every loop proof: an invariant indexed by the number of
  rounds done, with a body that succeeds.
\<close>

lemma repeatE_invariant:
  assumes "P 0 s" and "\<And>k s. k < n \<Longrightarrow> P k s \<Longrightarrow> \<exists>s'. f s = Inr s' \<and> P (Suc k) s'"
  shows "\<exists>s'. repeatE n f s = Inr s' \<and> P n s'"
  using assms
proof (induction n arbitrary: P s)
  case 0
  then show ?case by simp
next
  case (Suc n)
  from Suc.prems(2)[OF _ Suc.prems(1)] obtain s1 where s1: "f s = Inr s1" "P (Suc 0) s1"
    by auto
  have "\<exists>s'. repeatE n f s1 = Inr s' \<and> P (Suc n) s'"
    by (rule Suc.IH[where P = "\<lambda>k. P (Suc k)"]) (use s1 Suc.prems(2) in auto)
  with s1 show ?case by simp
qed

lemma foldE_upt_invariant:
  assumes "P a s" and "a \<le> b"
    and "\<And>i s. a \<le> i \<Longrightarrow> i < b \<Longrightarrow> P i s \<Longrightarrow> \<exists>s'. f i s = Inr s' \<and> P (Suc i) s'"
  shows "\<exists>s'. foldE f [a..<b] s = Inr s' \<and> P b s'"
  using assms
proof (induction "b - a" arbitrary: a s)
  case 0
  then show ?case by simp
next
  case (Suc n)
  then have ab: "a < b" by simp
  from Suc.prems(3)[OF _ ab Suc.prems(1)] obtain s1 where s1: "f a s = Inr s1" "P (Suc a) s1"
    by auto
  have "\<exists>s'. foldE f [Suc a..<b] s1 = Inr s' \<and> P b s'"
    by (rule Suc.hyps) (use Suc.hyps(2) Suc.prems(3) s1 ab in auto)
  with s1 ab show ?case by (simp add: upt_conv_Cons)
qed

section \<open>C integers and text\<close>

text \<open>C division truncates towards zero; the caller checks the divisor.\<close>

definition c_div :: "int \<Rightarrow> int \<Rightarrow> int" where
  "c_div a b = sgn a * sgn b * (\<bar>a\<bar> div \<bar>b\<bar>)"

definition c_mod :: "int \<Rightarrow> int \<Rightarrow> int" where
  "c_mod a b = a - c_div a b * b"

lemma c_div_pos: "0 \<le> a \<Longrightarrow> 0 < b \<Longrightarrow> c_div a b = a div b"
  by (cases "a = 0") (simp_all add: c_div_def)

lemma c_mod_pos: "0 \<le> a \<Longrightarrow> 0 < b \<Longrightarrow> c_mod a b = a mod b"
  by (simp add: c_mod_def c_div_pos minus_div_mult_eq_mod)

definition digit_char :: "nat \<Rightarrow> char" where
  "digit_char n = char_of (48 + n)"

fun nat_digits :: "nat \<Rightarrow> string" where
  "nat_digits n =
     (if n < 10 then [digit_char n] else nat_digits (n div 10) @ [digit_char (n mod 10)])"

declare nat_digits.simps [simp del]

text \<open>\<open>string_itoa\<close>, that is \<open>printf\<close>'s \<open>%d\<close>; and its zero-padded form \<open>%0wd\<close>.\<close>

definition itoa :: "int \<Rightarrow> string" where
  "itoa i = (if i < 0 then CHR ''-'' # nat_digits (nat (- i)) else nat_digits (nat i))"

definition fmt0 :: "nat \<Rightarrow> int \<Rightarrow> string" where
  "fmt0 w i =
     (if i < 0
      then CHR ''-'' # replicate (w - 1 - length (nat_digits (nat (- i)))) CHR ''0''
             @ nat_digits (nat (- i))
      else replicate (w - length (nat_digits (nat i))) CHR ''0'' @ nat_digits (nat i))"

definition is_digit :: "char \<Rightarrow> bool" where
  "is_digit c \<longleftrightarrow> 48 \<le> (of_char c :: nat) \<and> (of_char c :: nat) \<le> 57"

definition is_space :: "char \<Rightarrow> bool" where
  "is_space c \<longleftrightarrow> (of_char c :: nat) = 32 \<or> 9 \<le> (of_char c :: nat) \<and> (of_char c :: nat) \<le> 13"

fun digits_val :: "nat \<Rightarrow> string \<Rightarrow> nat" where
  "digits_val a [] = a"
| "digits_val a (c # cs) =
     (if is_digit c then digits_val (10 * a + (of_char c - 48)) cs else a)"

text \<open>\<open>atoi\<close>: leading white space, an optional sign, then digits up to the first other byte.\<close>

definition atoi :: "string \<Rightarrow> int" where
  "atoi s =
     (case dropWhile is_space s of
        [] \<Rightarrow> 0
      | c # cs \<Rightarrow>
          (if c = CHR ''-'' then - int (digits_val 0 cs)
           else if c = CHR ''+'' then int (digits_val 0 cs)
           else int (digits_val 0 (c # cs))))"

lemma of_char_digit_char [simp]: "n < 10 \<Longrightarrow> (of_char (digit_char n) :: nat) = 48 + n"
  by (simp add: digit_char_def)

lemma is_digit_digit_char [simp]: "n < 10 \<Longrightarrow> is_digit (digit_char n)"
  by (simp add: is_digit_def)

lemma nat_digits_all: "\<forall>c \<in> set (nat_digits n). is_digit c"
proof (induction n rule: nat_digits.induct)
  case (1 n)
  then show ?case by (subst nat_digits.simps) auto
qed

lemma nat_digits_not_Nil [simp]: "nat_digits n \<noteq> []"
  by (subst nat_digits.simps) simp

lemma digits_val_append:
  "\<forall>c \<in> set xs. is_digit c \<Longrightarrow> digits_val a (xs @ ys) = digits_val (digits_val a xs) ys"
  by (induction xs arbitrary: a) auto

lemma digits_val_nat_digits: "digits_val 0 (nat_digits n) = n"
proof (induction n rule: nat_digits.induct)
  case (1 n)
  then show ?case
    by (subst nat_digits.simps) (auto simp: digits_val_append[OF nat_digits_all])
qed

lemma digits_val_zeros: "digits_val 0 (replicate k CHR ''0'' @ xs) = digits_val 0 xs"
  by (induction k) (simp_all add: is_digit_def)

lemma is_digit_not_space: "is_digit c \<Longrightarrow> \<not> is_space c"
  by (auto simp: is_digit_def is_space_def)

lemma is_digit_not_sign: "is_digit c \<Longrightarrow> c \<noteq> CHR ''-'' \<and> c \<noteq> CHR ''+''"
  by (auto simp: is_digit_def)

lemma atoi_digits:
  assumes "\<forall>c \<in> set cs. is_digit c"
  shows "atoi cs = int (digits_val 0 cs)"
  using assms
  by (cases cs) (auto simp: atoi_def is_digit_not_space is_digit_not_sign)

lemma atoi_itoa [simp]: "atoi (itoa i) = i"
proof (cases "i < 0")
  case True
  then have "itoa i = CHR ''-'' # nat_digits (nat (- i))" by (simp add: itoa_def)
  then have "atoi (itoa i) = - int (digits_val 0 (nat_digits (nat (- i))))"
    by (simp add: atoi_def is_space_def)
  with True show ?thesis by (simp add: digits_val_nat_digits)
next
  case False
  then show ?thesis
    by (simp add: itoa_def atoi_digits nat_digits_all digits_val_nat_digits)
qed

lemma atoi_fmt0 [simp]: "0 \<le> i \<Longrightarrow> atoi (fmt0 w i) = i"
proof -
  assume i: "0 \<le> i"
  let ?s = "replicate (w - length (nat_digits (nat i))) CHR ''0'' @ nat_digits (nat i)"
  have "\<forall>c \<in> set ?s. is_digit c"
    using nat_digits_all by (auto simp: is_digit_def)
  then have "atoi ?s = int (digits_val 0 ?s)" by (rule atoi_digits)
  with i show ?thesis by (simp add: fmt0_def digits_val_zeros digits_val_nat_digits)
qed

lemma atoi_zero [simp]: "atoi ''0'' = 0"
  by code_simp

lemma itoa_inj [simp]: "itoa i = itoa j \<longleftrightarrow> i = j"
  by (metis atoi_itoa)

text \<open>\<open>string_equals_ignore_case\<close>: comparison after folding the ASCII capitals.\<close>

definition to_lower :: "char \<Rightarrow> char" where
  "to_lower c =
     (if 65 \<le> (of_char c :: nat) \<and> (of_char c :: nat) \<le> 90
      then char_of ((of_char c :: nat) + 32) else c)"

definition string_equals_ignore_case :: "string \<Rightarrow> string \<Rightarrow> bool" where
  "string_equals_ignore_case s t \<longleftrightarrow> map to_lower s = map to_lower t"

lemma string_equals_ignore_case_refl [simp]: "string_equals_ignore_case s s"
  by (simp add: string_equals_ignore_case_def)

lemma string_equals_ignore_case_sym:
  "string_equals_ignore_case s t \<longleftrightarrow> string_equals_ignore_case t s"
  by (auto simp: string_equals_ignore_case_def)

lemma string_equals_ignore_case_trans:
  "string_equals_ignore_case s t \<Longrightarrow> string_equals_ignore_case t u \<Longrightarrow>
   string_equals_ignore_case s u"
  by (simp add: string_equals_ignore_case_def)

section \<open>Association lists as directories and dictionaries\<close>

text \<open>How often a value occurs as the target of an entry, and how updates change that.\<close>

definition occurs :: "('k \<times> 'v) list \<Rightarrow> 'v \<Rightarrow> nat" where
  "occurs al v = length (filter (\<lambda>e. snd e = v) al)"

lemma occurs_Nil [simp]: "occurs [] v = 0"
  by (simp add: occurs_def)

lemma occurs_Cons [simp]: "occurs (e # al) v = (if snd e = v then 1 else 0) + occurs al v"
  by (simp add: occurs_def)

lemma occurs_pos_iff: "0 < occurs al v \<longleftrightarrow> (\<exists>k. (k, v) \<in> set al)"
  by (induction al) auto

lemma delete_absent: "map_of al k = None \<Longrightarrow> AList.delete k al = al"
  by (induction al) (auto simp: AList.delete_eq split: if_splits)

lemma occurs_delete:
  assumes "distinct (map fst al)" and "map_of al k = Some v"
  shows "occurs al u = occurs (AList.delete k al) u + (if u = v then 1 else 0)"
  using assms
proof (induction al)
  case Nil
  then show ?case by simp
next
  case (Cons e al)
  show ?case
  proof (cases "fst e = k")
    case True
    with Cons.prems have "map_of al k = None" and "snd e = v"
      by (auto simp: map_of_eq_None_iff)
    with True show ?thesis by (auto simp: delete_absent)
  next
    case False
    with Cons show ?thesis by auto
  qed
qed

lemma distinct_delete [simp]:
  "distinct (map fst al) \<Longrightarrow> distinct (map fst (AList.delete k al))"
  by (rule AList.distinct_delete)

lemma map_of_Some_in_set_iff:
  "distinct (map fst al) \<Longrightarrow> map_of al k = Some v \<longleftrightarrow> (k, v) \<in> set al"
  by (rule map_of_eq_Some_iff)

lemma occurs_pos_map_of:
  "distinct (map fst al) \<Longrightarrow> 0 < occurs al v \<longleftrightarrow> (\<exists>k. map_of al k = Some v)"
  by (simp add: occurs_pos_iff map_of_Some_in_set_iff)

lemma occurs_two_keys:
  assumes "distinct (map fst al)" and "map_of al k = Some v" and "map_of al k' = Some v"
    and "k \<noteq> k'"
  shows "2 \<le> occurs al v"
proof -
  have "map_of (AList.delete k al) k' = Some v"
    using assms by (simp add: AList.delete_conv')
  then have "0 < occurs (AList.delete k al) v"
    using assms(1) by (auto simp: occurs_pos_map_of)
  with occurs_delete[OF assms(1,2), of v] show ?thesis by simp
qed

section \<open>Pointers and lists\<close>

text \<open>A heap of objects of one type is a map from references; \<open>list_get\<close> gives NULL out of range.\<close>

definition deref :: "(nat \<rightharpoonup> 'a) \<Rightarrow> nat \<Rightarrow> fault + 'a" where
  "deref h r = (case h r of None \<Rightarrow> Inl UseAfterFree | Some x \<Rightarrow> Inr x)"

lemma deref_Some [simp]: "h r = Some x \<Longrightarrow> deref h r = Inr x"
  by (simp add: deref_def)

lemma deref_upd [simp]:
  "deref (h(r \<mapsto> x)) r = Inr x" "s \<noteq> r \<Longrightarrow> deref (h(r \<mapsto> x)) s = deref h s"
  by (simp_all add: deref_def)

text \<open>A pointer field that was never set is indeterminate.\<close>

definition puntero :: "nat option \<Rightarrow> fault + nat" where
  "puntero p = (case p of None \<Rightarrow> Inl Indeterminate | Some r \<Rightarrow> Inr r)"

lemma puntero_Some [simp]: "puntero (Some r) = Inr r"
  by (simp add: puntero_def)

definition list_get :: "'a list \<Rightarrow> int \<Rightarrow> fault + 'a" where
  "list_get xs i = (if i < 0 \<or> int (length xs) \<le> i then Inl NullDeref else Inr (xs ! nat i))"

lemma list_get_nat [simp]: "i < length xs \<Longrightarrow> list_get xs (int i) = Inr (xs ! i)"
  by (simp add: list_get_def)

section \<open>Invariants of transition systems\<close>

text \<open>
  Reachability over any step relation, and the interface every state machine of the
  development is proved through: an initial predicate, a step relation and an invariant
  that holds initially and is kept by each step.
\<close>

inductive reach :: "('s \<Rightarrow> bool) \<Rightarrow> ('s \<Rightarrow> 's \<Rightarrow> bool) \<Rightarrow> 's \<Rightarrow> bool"
  for init :: "'s \<Rightarrow> bool" and step :: "'s \<Rightarrow> 's \<Rightarrow> bool" where
  reach_init: "init s \<Longrightarrow> reach init step s"
| reach_step: "reach init step s \<Longrightarrow> step s t \<Longrightarrow> reach init step t"

locale invariant_system =
  fixes init :: "'s \<Rightarrow> bool"
    and step :: "'s \<Rightarrow> 's \<Rightarrow> bool"
    and inv :: "'s \<Rightarrow> bool"
  assumes inv_init: "init s \<Longrightarrow> inv s"
    and inv_step: "inv s \<Longrightarrow> step s t \<Longrightarrow> inv t"
begin

lemma reach_inv: "reach init step s \<Longrightarrow> inv s"
  by (induction rule: reach.induct) (auto intro: inv_init inv_step)

lemma star_inv: "step\<^sup>*\<^sup>* s t \<Longrightarrow> inv s \<Longrightarrow> inv t"
  by (induction rule: rtranclp_induct) (auto intro: inv_step)

end

end
