(* ===== verification/Op_Codes.thy ===== *)
theory Op_Codes
  imports Prelude "HOL-Library.Word"
begin

text \<open>
  The enumerations that the modules exchange (\<open>utils/src/utils/op_codes.h\<close>,
  \<open>set_instrucciones.h\<close> and \<open>resultado_t\<close> of \<open>networking.h\<close>), with the integer values
  C gives them, and the decoding that a \<open>switch\<close> over a received integer performs.
\<close>

datatype op_code =
    DESCONEXION
  | HANDSHAKE_QUERY_MASTER
  | HANDSHAKE_WORKER_MASTER
  | HANDSHAKE_WORKER_STORAGE
  | RESULTADO_HANDSHAKE
  | ASIGNACION_WORKER
  | SOLICITUD_STORAGE
  | CONSULTA_INTERRUPCION
  | INSTRUCCION_STORAGE
  | INSTRUCCION_MASTER
  | PAGINA_WORKER
  | LECTURA_MASTER
  | SOLICITUD_EJECUCION
  | QUERY_FINALIZADA
  | NOTIF_QUERY_CONTROL
  | DESALOJO_QUERY
  | QUERY_DESALOJADA
  | INFO_FILE_TAG_STORAGE
  | INFO_FILE_TAG_WORKER
  | MODIFICACIONES_STORAGE
  | RTA_STORAGE_WORKER
  | ERROR_AT_EXEC

datatype rta_storage =
    NOT_DEF_ERR
  | OP_EXITOSA
  | ERR_INEXISTENCIA
  | ERR_PREEXISTENCIA
  | ERR_ESP_INSUFICIENTE
  | ERR_WRITE_COMMITED
  | ERR_FUERA_LIMITE

datatype notif_query_control = NOTIF_READ | NOTIF_FINAL

datatype razon_fin = FINALIZACION_CORRECTA | ERR_DESC_WORKER | ERR_STORAGE

datatype resultado_t = ERROR | OK

datatype set_instrucciones =
    CREATE | TRUNCATE | WRITE | FLUSH | COMMIT | READ | TAG | DELETE | END

text \<open>The enumerators in declaration order, and the value of the first one.\<close>

definition op_codes :: "op_code list" where
  "op_codes =
     [DESCONEXION, HANDSHAKE_QUERY_MASTER, HANDSHAKE_WORKER_MASTER, HANDSHAKE_WORKER_STORAGE,
      RESULTADO_HANDSHAKE, ASIGNACION_WORKER, SOLICITUD_STORAGE, CONSULTA_INTERRUPCION,
      INSTRUCCION_STORAGE, INSTRUCCION_MASTER, PAGINA_WORKER, LECTURA_MASTER,
      SOLICITUD_EJECUCION, QUERY_FINALIZADA, NOTIF_QUERY_CONTROL, DESALOJO_QUERY,
      QUERY_DESALOJADA, INFO_FILE_TAG_STORAGE, INFO_FILE_TAG_WORKER, MODIFICACIONES_STORAGE,
      RTA_STORAGE_WORKER, ERROR_AT_EXEC]"

definition rtas_storage :: "rta_storage list" where
  "rtas_storage =
     [NOT_DEF_ERR, OP_EXITOSA, ERR_INEXISTENCIA, ERR_PREEXISTENCIA, ERR_ESP_INSUFICIENTE,
      ERR_WRITE_COMMITED, ERR_FUERA_LIMITE]"

definition notifs_query_control :: "notif_query_control list" where
  "notifs_query_control = [NOTIF_READ, NOTIF_FINAL]"

definition razones_fin :: "razon_fin list" where
  "razones_fin = [FINALIZACION_CORRECTA, ERR_DESC_WORKER, ERR_STORAGE]"

definition resultados :: "resultado_t list" where
  "resultados = [ERROR, OK]"

definition instrucciones_set :: "set_instrucciones list" where
  "instrucciones_set = [CREATE, TRUNCATE, WRITE, FLUSH, COMMIT, READ, TAG, DELETE, END]"

text \<open>
  The value of an enumerator is its position plus the first value; decoding looks the
  position up, and an integer that is no enumerator falls to the \<open>default\<close> of a switch.
\<close>

fun index_of :: "'a list \<Rightarrow> 'a \<Rightarrow> nat" where
  "index_of [] y = 0"
| "index_of (x # xs) y = (if x = y then 0 else Suc (index_of xs y))"

definition enum_val :: "int \<Rightarrow> 'a list \<Rightarrow> 'a \<Rightarrow> 32 word" where
  "enum_val first es e = word_of_int (first + int (index_of es e))"

definition enum_of :: "int \<Rightarrow> 'a list \<Rightarrow> 32 word \<Rightarrow> 'a option" where
  "enum_of first es w =
     (let i = sint w - first
      in if 0 \<le> i \<and> i < int (length es) then Some (es ! nat i) else None)"

lemma index_of_less: "y \<in> set xs \<Longrightarrow> index_of xs y < length xs"
  by (induction xs) auto

lemma nth_index_of: "y \<in> set xs \<Longrightarrow> xs ! index_of xs y = y"
  by (induction xs) auto

lemma enum_roundtrip:
  assumes "e \<in> set es" and "length es < 100" and "- 1 \<le> first" and "first \<le> 0"
  shows "enum_of first es (enum_val first es e) = Some e"
proof -
  have i: "index_of es e < length es" using assms(1) by (rule index_of_less)
  have "sint (enum_val first es e) = first + int (index_of es e)"
    unfolding enum_val_def int_word_sint using i assms(2-4) by simp
  with i show ?thesis by (simp add: enum_of_def nth_index_of[OF assms(1)])
qed

text \<open>\<open>op_code\<close>, \<open>rta_storage\<close> and \<open>resultado_t\<close> start at -1, the others at 0.\<close>

definition op_code_val :: "op_code \<Rightarrow> 32 word" where
  "op_code_val = enum_val (- 1) op_codes"

definition op_code_of :: "32 word \<Rightarrow> op_code option" where
  "op_code_of = enum_of (- 1) op_codes"

definition rta_val :: "rta_storage \<Rightarrow> 32 word" where
  "rta_val = enum_val (- 1) rtas_storage"

definition rta_of :: "32 word \<Rightarrow> rta_storage option" where
  "rta_of = enum_of (- 1) rtas_storage"

definition notif_val :: "notif_query_control \<Rightarrow> 32 word" where
  "notif_val = enum_val 0 notifs_query_control"

definition notif_of :: "32 word \<Rightarrow> notif_query_control option" where
  "notif_of = enum_of 0 notifs_query_control"

definition razon_val :: "razon_fin \<Rightarrow> 32 word" where
  "razon_val = enum_val 0 razones_fin"

definition razon_of :: "32 word \<Rightarrow> razon_fin option" where
  "razon_of = enum_of 0 razones_fin"

definition resultado_val :: "resultado_t \<Rightarrow> 32 word" where
  "resultado_val = enum_val (- 1) resultados"

definition resultado_of :: "32 word \<Rightarrow> resultado_t option" where
  "resultado_of = enum_of (- 1) resultados"

definition copi_val :: "set_instrucciones \<Rightarrow> 32 word" where
  "copi_val = enum_val 0 instrucciones_set"

definition copi_of :: "32 word \<Rightarrow> set_instrucciones option" where
  "copi_of = enum_of 0 instrucciones_set"

lemma set_op_codes: "x \<in> set op_codes"
  by (cases x) (simp_all add: op_codes_def)

lemma set_rtas_storage: "x \<in> set rtas_storage"
  by (cases x) (simp_all add: rtas_storage_def)

lemma set_notifs: "x \<in> set notifs_query_control"
  by (cases x) (simp_all add: notifs_query_control_def)

lemma set_razones: "x \<in> set razones_fin"
  by (cases x) (simp_all add: razones_fin_def)

lemma set_resultados: "x \<in> set resultados"
  by (cases x) (simp_all add: resultados_def)

lemma set_instrucciones_set: "x \<in> set instrucciones_set"
  by (cases x) (simp_all add: instrucciones_set_def)

lemma op_code_roundtrip [simp]: "op_code_of (op_code_val x) = Some x"
  unfolding op_code_of_def op_code_val_def
  by (rule enum_roundtrip[OF set_op_codes]) (simp_all add: op_codes_def)

lemma rta_roundtrip [simp]: "rta_of (rta_val x) = Some x"
  unfolding rta_of_def rta_val_def
  by (rule enum_roundtrip[OF set_rtas_storage]) (simp_all add: rtas_storage_def)

lemma notif_roundtrip [simp]: "notif_of (notif_val x) = Some x"
  unfolding notif_of_def notif_val_def
  by (rule enum_roundtrip[OF set_notifs]) (simp_all add: notifs_query_control_def)

lemma razon_roundtrip [simp]: "razon_of (razon_val x) = Some x"
  unfolding razon_of_def razon_val_def
  by (rule enum_roundtrip[OF set_razones]) (simp_all add: razones_fin_def)

lemma resultado_roundtrip [simp]: "resultado_of (resultado_val x) = Some x"
  unfolding resultado_of_def resultado_val_def
  by (rule enum_roundtrip[OF set_resultados]) (simp_all add: resultados_def)

lemma copi_roundtrip [simp]: "copi_of (copi_val x) = Some x"
  unfolding copi_of_def copi_val_def
  by (rule enum_roundtrip[OF set_instrucciones_set]) (simp_all add: instrucciones_set_def)

end
