(* ===== verification/Paquetes.thy ===== *)
theory Paquetes
  imports Op_Codes
begin

text \<open>
  The packet layer of \<open>utils/src/utils/paquetes.c\<close>: building a packet, serialising it,
  reading it back from a byte stream and taking its items out one by one. A packet on the
  wire is the operation code, the payload size and, when the payload is not empty, the
  items (each a 32-bit length and its bytes) and a zero length that ends them. Sizes are
  C \<open>int\<close>s, \<open>32 word\<close> here; the memory order is little endian, as on the target.
\<close>

type_synonym byte = "8 word"
type_synonym int32 = "32 word"

section \<open>Byte encodings\<close>

definition int_bytes :: "int32 \<Rightarrow> byte list" where
  "int_bytes w =
     [word_of_int (uint w), word_of_int (uint w div 256),
      word_of_int (uint w div 65536), word_of_int (uint w div 16777216)]"

fun bytes_int :: "byte list \<Rightarrow> int32" where
  "bytes_int (a # b # c # d # _) =
     word_of_int (uint a + 256 * uint b + 65536 * uint c + 16777216 * uint d)"
| "bytes_int _ = 0"

lemma length_int_bytes [simp]: "length (int_bytes w) = 4"
  by (simp add: int_bytes_def)

lemma int_bytes_not_Nil [simp]: "int_bytes w \<noteq> []"
  by (simp add: int_bytes_def)

lemma bytes_int_append: "length xs = 4 \<Longrightarrow> bytes_int (xs @ ys) = bytes_int xs"
  by (cases xs rule: bytes_int.cases) auto

lemma base256_sum:
  fixes m :: int
  assumes "m = 256 * x + p" and "x = 256 * y + q" and "y = 256 * z + r"
  shows "p + 256 * q + 65536 * r + 16777216 * z = m"
  using assms by simp

lemma base256_split:
  fixes u :: int
  shows "u mod 256 + 256 * (u div 256 mod 256) + 65536 * (u div 65536 mod 256)
         + 16777216 * (u div 16777216 mod 256) = u mod 4294967296"
proof -
  have n: "(65536::int) = 256 * 256" "(16777216::int) = 256 * (256 * 256)"
    "(4294967296::int) = 256 * (256 * (256 * 256))"
    by simp_all
  have d2: "u div 65536 = u div 256 div 256"
    unfolding n by (rule zdiv_zmult2_eq) simp
  have "u div 16777216 = u div 256 div (256 * 256)"
    unfolding n by (rule zdiv_zmult2_eq) simp
  also have "\<dots> = u div 256 div 256 div 256"
    by (rule zdiv_zmult2_eq) simp
  finally have d3: "u div 16777216 = u div 256 div 256 div 256" .
  have m1: "u mod 4294967296 = 256 * (u div 256 mod 16777216) + u mod 256"
    unfolding n by (rule zmod_zmult2_eq) simp
  have m2: "u div 256 mod 16777216 = 256 * (u div 256 div 256 mod 65536) + u div 256 mod 256"
    unfolding n by (rule zmod_zmult2_eq) simp
  have m3: "u div 256 div 256 mod 65536 =
      256 * (u div 256 div 256 div 256 mod 256) + u div 256 div 256 mod 256"
    unfolding n by (rule zmod_zmult2_eq) simp
  show ?thesis unfolding d2 d3 by (rule base256_sum[OF m1 m2 m3])
qed

lemma bytes_int_int_bytes [simp]: "bytes_int (int_bytes w) = w"
proof -
  have w: "uint w mod 4294967296 = uint w"
    using uint_lt2p[of w] by simp
  have b: "uint (word_of_int k :: byte) = k mod 256" for k
    by (simp add: uint_word_of_int)
  show ?thesis
    unfolding int_bytes_def bytes_int.simps b base256_split w by (rule word_of_int_uint)
qed

text \<open>A C string as the bytes \<open>strlen + 1\<close> sends; reading stops at the NUL.\<close>

definition char_byte :: "char \<Rightarrow> byte" where
  "char_byte c = word_of_nat (of_char c)"

definition byte_char :: "byte \<Rightarrow> char" where
  "byte_char b = char_of (unat b)"

definition cstr :: "string \<Rightarrow> byte list" where
  "cstr s = map char_byte s @ [0]"

fun of_cstr :: "byte list \<Rightarrow> string option" where
  "of_cstr [] = None"
| "of_cstr (b # bs) =
     (if b = 0 then Some [] else map_option (\<lambda>s. byte_char b # s) (of_cstr bs))"

definition no_nul :: "string \<Rightarrow> bool" where
  "no_nul s \<longleftrightarrow> (\<forall>c \<in> set s. c \<noteq> CHR 0x00)"

lemma byte_char_char_byte [simp]: "byte_char (char_byte c) = c"
  by (simp add: byte_char_def char_byte_def unat_of_nat)

lemma char_byte_eq_0 [simp]: "char_byte c = 0 \<longleftrightarrow> c = CHR 0x00"
proof
  assume "char_byte c = 0"
  then have "byte_char (char_byte c) = byte_char 0" by (rule arg_cong)
  then have "c = byte_char 0" by (simp only: byte_char_char_byte)
  also have "byte_char 0 = CHR 0x00" by code_simp
  finally show "c = CHR 0x00" .
qed (simp add: char_byte_def)

lemma of_cstr_cstr [simp]: "no_nul s \<Longrightarrow> of_cstr (cstr s) = Some s"
  by (induction s) (auto simp: cstr_def no_nul_def)

lemma cstr_not_Nil [simp]: "cstr s \<noteq> []"
  by (simp add: cstr_def)

lemma length_cstr [simp]: "length (cstr s) = Suc (length s)"
  by (simp add: cstr_def)

section \<open>Packets\<close>

text \<open>\<open>buffer_t\<close> and \<open>paquete_t\<close>; the code is kept as the C \<open>int\<close> that travels.\<close>

record buffer_t =
  buf_size :: int32
  stream :: "byte list"

record paquete_t =
  codigo_operacion :: int32
  buffer :: buffer_t

definition crear_paquete :: "int32 \<Rightarrow> paquete_t" where
  "crear_paquete codigo = \<lparr>codigo_operacion = codigo, buffer = \<lparr>buf_size = 0, stream = []\<rparr>\<rparr>"

text \<open>
  \<open>agregar_a_paquete\<close> copies the size and then \<open>size\<close> bytes of the value behind the
  first \<open>buffer->size\<close> bytes; reading past the value is out of bounds.
\<close>

definition agregar_a_paquete :: "paquete_t \<Rightarrow> byte list \<Rightarrow> int32 \<Rightarrow> fault + paquete_t" where
  "agregar_a_paquete p valor sz =
     (if sint sz < 0 \<or> int (length valor) < sint sz \<or> sint (buf_size (buffer p)) < 0
         \<or> int (length (stream (buffer p))) < sint (buf_size (buffer p))
      then Inl OutOfBounds
      else Inr (p\<lparr>buffer :=
        \<lparr>buf_size = buf_size (buffer p) + (sz + 4),
         stream = take (nat (sint (buf_size (buffer p)))) (stream (buffer p))
                  @ int_bytes sz @ take (nat (sint sz)) valor\<rparr>\<rparr>))"

definition espacio_paquete_serializado :: "paquete_t \<Rightarrow> int32" where
  "espacio_paquete_serializado p =
     (let espacio_total = 4 + 4 + buf_size (buffer p)
      in if buf_size (buffer p) \<noteq> 0 then espacio_total + 4 else espacio_total)"

definition serializar_paquete :: "paquete_t \<Rightarrow> byte list" where
  "serializar_paquete p =
     int_bytes (codigo_operacion p) @ int_bytes (buf_size (buffer p)) @
     (if buf_size (buffer p) \<noteq> 0
      then take (nat (sint (buf_size (buffer p)))) (stream (buffer p)) @ int_bytes 0
      else [])"

text \<open>
  \<open>recv\<close> with \<open>MSG_WAITALL\<close> on the bytes the peer has sent and will send before it
  closes: nothing left is the return value 0, on which the callers exit; fewer bytes than
  asked leave the rest of the object unset.
\<close>

definition recv_all :: "nat \<Rightarrow> byte list \<Rightarrow> fault + (byte list \<times> byte list)" where
  "recv_all n bs =
     (if bs = [] then Inl ExitFailure
      else if length bs < n then Inl Indeterminate
      else Inr (take n bs, drop n bs))"

lemma recv_all_length:
  "recv_all n bs = Inr (x, bs') \<Longrightarrow> 0 < n \<Longrightarrow> length bs' < length bs"
  by (auto simp: recv_all_def split: if_splits)

lemma recv_all_append [simp]:
  "length xs = n \<Longrightarrow> 0 < n \<Longrightarrow> recv_all n (xs @ ys) = Inr (xs, ys)"
  by (auto simp: recv_all_def)

text \<open>The loop of \<open>recibir_paquete\<close>: items until a zero size; a negative size is skipped.\<close>

function recibir_items :: "paquete_t \<Rightarrow> byte list \<Rightarrow> fault + (paquete_t \<times> byte list)" where
  "recibir_items p bs =
     (case recv_all 4 bs of
        Inl e \<Rightarrow> Inl e
      | Inr (sb, bs1) \<Rightarrow>
          (let size = bytes_int sb
           in if size = 0 then Inr (p, bs1)
              else if 0 < sint size then
                (case recv_all (nat (sint size)) bs1 of
                   Inl e \<Rightarrow> Inl e
                 | Inr (d, bs2) \<Rightarrow>
                     (case agregar_a_paquete p d size of
                        Inl e \<Rightarrow> Inl e
                      | Inr p' \<Rightarrow> recibir_items p' bs2))
              else recibir_items p bs1))"
  by pat_completeness auto
termination
  by (relation "measure (\<lambda>(p, bs). length bs)")
     (auto dest!: recv_all_length)

declare recibir_items.simps [simp del]

definition recibir_paquete :: "byte list \<Rightarrow> fault + (paquete_t \<times> byte list)" where
  "recibir_paquete bs =
     bindE (recv_all 4 bs) (\<lambda>(cb, bs).
     bindE (recv_all 4 bs) (\<lambda>(tb, bs).
       if bytes_int tb \<noteq> 0 then recibir_items (crear_paquete (bytes_int cb)) bs
       else Inr (crear_paquete (bytes_int cb), bs)))"

text \<open>
  \<open>obtener_siguiente_item\<close> takes the first item out of the buffer; \<open>NULL\<close> (\<open>None\<close>)
  when the buffer is empty or the size read is zero.
\<close>

definition obtener_siguiente_item ::
    "paquete_t \<Rightarrow> fault + (byte list option \<times> paquete_t)" where
  "obtener_siguiente_item p =
     (if buf_size (buffer p) = 0 then Inr (None, p)
      else if length (stream (buffer p)) < 4 then Inl OutOfBounds
      else let size = bytes_int (stream (buffer p)); rest = drop 4 (stream (buffer p)) in
        if size = 0 then Inr (None, p)
        else if sint size < 0 \<or> int (length rest) < sint size then Inl OutOfBounds
        else Inr (Some (take (nat (sint size)) rest),
          p\<lparr>buffer := \<lparr>buf_size = buf_size (buffer p) - 4 - size,
                      stream = drop (nat (sint size)) rest\<rparr>\<rparr>))"

lemma obtener_siguiente_item_length:
  "obtener_siguiente_item p = Inr (Some d, p') \<Longrightarrow>
   length (stream (buffer p')) < length (stream (buffer p))"
  by (auto simp: obtener_siguiente_item_def Let_def split: if_splits)

function sacar_items :: "paquete_t \<Rightarrow> fault + byte list list" where
  "sacar_items p =
     (case obtener_siguiente_item p of
        Inl e \<Rightarrow> Inl e
      | Inr (None, p') \<Rightarrow> Inr []
      | Inr (Some d, p') \<Rightarrow> bindE (sacar_items p') (\<lambda>ds. Inr (d # ds)))"
  by pat_completeness auto
termination
  by (relation "measure (\<lambda>p. length (stream (buffer p)))")
     (auto dest: obtener_siguiente_item_length)

declare sacar_items.simps [simp del]

text \<open>
  \<open>recv_package\<close>: the list whose first element is the code and whose others are the
  items, and the bytes left in the socket; \<open>get_opcode\<close> removes the first element.
\<close>

definition recv_package :: "byte list \<Rightarrow> fault + (byte list list \<times> byte list)" where
  "recv_package bs =
     bindE (recibir_paquete bs) (\<lambda>(p, bs).
     bindE (sacar_items p) (\<lambda>items.
       Inr (int_bytes (codigo_operacion p) # items, bs)))"

definition get_opcode :: "byte list list \<Rightarrow> fault + (int32 \<times> byte list list)" where
  "get_opcode list =
     (case list of [] \<Rightarrow> Inl NullDeref | b # bs \<Rightarrow> Inr (bytes_int b, bs))"

text \<open>A packet built as every caller does: \<open>crear_paquete\<close>, then one item after the other.\<close>

definition armar_paquete :: "int32 \<Rightarrow> byte list list \<Rightarrow> fault + paquete_t" where
  "armar_paquete codigo items =
     foldE (\<lambda>d p. agregar_a_paquete p d (word_of_nat (length d))) items (crear_paquete codigo)"

section \<open>The round trip\<close>

text \<open>The payload a list of items stands for, and the packet that holds it.\<close>

definition items_bytes :: "byte list list \<Rightarrow> byte list" where
  "items_bytes ds = concat (map (\<lambda>d. int_bytes (word_of_nat (length d)) @ d) ds)"

definition paquete_con :: "int32 \<Rightarrow> byte list list \<Rightarrow> paquete_t" where
  "paquete_con codigo ds =
     \<lparr>codigo_operacion = codigo,
      buffer = \<lparr>buf_size = word_of_nat (length (items_bytes ds)), stream = items_bytes ds\<rparr>\<rparr>"

definition items_fit :: "byte list list \<Rightarrow> bool" where
  "items_fit ds \<longleftrightarrow> length (items_bytes ds) < 2 ^ 31"

lemma items_bytes_simps [simp]:
  "items_bytes [] = []"
  "items_bytes (d # ds) = int_bytes (word_of_nat (length d)) @ d @ items_bytes ds"
  "items_bytes (ds @ es) = items_bytes ds @ items_bytes es"
  by (simp_all add: items_bytes_def)

lemma crear_paquete_con: "crear_paquete codigo = paquete_con codigo []"
  by (simp add: crear_paquete_def paquete_con_def)

lemma sint_word_of_nat: "n < 2 ^ 31 \<Longrightarrow> sint (word_of_nat n :: int32) = int n"
proof -
  assume "n < 2 ^ 31"
  then have "sint (word_of_int (int n) :: int32) = int n"
    unfolding int_word_sint by simp
  then show ?thesis by simp
qed

lemma word_of_nat_eq_0: "n < 2 ^ 31 \<Longrightarrow> (word_of_nat n :: int32) = 0 \<longleftrightarrow> n = 0"
  using sint_word_of_nat[of n] by auto

lemma items_fit_append: "items_fit (ds @ es) \<Longrightarrow> items_fit ds \<and> items_fit es"
  by (simp add: items_fit_def)

lemma agregar_paquete_con:
  assumes "items_fit (ds @ [d])"
  shows "agregar_a_paquete (paquete_con c ds) d (word_of_nat (length d)) =
         Inr (paquete_con c (ds @ [d]))"
proof -
  have l: "length d < 2 ^ 31" "length (items_bytes ds) < 2 ^ 31"
    using assms by (simp_all add: items_fit_def)
  show ?thesis
    unfolding agregar_a_paquete_def paquete_con_def
    by (simp add: sint_word_of_nat[OF l(1)] sint_word_of_nat[OF l(2)] algebra_simps)
qed

lemma armar_paquete_con:
  assumes "items_fit (ds @ es)"
  shows "foldE (\<lambda>d p. agregar_a_paquete p d (word_of_nat (length d))) es (paquete_con c ds) =
         Inr (paquete_con c (ds @ es))"
  using assms
proof (induction es arbitrary: ds)
  case Nil
  then show ?case by simp
next
  case (Cons d es)
  then have "items_fit (ds @ [d])" and "items_fit ((ds @ [d]) @ es)"
    by (auto simp: items_fit_def)
  with Cons.IH[of "ds @ [d]"] show ?case by (simp add: agregar_paquete_con)
qed

lemma armar_paquete_eq: "items_fit ds \<Longrightarrow> armar_paquete c ds = Inr (paquete_con c ds)"
  using armar_paquete_con[of "[]" ds c] by (simp add: armar_paquete_def crear_paquete_con)

lemma serializar_paquete_con:
  assumes "items_fit ds"
  shows "serializar_paquete (paquete_con c ds) =
    int_bytes c @ int_bytes (word_of_nat (length (items_bytes ds))) @
    (if ds = [] then [] else items_bytes ds @ int_bytes 0)"
proof -
  have "length (items_bytes ds) = 0 \<longleftrightarrow> ds = []" by (cases ds) (simp_all add: int_bytes_def)
  with assms show ?thesis
    by (auto simp: serializar_paquete_def paquete_con_def items_fit_def
        word_of_nat_eq_0 sint_word_of_nat)
qed

lemma recibir_items_con:
  assumes "items_fit (ds @ es)" and "\<forall>e \<in> set es. e \<noteq> []"
  shows "recibir_items (paquete_con c ds) (items_bytes es @ int_bytes 0 @ rest) =
         Inr (paquete_con c (ds @ es), rest)"
  using assms
proof (induction es arbitrary: ds)
  case Nil
  then show ?case by (subst recibir_items.simps) simp
next
  case (Cons d es)
  from Cons.prems have fit: "items_fit (ds @ [d])" "items_fit ((ds @ [d]) @ es)"
    and l: "length d < 2 ^ 31" and d: "d \<noteq> []"
    by (auto simp: items_fit_def)
  have nz: "(word_of_nat (length d) :: int32) \<noteq> 0"
    using l d by (simp add: word_of_nat_eq_0)
  have "recibir_items (paquete_con c (ds @ [d])) (items_bytes es @ int_bytes 0 @ rest) =
        Inr (paquete_con c ((ds @ [d]) @ es), rest)"
    using Cons.IH[OF fit(2)] Cons.prems(2) by simp
  then show ?case
    using nz d by (subst recibir_items.simps)
      (simp add: sint_word_of_nat[OF l] agregar_paquete_con[OF fit(1)])
qed

lemma recibir_paquete_con:
  assumes "items_fit ds" and "\<forall>d \<in> set ds. d \<noteq> []"
  shows "recibir_paquete (serializar_paquete (paquete_con c ds) @ rest) =
         Inr (paquete_con c ds, rest)"
proof (cases "ds = []")
  case True
  then show ?thesis
    using assms by (simp add: recibir_paquete_def serializar_paquete_con crear_paquete_con)
next
  case False
  then have "length (items_bytes ds) \<noteq> 0" by (cases ds) (simp_all add: int_bytes_def)
  then have "(word_of_nat (length (items_bytes ds)) :: int32) \<noteq> 0"
    using assms(1) by (simp add: items_fit_def word_of_nat_eq_0)
  with False recibir_items_con[of "[]" ds c rest] assms show ?thesis
    by (simp add: recibir_paquete_def serializar_paquete_con crear_paquete_con)
qed

lemma obtener_siguiente_item_con:
  assumes "items_fit (d # ds)" and "d \<noteq> []"
  shows "obtener_siguiente_item (paquete_con c (d # ds)) = Inr (Some d, paquete_con c ds)"
proof -
  have l: "length d < 2 ^ 31" "length (items_bytes (d # ds)) < 2 ^ 31"
    using assms(1) by (auto simp: items_fit_def)
  have nz: "(word_of_nat (length d) :: int32) \<noteq> 0"
    "(word_of_nat (length (items_bytes (d # ds))) :: int32) \<noteq> 0"
    using l assms(2) by (simp_all only: word_of_nat_eq_0) auto
  have b: "bytes_int (stream (buffer (paquete_con c (d # ds)))) = word_of_nat (length d)"
    by (simp add: paquete_con_def bytes_int_append)
  show ?thesis
    using nz b unfolding obtener_siguiente_item_def
    by (simp add: paquete_con_def sint_word_of_nat[OF l(1)] Let_def algebra_simps)
qed

lemma sacar_items_con:
  assumes "items_fit ds" and "\<forall>d \<in> set ds. d \<noteq> []"
  shows "sacar_items (paquete_con c ds) = Inr ds"
  using assms
proof (induction ds)
  case Nil
  show ?case
    by (subst sacar_items.simps) (simp add: obtener_siguiente_item_def paquete_con_def)
next
  case (Cons d ds)
  then have "items_fit ds" by (simp add: items_fit_def)
  with Cons show ?case
    by (subst sacar_items.simps) (simp add: obtener_siguiente_item_con)
qed

section \<open>Fields: the interface of what travels in an item\<close>

text \<open>
  A field is written with \<open>enc\<close> and read by the other module with \<open>dec\<close>. Integers, C
  strings and enumerators are fields; the clients only use the laws.
\<close>

locale field_codec =
  fixes enc :: "'a \<Rightarrow> byte list"
    and dec :: "byte list \<Rightarrow> 'a option"
    and ok :: "'a \<Rightarrow> bool"
  assumes dec_enc: "ok x \<Longrightarrow> dec (enc x) = Some x"
    and enc_not_Nil: "enc x \<noteq> []"
begin

lemma enc_inj: "ok x \<Longrightarrow> ok y \<Longrightarrow> enc x = enc y \<Longrightarrow> x = y"
  by (metis dec_enc option.inject)

lemma fields_received:
  assumes "items_fit (map enc xs)"
  shows "recibir_paquete (serializar_paquete (paquete_con c (map enc xs)) @ rest) =
           Inr (paquete_con c (map enc xs), rest)"
    and "sacar_items (paquete_con c (map enc xs)) = Inr (map enc xs)"
proof -
  have "d \<noteq> []" if "d \<in> set (map enc xs)" for d
    using that enc_not_Nil by (metis ex_map_conv)
  then have ne: "\<forall>d \<in> set (map enc xs). d \<noteq> []" by blast
  show "recibir_paquete (serializar_paquete (paquete_con c (map enc xs)) @ rest) =
      Inr (paquete_con c (map enc xs), rest)"
    using assms ne by (rule recibir_paquete_con)
  show "sacar_items (paquete_con c (map enc xs)) = Inr (map enc xs)"
    using assms ne by (rule sacar_items_con)
qed

end

definition read_int :: "byte list \<Rightarrow> int32 option" where
  "read_int b = (if 4 \<le> length b then Some (bytes_int b) else None)"

interpretation int_field: field_codec int_bytes read_int "\<lambda>_. True"
  by unfold_locales (simp_all add: read_int_def)

interpretation text_field: field_codec cstr of_cstr no_nul
  by unfold_locales simp_all

interpretation copi_field: field_codec "\<lambda>x. int_bytes (copi_val x)"
  "\<lambda>b. Option.bind (read_int b) copi_of" "\<lambda>_. True"
  by unfold_locales (auto simp: int_field.dec_enc int_field.enc_not_Nil)

interpretation rta_field: field_codec "\<lambda>x. int_bytes (rta_val x)"
  "\<lambda>b. Option.bind (read_int b) rta_of" "\<lambda>_. True"
  by unfold_locales (auto simp: int_field.dec_enc int_field.enc_not_Nil)

section \<open>Properties of the packet layer\<close>

lemma recv_package_con:
  assumes "items_fit ds" and "\<forall>d \<in> set ds. d \<noteq> []"
  shows "recv_package (serializar_paquete (paquete_con c ds) @ rest) =
         Inr (int_bytes c # ds, rest)"
  using recibir_paquete_con[OF assms] sacar_items_con[OF assms]
  by (simp add: recv_package_def) (simp add: paquete_con_def)

text \<open>
  C23: a packet built item by item, serialised and read with \<open>recv_package\<close> comes out as
  its operation code and exactly its items, and the reader stops at the packet's end: the
  bytes that follow in the socket are untouched. It needs the payload to fit a C \<open>int\<close>
  and no item to be empty.
\<close>

theorem package_roundtrip:
  assumes "items_fit ds" and "\<forall>d \<in> set ds. d \<noteq> []"
  shows "\<exists>p. armar_paquete c ds = Inr p \<and>
             recv_package (serializar_paquete p @ rest) = Inr (int_bytes c # ds, rest)"
  using recv_package_con[OF assms] armar_paquete_eq[OF assms(1)] by blast

theorem package_roundtrip_witness:
  "\<exists>p. armar_paquete 5 [cstr ''f'', [1, 2, 3]] = Inr p \<and>
       recv_package (serializar_paquete p @ [9, 9]) =
         Inr (int_bytes 5 # [cstr ''f'', [1, 2, 3]], [9, 9])"
  by (rule package_roundtrip) (simp_all add: items_fit_def)

lemma recibir_items_stop:
  assumes "items_fit (ds @ es)" and "\<forall>e \<in> set es. e \<noteq> []"
  shows "recibir_items (paquete_con c ds) (items_bytes es @ int_bytes 0 @ rest) =
         Inr (paquete_con c (ds @ es), rest)"
  using assms by (rule recibir_items_con)

lemma items_bytes_empty_item: "items_bytes ([] # es) = int_bytes 0 @ items_bytes es"
  by simp

text \<open>
  An empty item ends the packet for the reader, because its zero length reads as the
  end mark: the items before it are delivered, and the later ones are left in the socket,
  in front of whatever packet comes next.
\<close>

lemma package_empty_item_cuts:
  assumes "items_fit (ds @ [] # es)" and "\<forall>d \<in> set ds. d \<noteq> []"
  shows "\<exists>p. armar_paquete c (ds @ [] # es) = Inr p \<and>
             recv_package (serializar_paquete p @ rest) =
               Inr (int_bytes c # ds, items_bytes es @ int_bytes 0 @ rest)"
proof -
  let ?ds = "ds @ [] # es"
  have fit: "items_fit ds" using assms(1) by (rule items_fit_append[THEN conjunct1])
  have "length (items_bytes ?ds) \<noteq> 0" by simp
  then have nz: "(word_of_nat (length (items_bytes ?ds)) :: int32) \<noteq> 0"
    using assms(1) by (simp only: items_fit_def word_of_nat_eq_0) simp
  have "recibir_items (paquete_con c []) (items_bytes ds @ int_bytes 0 @
          (items_bytes es @ int_bytes 0 @ rest)) =
        Inr (paquete_con c ([] @ ds), items_bytes es @ int_bytes 0 @ rest)"
    by (rule recibir_items_stop) (use fit assms(2) in simp_all)
  then have "recibir_paquete (serializar_paquete (paquete_con c ?ds) @ rest) =
      Inr (paquete_con c ds, items_bytes es @ int_bytes 0 @ rest)"
    using nz unfolding recibir_paquete_def serializar_paquete_con[OF assms(1)]
    by (simp add: crear_paquete_con)
  then have "recv_package (serializar_paquete (paquete_con c ?ds) @ rest) =
      Inr (int_bytes c # ds, items_bytes es @ int_bytes 0 @ rest)"
    using sacar_items_con[OF fit assms(2), of c]
    by (simp add: recv_package_def) (simp add: paquete_con_def)
  with armar_paquete_eq[OF assms(1)] show ?thesis by blast
qed

text \<open>
  The size \<open>enviar_paquete\<close> passes to \<open>send\<close>, which is also what \<open>serializar_paquete\<close>
  allocates, is exactly the number of bytes it writes.
\<close>

lemma espacio_is_serialized_length:
  assumes "length (items_bytes ds) < 2 ^ 31 - 12"
  shows "\<exists>p. armar_paquete c ds = Inr p \<and>
             sint (espacio_paquete_serializado p) = int (length (serializar_paquete p))"
proof -
  let ?n = "length (items_bytes ds)"
  have fit: "items_fit ds" using assms by (simp add: items_fit_def)
  have z: "?n = 0 \<longleftrightarrow> ds = []" by (cases ds) (simp_all add: int_bytes_def)
  have e: "espacio_paquete_serializado (paquete_con c ds) =
      word_of_nat (?n + (if ds = [] then 8 else 12))"
    using fit z unfolding espacio_paquete_serializado_def Let_def
    by (simp add: paquete_con_def items_fit_def word_of_nat_eq_0)
  have "?n + (if ds = [] then 8 else 12) < 2 ^ 31" using assms z by auto
  then have "sint (espacio_paquete_serializado (paquete_con c ds)) =
      int (?n + (if ds = [] then 8 else 12))"
    unfolding e by (rule sint_word_of_nat)
  also have "\<dots> = int (length (serializar_paquete (paquete_con c ds)))"
    by (simp add: serializar_paquete_con[OF fit])
  finally show ?thesis using armar_paquete_eq[OF fit] by blast
qed

section \<open>Reading the items of a received packet\<close>

text \<open>
  The handlers take items by position from the list \<open>recv_package\<close> gave: an item that is not
  there is a null pointer, and a string item without its NUL is read past its end.
\<close>

definition item :: "byte list list \<Rightarrow> nat \<Rightarrow> fault + byte list" where
  "item pkg i = (if i < length pkg then Inr (pkg ! i) else Inl NullDeref)"

definition item_int32 :: "byte list list \<Rightarrow> nat \<Rightarrow> fault + int32" where
  "item_int32 pkg i = bindE (item pkg i) (\<lambda>b. Inr (bytes_int b))"

definition item_str :: "byte list list \<Rightarrow> nat \<Rightarrow> fault + string" where
  "item_str pkg i =
     bindE (item pkg i) (\<lambda>b. case of_cstr b of None \<Rightarrow> Inl OutOfBounds | Some s \<Rightarrow> Inr s)"

lemma item_simps [simp]:
  "item (b # bs) 0 = Inr b" "item (b # bs) (Suc i) = item bs i"
  "item_str (b # bs) (Suc i) = item_str bs i"
  "item_int32 (int_bytes w # bs) 0 = Inr w" "item_int32 (b # bs) (Suc i) = item_int32 bs i"
  by (auto simp: item_def item_str_def item_int32_def)

lemma item_str_cstr [simp]: "no_nul s \<Longrightarrow> item_str (cstr s # bs) 0 = Inr s"
  by (simp add: item_str_def)

text \<open>What a module sends to a peer: a packet with its items, or raw bytes with \<open>send\<close>.\<close>

datatype envio = Paquete op_code "byte list list" | Crudo "byte list"

end
