(* ===== verification/Networking.thy ===== *)
theory Networking
  imports Paquetes
begin

text \<open>
  The sockets of \<open>utils/src/utils/networking.c\<close>: how a server is set up and how a client
  connects, over the addresses \<open>getaddrinfo\<close> gives. What the system calls answer for each
  address is a parameter; the functions give what they return, or the exit they take, and the
  sockets they close on the way. Log lines are left out.
\<close>

record 'a red_local =
  r_getaddrinfo :: int
  direcciones :: "'a list"
  r_socket :: "'a \<Rightarrow> int"
  r_setsockopt :: "'a \<Rightarrow> int"
  r_bind :: "'a \<Rightarrow> int"
  r_connect :: "'a \<Rightarrow> int"
  r_listen :: "int \<Rightarrow> int"
  r_accept :: "int \<Rightarrow> int"

section \<open>Servers\<close>

text \<open>The loop over the addresses: the socket of the one it breaks at, and the ones closed.\<close>

fun buscar_servidor :: "'a red_local \<Rightarrow> 'a list \<Rightarrow> int list \<Rightarrow> (fault + int option) \<times> int list" where
  "buscar_servidor n [] cerrados = (Inr None, cerrados)"
| "buscar_servidor n (a # as) cerrados =
     (let socket_server = r_socket n a
      in if socket_server = - 1 then buscar_servidor n as cerrados
         else if r_setsockopt n a = - 1 then (Inl ExitFailure, cerrados)
         else if r_bind n a = - 1 then buscar_servidor n as (cerrados @ [socket_server])
         else (Inr (Some socket_server), cerrados))"

definition create_server :: "'a red_local \<Rightarrow> (fault + int) \<times> int list" where
  "create_server n =
     (if r_getaddrinfo n \<noteq> 0 then (Inl ExitFailure, [])
      else
        case buscar_servidor n (direcciones n) [] of
          (Inl e, cerrados) \<Rightarrow> (Inl e, cerrados)
        | (Inr None, cerrados) \<Rightarrow> (Inl ExitFailure, cerrados)
        | (Inr (Some socket_server), cerrados) \<Rightarrow>
            if r_listen n socket_server = - 1 then (Inl ExitFailure, cerrados @ [socket_server])
            else (Inr socket_server, cerrados))"

definition accept_connection :: "'a red_local \<Rightarrow> int \<Rightarrow> int" where
  "accept_connection n server_socket =
     (let new_socket = r_accept n server_socket in if new_socket = - 1 then - 1 else new_socket)"

section \<open>Clients\<close>

fun buscar_conexion :: "'a red_local \<Rightarrow> 'a list \<Rightarrow> int list \<Rightarrow> int option \<times> int list" where
  "buscar_conexion n [] cerrados = (None, cerrados)"
| "buscar_conexion n (a # as) cerrados =
     (let socket_client = r_socket n a
      in if socket_client = - 1 then buscar_conexion n as cerrados
         else if r_connect n a = - 1 then buscar_conexion n as (cerrados @ [socket_client])
         else (Some socket_client, cerrados))"

definition connect_to_server :: "'a red_local \<Rightarrow> (fault + int) \<times> int list" where
  "connect_to_server n =
     (if r_getaddrinfo n \<noteq> 0 then (Inl ExitFailure, [])
      else
        case buscar_conexion n (direcciones n) [] of
          (None, cerrados) \<Rightarrow> (Inl ExitFailure, cerrados)
        | (Some socket_client, cerrados) \<Rightarrow> (Inr socket_client, cerrados))"

section \<open>What is returned and what is closed\<close>

text \<open>The sockets opened for the addresses before one.\<close>

definition abiertos :: "'a red_local \<Rightarrow> 'a list \<Rightarrow> int list" where
  "abiertos n as = filter (\<lambda>s. s \<noteq> - 1) (map (r_socket n) as)"

lemma abiertos_simps [simp]:
  "abiertos n [] = []"
  "abiertos n (a # as) = (if r_socket n a = - 1 then abiertos n as else r_socket n a # abiertos n as)"
  by (simp_all add: abiertos_def)

lemma primera_cons:
  "(\<exists>xs a ys. b # bs = xs @ a # ys \<and> P xs a) \<longleftrightarrow> P [] b \<or> (\<exists>xs a ys. bs = xs @ a # ys \<and> P (b # xs) a)"
  by (metis append_Cons append_Nil list.inject neq_Nil_conv)

lemma buscar_servidor_Some:
  "buscar_servidor n as c = (Inr (Some s), c') \<longleftrightarrow>
     (\<exists>xs a ys. as = xs @ a # ys \<and> s = r_socket n a \<and> s \<noteq> - 1 \<and> r_setsockopt n a \<noteq> - 1 \<and> r_bind n a \<noteq> - 1 \<and>
        (\<forall>x \<in> set xs. r_socket n x = - 1 \<or> r_setsockopt n x \<noteq> - 1 \<and> r_bind n x = - 1) \<and> c' = c @ abiertos n xs)"
proof (induction "as" arbitrary: c)
  case (Cons b bs)
  show ?case unfolding primera_cons by (auto simp: Let_def Cons.IH)
qed simp

lemma buscar_conexion_Some:
  "buscar_conexion n as c = (Some s, c') \<longleftrightarrow>
     (\<exists>xs a ys. as = xs @ a # ys \<and> s = r_socket n a \<and> s \<noteq> - 1 \<and> r_connect n a \<noteq> - 1 \<and>
        (\<forall>x \<in> set xs. r_socket n x = - 1 \<or> r_connect n x = - 1) \<and> c' = c @ abiertos n xs)"
proof (induction "as" arbitrary: c)
  case (Cons b bs)
  show ?case unfolding primera_cons by (auto simp: Let_def Cons.IH)
qed simp

text \<open>
  C39: a server that starts listens on the first address that takes it, and a client that
  connects is connected to the first address that answers; every socket opened for an address
  that failed before it has been closed, once, and no other has.
\<close>

theorem first_address_no_leak:
  "(create_server n = (Inr s, cerrados) \<longleftrightarrow>
      r_getaddrinfo n = 0 \<and> r_listen n s \<noteq> - 1 \<and>
      (\<exists>xs a ys. direcciones n = xs @ a # ys \<and> s = r_socket n a \<and> s \<noteq> - 1 \<and>
         r_setsockopt n a \<noteq> - 1 \<and> r_bind n a \<noteq> - 1 \<and>
         (\<forall>x \<in> set xs. r_socket n x = - 1 \<or> r_setsockopt n x \<noteq> - 1 \<and> r_bind n x = - 1) \<and>
         cerrados = abiertos n xs)) \<and>
   (connect_to_server n = (Inr s, cerrados) \<longleftrightarrow>
      r_getaddrinfo n = 0 \<and>
      (\<exists>xs a ys. direcciones n = xs @ a # ys \<and> s = r_socket n a \<and> s \<noteq> - 1 \<and> r_connect n a \<noteq> - 1 \<and>
         (\<forall>x \<in> set xs. r_socket n x = - 1 \<or> r_connect n x = - 1) \<and> cerrados = abiertos n xs))"
proof -
  have "create_server n = (Inr s, cerrados) \<longleftrightarrow> r_getaddrinfo n = 0 \<and> r_listen n s \<noteq> - 1 \<and>
      buscar_servidor n (direcciones n) [] = (Inr (Some s), cerrados)"
    by (auto simp: create_server_def split: prod.split sum.split option.split)
  moreover have "connect_to_server n = (Inr s, cerrados) \<longleftrightarrow> r_getaddrinfo n = 0 \<and>
      buscar_conexion n (direcciones n) [] = (Some s, cerrados)"
    by (auto simp: connect_to_server_def split: prod.split option.split)
  ultimately show ?thesis by (simp add: buscar_servidor_Some buscar_conexion_Some)
qed

text \<open>Two addresses: the first is taken, the second is free.\<close>

definition demo_local :: "bool red_local" where
  "demo_local = \<lparr>r_getaddrinfo = 0, direcciones = [False, True], r_socket = (\<lambda>b. if b then 5 else 4),
     r_setsockopt = (\<lambda>b. 0), r_bind = (\<lambda>b. if b then 0 else - 1), r_connect = (\<lambda>b. if b then 0 else - 1),
     r_listen = (\<lambda>s. 0), r_accept = (\<lambda>s. 9)\<rparr>"

theorem first_address_no_leak_witness:
  "create_server demo_local = (Inr 5, [4]) \<and> connect_to_server demo_local = (Inr 5, [4])"
proof -
  have d: "direcciones demo_local = [False] @ True # []" "abiertos demo_local [False] = [4]"
    by (simp_all add: demo_local_def)
  have v: "r_getaddrinfo demo_local = 0" "r_listen demo_local 5 \<noteq> - 1" "r_socket demo_local True = 5"
    "r_setsockopt demo_local b \<noteq> - 1" "r_bind demo_local True \<noteq> - 1" "r_connect demo_local True \<noteq> - 1"
    "r_bind demo_local False = - 1" "r_connect demo_local False = - 1" for b
    by (simp_all add: demo_local_def)
  have "\<exists>xs a ys. direcciones demo_local = xs @ a # ys \<and> 5 = r_socket demo_local a \<and> (5::int) \<noteq> - 1 \<and>
      r_setsockopt demo_local a \<noteq> - 1 \<and> r_bind demo_local a \<noteq> - 1 \<and>
      (\<forall>x \<in> set xs. r_socket demo_local x = - 1 \<or> r_setsockopt demo_local x \<noteq> - 1 \<and> r_bind demo_local x = - 1) \<and>
      [4] = abiertos demo_local xs"
    by (rule exI[of _ "[False]"], rule exI[of _ True], rule exI[of _ "[]"]) (simp add: d v del: abiertos_simps)
  moreover have "\<exists>xs a ys. direcciones demo_local = xs @ a # ys \<and> 5 = r_socket demo_local a \<and> (5::int) \<noteq> - 1 \<and>
      r_connect demo_local a \<noteq> - 1 \<and>
      (\<forall>x \<in> set xs. r_socket demo_local x = - 1 \<or> r_connect demo_local x = - 1) \<and> [4] = abiertos demo_local xs"
    by (rule exI[of _ "[False]"], rule exI[of _ True], rule exI[of _ "[]"]) (simp add: d v del: abiertos_simps)
  ultimately show ?thesis using first_address_no_leak[of demo_local 5 "[4]"] v(1,2) by blast
qed

end
