(* ===== verification/Master_State.thy ===== *)
theory Master_State
  imports Paquetes
begin

text \<open>
  The state of the master module (\<open>master/include/master_globals.h\<close>) and the operations of
  \<open>master/src/master_util.c\<close>. \<open>query_t\<close> and \<open>worker_t\<close> objects live in two heaps and are named
  by references; the queues hold references, and a freed object is out of its heap. A
  semaphore is its count. Of the mutexes only \<open>mutex_ready\<close> is ever held across a wait, so it
  is the one in the state; \<open>Blocked\<close> is the answer of an operation that has to wait, which
  changes nothing. \<open>list_add_sorted\<close> of so-commons is the parameter \<open>ins\<close>, and what is sent is
  logged with the socket it goes to.
\<close>

datatype state_t = READY | EXEC | FINISHED

record query_t =
  q_id :: int
  q_pc :: int
  q_socket :: int
  q_file :: string
  prioridad :: int
  q_interrumpir :: bool
  q_worker :: "nat option"
  q_state :: state_t

record worker_t =
  w_socket :: int
  w_id :: string
  interrumpir :: bool
  error_at_exec :: bool
  sem_interrupt :: nat
  w_state :: state_t
  w_query :: "nat option"

text \<open>Where the threads of the master stand: the places they can wait at.\<close>

datatype check_pc = CP_inicio | CP_lock | CP_int | CP_asign
datatype proceso_pc = PH_ready | PH_workers | PH_obtener | PH_asigna "nat option"
datatype aging_pc = AG_inicio | AG_dormido | AG_check check_pc

record master =
  ALGORITMO_PLANIFICACION :: string
  TIEMPO_AGING :: int
  querys_ready :: "nat list"
  querys_exec :: "nat list"
  workers :: "nat list"
  sem_ready :: nat
  sem_workers :: nat
  sem_int :: nat
  sem_check_prior :: nat
  sem_asign :: nat
  mutex_ready :: bool
  signal_asign :: bool
  ultimo_id :: int
  querys :: "nat \<rightharpoonup> query_t"
  trabajadores :: "nat \<rightharpoonup> worker_t"
  next_obj :: nat
  enviados :: "(int \<times> envio) list"
  red :: "(nat \<times> check_pc) option"
  proceso :: proceso_pc
  agings :: "(nat \<times> aging_pc) list"
  esperando_worker :: "nat list"

type_synonym insercion = "(nat \<Rightarrow> nat \<Rightarrow> bool) \<Rightarrow> nat list \<Rightarrow> nat \<Rightarrow> nat list"

section \<open>Objects\<close>

definition set_query :: "nat \<Rightarrow> (query_t \<Rightarrow> query_t) \<Rightarrow> master \<Rightarrow> fault + master" where
  "set_query q f m = bindE (deref (querys m) q) (\<lambda>x. Inr (m\<lparr>querys := (querys m)(q \<mapsto> f x)\<rparr>))"

definition set_worker :: "nat \<Rightarrow> (worker_t \<Rightarrow> worker_t) \<Rightarrow> master \<Rightarrow> fault + master" where
  "set_worker w f m =
     bindE (deref (trabajadores m) w) (\<lambda>x. Inr (m\<lparr>trabajadores := (trabajadores m)(w \<mapsto> f x)\<rparr>))"

text \<open>A pointer field that may be NULL.\<close>

definition no_nulo :: "nat option \<Rightarrow> fault + nat" where
  "no_nulo p = (case p of None \<Rightarrow> Inl NullDeref | Some r \<Rightarrow> Inr r)"

lemma no_nulo_Some [simp]: "no_nulo (Some r) = Inr r"
  by (simp add: no_nulo_def)

definition enviar :: "int \<Rightarrow> envio \<Rightarrow> master \<Rightarrow> master" where
  "enviar socket e m = m\<lparr>enviados := enviados m @ [(socket, e)]\<rparr>"

definition asign_query_id :: "master \<Rightarrow> int \<times> master" where
  "asign_query_id m = (ultimo_id m + 1, m\<lparr>ultimo_id := ultimo_id m + 1\<rparr>)"

section \<open>Notifications\<close>

definition notificar_finalizacion ::
    "nat \<Rightarrow> razon_fin \<Rightarrow> int32 \<Rightarrow> master \<Rightarrow> fault + master" where
  "notificar_finalizacion q razon c_error m =
     bindE (deref (querys m) q) (\<lambda>x.
       Inr (enviar (q_socket x)
              (Paquete NOTIF_QUERY_CONTROL
                 ([int_bytes (notif_val NOTIF_FINAL), int_bytes (razon_val razon)]
                  @ (if razon = ERR_STORAGE then [int_bytes c_error] else []))) m))"

definition notificar_read ::
    "nat \<Rightarrow> string \<Rightarrow> string \<Rightarrow> string \<Rightarrow> master \<Rightarrow> fault + master" where
  "notificar_read q file tag contenido m =
     bindE (deref (querys m) q) (\<lambda>x.
     let m = enviar (q_socket x) (Paquete NOTIF_QUERY_CONTROL
               [int_bytes (notif_val NOTIF_READ), cstr file, cstr tag, cstr contenido]) m
     in bindE (no_nulo (q_worker x)) (\<lambda>w. bindE (deref (trabajadores m) w) (\<lambda>y. Inr m)))"

definition finalizar_query ::
    "nat \<Rightarrow> razon_fin \<Rightarrow> int32 \<Rightarrow> master \<Rightarrow> fault + master" where
  "finalizar_query q razon c_error m =
     bindE (set_query q (\<lambda>x. x\<lparr>q_state := FINISHED\<rparr>) (m\<lparr>querys_exec := remove1 q (querys_exec m)\<rparr>)) (\<lambda>m.
     bindE (if razon = ERR_STORAGE then Inr ()
            else bindE (deref (querys m) q) (\<lambda>x. bindE (no_nulo (q_worker x)) (\<lambda>w.
                 bindE (deref (trabajadores m) w) (\<lambda>y. Inr ())))) (\<lambda>u.
       notificar_finalizacion q razon c_error m))"

section \<open>Queues\<close>

definition priority_comparator :: "master \<Rightarrow> nat \<Rightarrow> nat \<Rightarrow> bool" where
  "priority_comparator m a b =
     (case (querys m a, querys m b) of
        (Some x, Some y) \<Rightarrow> prioridad x < prioridad y
      | _ \<Rightarrow> False)"

text \<open>\<open>list_add_sorted(querys_ready, query, priority_comparator)\<close>, which reads every query of the list.\<close>

definition agregar_ordenada :: "insercion \<Rightarrow> nat \<Rightarrow> master \<Rightarrow> fault + master" where
  "agregar_ordenada ins q m =
     (if list_all (\<lambda>r. querys m r \<noteq> None) (querys_ready m) \<and> querys m q \<noteq> None
      then Inr (m\<lparr>querys_ready := ins (priority_comparator m) (querys_ready m) q\<rparr>)
      else Inl UseAfterFree)"

definition liberar_query :: "nat \<Rightarrow> int \<Rightarrow> master \<Rightarrow> fault + master" where
  "liberar_query q pc m =
     (if mutex_ready m then Inl Blocked
      else
        bindE (set_query q (\<lambda>x. x\<lparr>q_worker := None, q_state := READY\<rparr>)
                 (m\<lparr>querys_exec := remove1 q (querys_exec m)\<rparr>)) (\<lambda>m.
        bindE (if pc \<noteq> - 1 then set_query q (\<lambda>x. x\<lparr>q_pc := pc\<rparr>) m else Inr m) (\<lambda>m.
          Inr (m\<lparr>querys_ready := querys_ready m @ [q], sem_ready := sem_ready m + 1\<rparr>))))"

definition destruir_query :: "nat \<Rightarrow> master \<Rightarrow> fault + master" where
  "destruir_query q m =
     bindE (deref (querys m) q) (\<lambda>x.
     bindE (if q_worker x \<noteq> None then Inr (m\<lparr>querys_exec := remove1 q (querys_exec m)\<rparr>)
            else if mutex_ready m then Inl Blocked
            else Inr (m\<lparr>querys_ready := remove1 q (querys_ready m)\<rparr>)) (\<lambda>m.
       Inr (m\<lparr>querys := (querys m)(q := None)\<rparr>)))"

definition obtener_query :: "master \<Rightarrow> fault + (nat option \<times> master)" where
  "obtener_query m =
     (if mutex_ready m then Inl Blocked
      else
        (case querys_ready m of
           [] \<Rightarrow> Inr (None, m)
         | q # qs \<Rightarrow> Inr (Some q, m\<lparr>querys_ready := qs\<rparr>)))"

section \<open>Workers\<close>

definition liberar_worker :: "nat \<Rightarrow> master \<Rightarrow> fault + master" where
  "liberar_worker w m =
     set_worker w (\<lambda>x. x\<lparr>w_state := READY, w_query := None, interrumpir := False\<rparr>) m"

definition destruir_worker :: "nat \<Rightarrow> master \<Rightarrow> fault + master" where
  "destruir_worker w m =
     bindE (deref (trabajadores m) w) (\<lambda>x.
       Inr (m\<lparr>workers := remove1 w (workers m), trabajadores := (trabajadores m)(w := None)\<rparr>))"

fun primer_libre :: "nat list \<Rightarrow> master \<Rightarrow> fault + nat option" where
  "primer_libre [] m = Inr None"
| "primer_libre (w # ws) m =
     bindE (deref (trabajadores m) w) (\<lambda>x.
       if w_state x = READY then Inr (Some w) else primer_libre ws m)"

definition buscar_worker_libre :: "master \<Rightarrow> fault + nat option" where
  "buscar_worker_libre m = primer_libre (workers m) m"

definition hacer_par_query_worker :: "nat option \<Rightarrow> nat option \<Rightarrow> master \<Rightarrow> fault + master" where
  "hacer_par_query_worker query worker m =
     bindE (no_nulo query) (\<lambda>q.
     bindE (set_query q (\<lambda>x. x\<lparr>q_worker := worker, q_state := EXEC\<rparr>)
              (m\<lparr>querys_exec := querys_exec m @ [q]\<rparr>)) (\<lambda>m.
     bindE (no_nulo worker) (\<lambda>w.
       set_worker w (\<lambda>x. x\<lparr>w_query := Some q, w_state := EXEC\<rparr>) m)))"

definition solicitar_ejecucion_query :: "nat \<Rightarrow> int \<Rightarrow> master \<Rightarrow> fault + master" where
  "solicitar_ejecucion_query q socket m =
     bindE (deref (querys m) q) (\<lambda>x.
     let m = enviar socket (Paquete SOLICITUD_EJECUCION
               [cstr (q_file x), int_bytes (word_of_int (q_id x)), int_bytes (word_of_int (q_pc x))]) m
     in bindE (no_nulo (q_worker x)) (\<lambda>w. bindE (deref (trabajadores m) w) (\<lambda>y. Inr m)))"

text \<open>
  The victim: the first of the queries in execution with the highest priority number among
  the first one and those whose worker is not already asked to leave.
\<close>

fun victima_desde :: "nat \<Rightarrow> nat list \<Rightarrow> master \<Rightarrow> fault + nat" where
  "victima_desde v [] m = Inr v"
| "victima_desde v (q # qs) m =
     bindE (deref (querys m) q) (\<lambda>x.
     bindE (deref (querys m) v) (\<lambda>y.
       if prioridad x > prioridad y then
         bindE (no_nulo (q_worker x)) (\<lambda>w.
         bindE (deref (trabajadores m) w) (\<lambda>z.
           victima_desde (if \<not> interrumpir z then q else v) qs m))
       else victima_desde v qs m))"

definition buscar_victima :: "master \<Rightarrow> fault + nat" where
  "buscar_victima m =
     (case querys_exec m of [] \<Rightarrow> Inl NullDeref | v # qs \<Rightarrow> victima_desde v qs m)"

definition solicitar_desalojo :: "nat \<Rightarrow> master \<Rightarrow> fault + master" where
  "solicitar_desalojo victima m =
     bindE (deref (querys m) victima) (\<lambda>x.
     bindE (no_nulo (q_worker x)) (\<lambda>w.
     bindE (deref (trabajadores m) w) (\<lambda>y.
       Inr (enviar (w_socket y) (Paquete DESALOJO_QUERY []) m))))"

end
