(* ===== verification/Query_Control.thy ===== *)
theory Query_Control
  imports Master_State
begin

text \<open>
  The Query Control's loop over the master's notifications (\<open>query_control/src/main.c\<close>), on the
  packets that arrive, and what it shows for each one. Running out of packets is waiting for
  the next one. Every notification the master builds is shown as what it says.
\<close>

section \<open>The loop\<close>

text \<open>What \<open>log_storage_error\<close> shows for each error, after the common \<open>Query finalizada\<close>.\<close>

definition log_storage_error :: "int32 \<Rightarrow> string" where
  "log_storage_error c_error =
     (case rta_of c_error of
        Some ERR_FUERA_LIMITE \<Rightarrow> ''Lectura o escritura fuera de limite''
      | Some ERR_WRITE_COMMITED \<Rightarrow> ''Escritura no permitida''
      | Some ERR_ESP_INSUFICIENTE \<Rightarrow> ''Espacio Insuficiente''
      | Some ERR_PREEXISTENCIA \<Rightarrow> ''File / Tag preexistente''
      | Some ERR_INEXISTENCIA \<Rightarrow> ''File / Tag inexistente''
      | _ \<Rightarrow> ''Error durante la ejecucion no definido'')"

datatype aviso =
    Lectura string string string
  | Fin_correcta
  | Fin_worker
  | Fin_storage string
  | Fin_desconocida

definition aviso_final :: "byte list list \<Rightarrow> fault + aviso" where
  "aviso_final package =
     bindE (item_int32 package 1) (\<lambda>razon.
       case razon_of razon of
         Some FINALIZACION_CORRECTA \<Rightarrow> Inr Fin_correcta
       | Some ERR_DESC_WORKER \<Rightarrow> Inr Fin_worker
       | Some ERR_STORAGE \<Rightarrow> bindE (item_int32 package 2) (\<lambda>c. Inr (Fin_storage (log_storage_error c)))
       | None \<Rightarrow> Inr Fin_desconocida)"

definition aviso_lectura :: "byte list list \<Rightarrow> fault + aviso" where
  "aviso_lectura package =
     bindE (item_str package 1) (\<lambda>f. bindE (item_str package 2) (\<lambda>t.
     bindE (item_str package 3) (\<lambda>contenido. Inr (Lectura f t contenido))))"

fun recibir_mensaje :: "(op_code \<times> byte list list) list \<Rightarrow> fault + aviso list" where
  "recibir_mensaje [] = Inl Blocked"
| "recibir_mensaje ((opcode, package) # ps) =
     (if opcode \<noteq> NOTIF_QUERY_CONTROL then Inl ExitFailure
      else
        bindE (item_int32 package 0) (\<lambda>notif.
          case notif_of notif of
            Some NOTIF_FINAL \<Rightarrow> bindE (aviso_final package) (\<lambda>a. Inr [a])
          | Some NOTIF_READ \<Rightarrow>
              bindE (aviso_lectura package) (\<lambda>a. bindE (recibir_mensaje ps) (\<lambda>as. Inr (a # as)))
          | None \<Rightarrow> Inl ExitFailure))"

section \<open>The master's notifications\<close>

text \<open>The packets of the queue of messages that go to one socket.\<close>

fun paquetes_a :: "int \<Rightarrow> (int \<times> envio) list \<Rightarrow> (op_code \<times> byte list list) list" where
  "paquetes_a s [] = []"
| "paquetes_a s ((s', Paquete c items) # es) = (if s' = s then [(c, items)] else []) @ paquetes_a s es"
| "paquetes_a s ((s', Crudo b) # es) = paquetes_a s es"

definition aviso_de_fin :: "razon_fin \<Rightarrow> int32 \<Rightarrow> aviso" where
  "aviso_de_fin razon c =
     (case razon of FINALIZACION_CORRECTA \<Rightarrow> Fin_correcta | ERR_DESC_WORKER \<Rightarrow> Fin_worker
      | ERR_STORAGE \<Rightarrow> Fin_storage (log_storage_error c))"

text \<open>The readings of a run, sent one after the other.\<close>

fun notificar_lecturas :: "nat \<Rightarrow> (string \<times> string \<times> string) list \<Rightarrow> master \<Rightarrow> fault + master" where
  "notificar_lecturas q [] m = Inr m"
| "notificar_lecturas q ((f, t, c) # ls) m =
     bindE (notificar_read q f t c m) (\<lambda>m. notificar_lecturas q ls m)"

lemma paquetes_a_append: "paquetes_a s (xs @ ys) = paquetes_a s xs @ paquetes_a s ys"
  by (induction s xs rule: paquetes_a.induct) simp_all

lemma recibir_final:
  "recibir_mensaje ((NOTIF_QUERY_CONTROL,
      [int_bytes (notif_val NOTIF_FINAL), int_bytes (razon_val razon)]
        @ (if razon = ERR_STORAGE then [int_bytes c] else [])) # ps) = Inr [aviso_de_fin razon c]"
  by (cases razon) (simp_all add: aviso_final_def aviso_de_fin_def numeral_2_eq_2)

lemma recibir_lectura:
  assumes "no_nul f" and "no_nul t" and "no_nul c"
  shows "recibir_mensaje ((NOTIF_QUERY_CONTROL,
      [int_bytes (notif_val NOTIF_READ), cstr f, cstr t, cstr c]) # ps) =
    bindE (recibir_mensaje ps) (\<lambda>as. Inr (Lectura f t c # as))"
  using assms by (simp add: aviso_lectura_def numeral_2_eq_2 numeral_3_eq_3)

lemma notificar_lecturas_envia:
  "notificar_lecturas q ls m = Inr m' \<Longrightarrow> querys m q = Some x \<Longrightarrow>
   querys m' q = Some x \<and>
   enviados m' = enviados m @ map (\<lambda>(f, t, c). (q_socket x, Paquete NOTIF_QUERY_CONTROL
     [int_bytes (notif_val NOTIF_READ), cstr f, cstr t, cstr c])) ls"
proof (induction ls arbitrary: m)
  case (Cons l ls)
  obtain f t c where l: "l = (f, t, c)" by (cases l) auto
  from Cons.prems obtain m1 where m1: "notificar_read q f t c m = Inr m1" "notificar_lecturas q ls m1 = Inr m'"
    by (auto simp: l)
  then have "m1 = enviar (q_socket x) (Paquete NOTIF_QUERY_CONTROL
      [int_bytes (notif_val NOTIF_READ), cstr f, cstr t, cstr c]) m"
    using Cons.prems(2) by (auto simp: notificar_read_def Let_def)
  with Cons.IH[OF m1(2)] Cons.prems(2) show ?case by (simp add: enviar_def l)
qed simp

lemma recibir_lecturas:
  assumes "list_all (\<lambda>(f, t, c). no_nul f \<and> no_nul t \<and> no_nul c) ls"
  shows "recibir_mensaje (map (\<lambda>(f, t, c). (NOTIF_QUERY_CONTROL,
      [int_bytes (notif_val NOTIF_READ), cstr f, cstr t, cstr c])) ls @ ps) =
    bindE (recibir_mensaje ps) (\<lambda>as. Inr (map (\<lambda>(f, t, c). Lectura f t c) ls @ as))"
  using assms
proof (induction ls)
  case Nil
  show ?case by (cases "recibir_mensaje ps") simp_all
next
  case (Cons l ls)
  obtain f t c where l: "l = (f, t, c)" by (cases l) auto
  show ?case
    using Cons by (cases "recibir_mensaje ps") (simp_all add: l recibir_lectura del: recibir_mensaje.simps)
qed

text \<open>
  C33: what the master notifies is what the Query Control shows: the readings of a run in their
  order, and then the end with its reason and, for an error of the storage, the error.
\<close>

theorem notifications_understood:
  assumes "querys m q = Some x" and "enviados m = []"
    and "list_all (\<lambda>(f, t, c). no_nul f \<and> no_nul t \<and> no_nul c) ls"
    and "notificar_lecturas q ls m = Inr m1" and "notificar_finalizacion q razon c m1 = Inr m2"
  shows "recibir_mensaje (paquetes_a (q_socket x) (enviados m2)) =
         Inr (map (\<lambda>(f, t, c). Lectura f t c) ls @ [aviso_de_fin razon c])"
proof -
  note l = notificar_lecturas_envia[OF assms(4,1)]
  have pa: "paquetes_a s (map (\<lambda>(f, t, c). (s, Paquete NOTIF_QUERY_CONTROL (g f t c))) ls) =
      map (\<lambda>(f, t, c). (NOTIF_QUERY_CONTROL, g f t c)) ls" for s g
    by (induction ls) auto
  have "enviados m2 = enviados m1 @ [(q_socket x, Paquete NOTIF_QUERY_CONTROL
      ([int_bytes (notif_val NOTIF_FINAL), int_bytes (razon_val razon)]
        @ (if razon = ERR_STORAGE then [int_bytes c] else [])))]"
    using assms(5) l by (simp add: notificar_finalizacion_def enviar_def) auto
  then have "paquetes_a (q_socket x) (enviados m2) =
      map (\<lambda>(f, t, c). (NOTIF_QUERY_CONTROL, [int_bytes (notif_val NOTIF_READ), cstr f, cstr t, cstr c])) ls
      @ [(NOTIF_QUERY_CONTROL, [int_bytes (notif_val NOTIF_FINAL), int_bytes (razon_val razon)]
          @ (if razon = ERR_STORAGE then [int_bytes c] else []))]"
    using l assms(2) by (simp add: paquetes_a_append pa)
  then show ?thesis
    unfolding recibir_lecturas[OF assms(3)] by (simp only: recibir_lecturas[OF assms(3)] recibir_final bindE.simps)
qed

text \<open>A master with one query, in execution on one worker.\<close>

definition master_demo :: master where
  "master_demo =
     \<lparr>ALGORITMO_PLANIFICACION = ''FIFO'', TIEMPO_AGING = 0, querys_ready = [], querys_exec = [0],
      workers = [1], sem_ready = 0, sem_workers = 0, sem_int = 0, sem_check_prior = 0,
      sem_asign = 0, mutex_ready = False, signal_asign = False, ultimo_id = 0,
      querys = [0 \<mapsto> \<lparr>q_id = 0, q_pc = 0, q_socket = 20, q_file = ''q'', prioridad = 1,
                      q_interrumpir = False, q_worker = Some 1, q_state = EXEC\<rparr>],
      trabajadores = [1 \<mapsto> \<lparr>w_socket = 10, w_id = ''1'', interrumpir = False,
                      error_at_exec = False, sem_interrupt = 0, w_state = EXEC, w_query = Some 0\<rparr>],
      next_obj = 2, enviados = [], red = None, proceso = PH_ready, agings = [],
      esperando_worker = []\<rparr>"

theorem notifications_understood_witness:
  "\<exists>m1 m2. notificar_lecturas 0 [(''F'', ''T'', ''hola''), (''F'', ''T'', '''')] master_demo = Inr m1 \<and>
     notificar_finalizacion 0 ERR_STORAGE (rta_val ERR_INEXISTENCIA) m1 = Inr m2 \<and>
     recibir_mensaje (paquetes_a 20 (enviados m2)) =
       Inr [Lectura ''F'' ''T'' ''hola'', Lectura ''F'' ''T'' '''',
            aviso_de_fin ERR_STORAGE (rta_val ERR_INEXISTENCIA)]"
proof -
  obtain x where x: "querys master_demo 0 = Some x" "q_socket x = 20" "enviados master_demo = []"
    by (simp add: master_demo_def)
  obtain m1 where m1: "notificar_lecturas 0 [(''F'', ''T'', ''hola''), (''F'', ''T'', '''')] master_demo = Inr m1"
    by (simp add: notificar_read_def enviar_def Let_def master_demo_def)
  obtain m2 where m2: "notificar_finalizacion 0 ERR_STORAGE (rta_val ERR_INEXISTENCIA) m1 = Inr m2"
    using notificar_lecturas_envia[OF m1 x(1)] by (simp add: notificar_finalizacion_def)
  have "list_all (\<lambda>(f, t, c). no_nul f \<and> no_nul t \<and> no_nul c)
          [(''F'', ''T'', ''hola''), (''F'', ''T'', '''')]"
    by (simp add: no_nul_def)
  from notifications_understood[OF x(1,3) this m1 m2] x(2) have
    "recibir_mensaje (paquetes_a 20 (enviados m2)) = Inr [Lectura ''F'' ''T'' ''hola'',
       Lectura ''F'' ''T'' '''', aviso_de_fin ERR_STORAGE (rta_val ERR_INEXISTENCIA)]"
    by (simp del: recibir_mensaje.simps)
  with m1 m2 show ?thesis by blast
qed

end
