(* ===== verification/Master_Handlers.thy ===== *)
theory Master_Handlers
  imports Master_State
begin

text \<open>
  The threads of the master: the network thread that takes the handshakes
  (\<open>master_network_handler\<close>), one thread per worker (\<open>worker_handler\<close>) and per query
  (\<open>query_handler\<close>), the aging threads (\<open>actualizador\<close>), the scheduler (\<open>process_handler\<close>)
  and \<open>check_prior\<close>, which two of them call. A step runs a thread from one place where it
  can wait to the next. \<open>split\<close> is \<open>string_split\<close> and a flag says whether a \<open>send\<close> worked.
\<close>

section \<open>Preemption\<close>

text \<open>
  \<open>check_prior\<close>: it takes \<open>sem_check_prior\<close>, then \<open>mutex_ready\<close>; when a victim is marked it
  waits for the worker's handler with the mutex held, then for the scheduler. \<open>None\<close> is its
  return.
\<close>

definition check_prior_evaluar :: "master \<Rightarrow> fault + (check_pc option \<times> master)" where
  "check_prior_evaluar m =
     bindE (buscar_worker_libre m) (\<lambda>libre.
       if libre = None \<and> workers m \<noteq> [] then
         bindE (buscar_victima m) (\<lambda>v.
         bindE (deref (querys m) v) (\<lambda>x.
         bindE (list_get (querys_ready m) 0) (\<lambda>siguiente.
         bindE (deref (querys m) siguiente) (\<lambda>y.
           if prioridad x > prioridad y then
             bindE (no_nulo (q_worker x)) (\<lambda>w.
             bindE (deref (trabajadores m) w) (\<lambda>z.
               if \<not> interrumpir z then
                 bindE (set_worker w (\<lambda>z. z\<lparr>interrumpir := True\<rparr>) (m\<lparr>signal_asign := True\<rparr>)) (\<lambda>m.
                   Inr (Some CP_int, m\<lparr>mutex_ready := True\<rparr>))
               else Inr (None, m\<lparr>sem_check_prior := sem_check_prior m + 1\<rparr>)))
           else Inr (None, m\<lparr>sem_check_prior := sem_check_prior m + 1\<rparr>)))))
       else Inr (None, m\<lparr>sem_check_prior := sem_check_prior m + 1\<rparr>))"

fun check_prior :: "check_pc \<Rightarrow> master \<Rightarrow> fault + (check_pc option \<times> master)" where
  "check_prior CP_inicio m =
     (if sem_check_prior m = 0 then Inl Blocked
      else Inr (Some CP_lock, m\<lparr>sem_check_prior := sem_check_prior m - 1\<rparr>))"
| "check_prior CP_lock m = (if mutex_ready m then Inl Blocked else check_prior_evaluar m)"
| "check_prior CP_int m =
     (if sem_int m = 0 then Inl Blocked
      else Inr (Some CP_asign, m\<lparr>sem_int := sem_int m - 1, mutex_ready := False\<rparr>))"
| "check_prior CP_asign m =
     (if sem_asign m = 0 then Inl Blocked
      else Inr (None, m\<lparr>sem_asign := sem_asign m - 1, signal_asign := False,
                        sem_check_prior := sem_check_prior m + 1\<rparr>))"

section \<open>Aging\<close>

text \<open>
  \<open>actualizador\<close>: \<open>None\<close> ends the thread. Between the two tests of the priority it sleeps; a
  query that is not in the ready queue any more ends it, and one of negative priority is
  taken out of the queue and not put back.
\<close>

fun actualizador :: "insercion \<Rightarrow> nat \<Rightarrow> aging_pc \<Rightarrow> master \<Rightarrow> fault + (aging_pc option \<times> master)" where
  "actualizador ins q AG_inicio m =
     bindE (deref (querys m) q) (\<lambda>x. Inr (if prioridad x = 0 then None else Some AG_dormido, m))"
| "actualizador ins q AG_dormido m =
     (if mutex_ready m then Inl Blocked
      else if q \<notin> set (querys_ready m) then Inr (None, m)
      else
        let m = m\<lparr>querys_ready := remove1 q (querys_ready m)\<rparr>
        in bindE (deref (querys m) q) (\<lambda>x.
             if prioridad x > 0 then
               bindE (set_query q (\<lambda>x. x\<lparr>prioridad := prioridad x - 1\<rparr>) m) (\<lambda>m.
               bindE (agregar_ordenada ins q m) (\<lambda>m. Inr (Some (AG_check CP_inicio), m)))
             else Inr (Some AG_inicio, m)))"
| "actualizador ins q (AG_check c) m =
     bindE (check_prior c m) (\<lambda>(c, m).
       Inr (case c of None \<Rightarrow> Some AG_inicio | Some c \<Rightarrow> Some (AG_check c), m))"

definition crear_aging :: "nat \<Rightarrow> master \<Rightarrow> master" where
  "crear_aging q m = (if TIEMPO_AGING m \<noteq> 0 then m\<lparr>agings := agings m @ [(q, AG_inicio)]\<rparr> else m)"

section \<open>Handshakes\<close>

definition handshake_query :: "insercion \<Rightarrow> int \<Rightarrow> byte list list \<Rightarrow> master \<Rightarrow> fault + master" where
  "handshake_query ins socket items m =
     (case items of
        archivo # prio # _ \<Rightarrow>
          (case (of_cstr archivo, of_cstr prio) of
             (Some file, Some p) \<Rightarrow>
               let q = next_obj m;
                   (i, m) = asign_query_id m;
                   m = m\<lparr>next_obj := Suc q,
                         querys := (querys m)(q \<mapsto> \<lparr>q_id = i, q_pc = 0, q_socket = socket, q_file = file,
                           prioridad = atoi p, q_interrumpir = False, q_worker = None, q_state = READY\<rparr>)\<rparr>;
                   m = enviar socket (Crudo (cstr ''ACK'')) m
               in if string_equals_ignore_case (ALGORITMO_PLANIFICACION m) ''FIFO'' then
                    if mutex_ready m then Inl Blocked
                    else Inr (m\<lparr>querys_ready := querys_ready m @ [q], sem_ready := sem_ready m + 1\<rparr>)
                  else if string_equals_ignore_case (ALGORITMO_PLANIFICACION m) ''PRIORIDADES'' then
                    if mutex_ready m then Inl Blocked
                    else bindE (agregar_ordenada ins q m) (\<lambda>m. Inr (m\<lparr>red := Some (q, CP_inicio)\<rparr>))
                  else Inl ExitFailure
           | _ \<Rightarrow> Inl OutOfBounds)
      | _ \<Rightarrow> Inl NullDeref)"

text \<open>The rest of the handshake once \<open>check_prior\<close> returns.\<close>

definition paso_red :: "master \<Rightarrow> fault + master" where
  "paso_red m =
     (case red m of
        None \<Rightarrow> Inl Blocked
      | Some (q, c) \<Rightarrow>
          bindE (check_prior c m) (\<lambda>(c, m).
            Inr (case c of
                   Some c \<Rightarrow> m\<lparr>red := Some (q, c)\<rparr>
                 | None \<Rightarrow> (let m = crear_aging q (m\<lparr>red := None\<rparr>)
                            in m\<lparr>sem_ready := sem_ready m + 1\<rparr>))))"

definition handshake_worker :: "int \<Rightarrow> byte list list \<Rightarrow> master \<Rightarrow> fault + master" where
  "handshake_worker socket items m =
     (case items of
        nombre # _ \<Rightarrow>
          (case of_cstr nombre of
             Some i \<Rightarrow>
               let w = next_obj m;
                   m = m\<lparr>next_obj := Suc w,
                         trabajadores := (trabajadores m)(w \<mapsto> \<lparr>w_socket = socket, w_id = i,
                           interrumpir = False, error_at_exec = False, sem_interrupt = 0,
                           w_state = READY, w_query = None\<rparr>),
                         workers := workers m @ [w]\<rparr>;
                   m = enviar socket (Crudo (cstr ''ACK'')) m
               in Inr (m\<lparr>sem_workers := sem_workers m + 1\<rparr>)
           | None \<Rightarrow> Inl OutOfBounds)
      | _ \<Rightarrow> Inl NullDeref)"

section \<open>The handler of a worker\<close>

definition item_int :: "byte list list \<Rightarrow> nat \<Rightarrow> fault + int32" where
  "item_int items i = (if i < length items then Inr (bytes_int (items ! i)) else Inl NullDeref)"

text \<open>\<open>worker->query\<close>, followed.\<close>

definition query_de :: "nat \<Rightarrow> master \<Rightarrow> fault + (nat \<times> query_t)" where
  "query_de w m =
     bindE (deref (trabajadores m) w) (\<lambda>x.
     bindE (no_nulo (w_query x)) (\<lambda>q. bindE (deref (querys m) q) (\<lambda>y. Inr (q, y))))"

definition consulta_interrupcion ::
    "insercion \<Rightarrow> nat \<Rightarrow> byte list list \<Rightarrow> bool \<Rightarrow> master \<Rightarrow> fault + master" where
  "consulta_interrupcion ins w items anda m =
     bindE (deref (trabajadores m) w) (\<lambda>x.
     bindE (if interrumpir x then Inr True
            else bindE (query_de w m) (\<lambda>(q, y). Inr (q_interrumpir y \<or> error_at_exec x))) (\<lambda>result.
       if \<not> anda then destruir_worker w m
       else
         let m = enviar (w_socket x) (Crudo [if result then 1 else 0]) m
         in bindE (if interrumpir x then
                     bindE (query_de w m) (\<lambda>(q, y).
                     bindE (item_int items 0) (\<lambda>new_pc.
                     bindE (set_query q (\<lambda>y. y\<lparr>q_pc := sint new_pc, q_state := EXEC\<rparr>)
                              (m\<lparr>querys_exec := remove1 q (querys_exec m)\<rparr>)) (\<lambda>m.
                     bindE (agregar_ordenada ins q m) (\<lambda>m.
                       let m = crear_aging q m
                       in Inr (m\<lparr>sem_ready := sem_ready m + 1, sem_int := sem_int m + 1\<rparr>)))))
                   else Inr m) (\<lambda>m.
            bindE (query_de w m) (\<lambda>(q, y).
            bindE (if q_interrumpir y \<and> \<not> error_at_exec x
                   then set_worker w (\<lambda>x. x\<lparr>sem_interrupt := sem_interrupt x + 1\<rparr>) m
                   else Inr m) (\<lambda>m.
            bindE (if error_at_exec x then set_worker w (\<lambda>x. x\<lparr>error_at_exec := False\<rparr>) m
                   else Inr m) (\<lambda>m.
              if result
              then bindE (liberar_worker w m) (\<lambda>m. Inr (m\<lparr>sem_workers := sem_workers m + 1\<rparr>))
              else Inr m))))))"

definition lectura_master ::
    "(string \<Rightarrow> string \<Rightarrow> string list) \<Rightarrow> nat \<Rightarrow> byte list list \<Rightarrow> bool \<Rightarrow> master \<Rightarrow> fault + master" where
  "lectura_master split w items anda m =
     (case items of
        aux # content # _ \<Rightarrow>
          (case (of_cstr aux, of_cstr content) of
             (Some ft, Some contenido) \<Rightarrow>
               bindE (deref (trabajadores m) w) (\<lambda>x.
               bindE (no_nulo (w_query x)) (\<lambda>q.
                 case split ft '':'' of
                   f # t # _ \<Rightarrow>
                     bindE (notificar_read q f t contenido m) (\<lambda>m.
                       if anda then Inr (enviar (w_socket x) (Crudo (take 1 (int_bytes (resultado_val OK)))) m)
                       else destruir_worker w m)
                 | _ \<Rightarrow> Inl NullDeref))
           | _ \<Rightarrow> Inl OutOfBounds)
      | _ \<Rightarrow> Inl NullDeref)"

definition instruccion_master :: "nat \<Rightarrow> bool \<Rightarrow> master \<Rightarrow> fault + master" where
  "instruccion_master w anda m =
     bindE (deref (trabajadores m) w) (\<lambda>x.
     bindE (no_nulo (w_query x)) (\<lambda>q.
     bindE (finalizar_query q FINALIZACION_CORRECTA 0 m) (\<lambda>m.
       if \<not> anda then destruir_worker w m
       else
         bindE (liberar_worker w (enviar (w_socket x) (Crudo (int_bytes (resultado_val OK))) m)) (\<lambda>m.
           Inr (m\<lparr>sem_workers := sem_workers m + 1\<rparr>)))))"

definition desconexion_worker :: "nat \<Rightarrow> master \<Rightarrow> fault + master" where
  "desconexion_worker w m =
     bindE (deref (trabajadores m) w) (\<lambda>x.
     bindE (if w_state x = EXEC
            then bindE (no_nulo (w_query x)) (\<lambda>q. finalizar_query q ERR_DESC_WORKER 0 m)
            else Inr m) (\<lambda>m.
       destruir_worker w m))"

text \<open>The error code is read as a \<open>resultado_t\<close> and passed on as a \<open>rta_storage\<close>: the bits are kept.\<close>

definition error_en_ejecucion :: "nat \<Rightarrow> byte list list \<Rightarrow> master \<Rightarrow> fault + master" where
  "error_en_ejecucion w items m =
     bindE (set_worker w (\<lambda>x. x\<lparr>error_at_exec := True\<rparr>) m) (\<lambda>m.
     bindE (item_int items 0) (\<lambda>c.
     bindE (query_de w m) (\<lambda>(q, y).
       finalizar_query q ERR_STORAGE c m)))"

definition worker_handler ::
    "insercion \<Rightarrow> (string \<Rightarrow> string \<Rightarrow> string list) \<Rightarrow> nat \<Rightarrow> op_code \<Rightarrow> byte list list \<Rightarrow> bool
     \<Rightarrow> master \<Rightarrow> fault + master" where
  "worker_handler ins split w opcode items anda m =
     (case opcode of
        CONSULTA_INTERRUPCION \<Rightarrow> consulta_interrupcion ins w items anda m
      | LECTURA_MASTER \<Rightarrow> lectura_master split w items anda m
      | INSTRUCCION_MASTER \<Rightarrow> instruccion_master w anda m
      | DESCONEXION \<Rightarrow> desconexion_worker w m
      | ERROR_AT_EXEC \<Rightarrow> error_en_ejecucion w items m
      | _ \<Rightarrow> Inr m)"

section \<open>The handler of a query\<close>

text \<open>
  When the Query Control leaves. In execution the handler waits on a copy of the worker's
  semaphore: a count of zero in the copy is never raised, so the thread stays in
  \<open>esperando_worker\<close> for good.
\<close>

definition query_handler :: "nat \<Rightarrow> op_code \<Rightarrow> master \<Rightarrow> fault + master" where
  "query_handler q opcode m =
     bindE (deref (querys m) q) (\<lambda>x.
       if opcode \<noteq> DESCONEXION then destruir_query q m
       else case q_state x of
         EXEC \<Rightarrow>
           bindE (no_nulo (q_worker x)) (\<lambda>w.
           bindE (deref (trabajadores m) w) (\<lambda>y.
           bindE (set_query q (\<lambda>x. x\<lparr>q_interrumpir := True\<rparr>) m) (\<lambda>m.
             if sem_interrupt y = 0 then Inr (m\<lparr>esperando_worker := esperando_worker m @ [q]\<rparr>)
             else destruir_query q m)))
       | _ \<Rightarrow> destruir_query q m)"

section \<open>The scheduler\<close>

fun process_handler :: "proceso_pc \<Rightarrow> master \<Rightarrow> fault + (proceso_pc \<times> master)" where
  "process_handler PH_ready m =
     (if sem_ready m = 0 then Inl Blocked else Inr (PH_workers, m\<lparr>sem_ready := sem_ready m - 1\<rparr>))"
| "process_handler PH_workers m =
     (if sem_workers m = 0 then Inl Blocked else Inr (PH_obtener, m\<lparr>sem_workers := sem_workers m - 1\<rparr>))"
| "process_handler PH_obtener m = bindE (obtener_query m) (\<lambda>(q, m). Inr (PH_asigna q, m))"
| "process_handler (PH_asigna query) m =
     bindE (buscar_worker_libre m) (\<lambda>worker.
     bindE (hacer_par_query_worker query worker m) (\<lambda>m.
     bindE (no_nulo query) (\<lambda>q.
     bindE (no_nulo worker) (\<lambda>w.
     bindE (deref (trabajadores m) w) (\<lambda>x.
     bindE (solicitar_ejecucion_query q (w_socket x) m) (\<lambda>m.
       Inr (PH_ready, if signal_asign m then m\<lparr>sem_asign := sem_asign m + 1\<rparr> else m)))))))"

section \<open>The system\<close>

datatype evento =
    ConectaQuery int "byte list list"
  | ConectaWorker int "byte list list"
  | PasoRed
  | PasoProceso
  | PasoAging nat
  | DeWorker nat op_code "byte list list" bool
  | DeQuery nat op_code

definition paso_aging :: "insercion \<Rightarrow> nat \<Rightarrow> master \<Rightarrow> fault + master" where
  "paso_aging ins k m =
     (if k < length (agings m) then
        (case agings m ! k of
           (q, a) \<Rightarrow>
             bindE (actualizador ins q a m) (\<lambda>(a, m).
               Inr (m\<lparr>agings := (case a of
                       None \<Rightarrow> take k (agings m) @ drop (Suc k) (agings m)
                     | Some a \<Rightarrow> (agings m)[k := (q, a)])\<rparr>)))
      else Inl Blocked)"

text \<open>
  One step. The network thread takes a handshake only when it is not in the middle of one, and
  starts a query's handler at its end; the handler of a worker or a query ends when it frees it.
\<close>

fun paso ::
    "insercion \<Rightarrow> (string \<Rightarrow> string \<Rightarrow> string list) \<Rightarrow> evento \<Rightarrow> master \<Rightarrow> fault + master" where
  "paso ins split (ConectaQuery socket items) m =
     (if red m \<noteq> None then Inl Blocked else handshake_query ins socket items m)"
| "paso ins split (ConectaWorker socket items) m =
     (if red m \<noteq> None then Inl Blocked else handshake_worker socket items m)"
| "paso ins split PasoRed m = paso_red m"
| "paso ins split PasoProceso m =
     bindE (process_handler (proceso m) m) (\<lambda>(c, m). Inr (m\<lparr>proceso := c\<rparr>))"
| "paso ins split (PasoAging k) m = paso_aging ins k m"
| "paso ins split (DeWorker w opcode items anda) m = 
     (if trabajadores m w = None then Inl Blocked else worker_handler ins split w opcode items anda m)"
| "paso ins split (DeQuery q opcode) m =
     (if querys m q = None \<or> q \<in> set (esperando_worker m) \<or> map_option fst (red m) = Some q
      then Inl Blocked else query_handler q opcode m)"

definition inicial :: "string \<Rightarrow> int \<Rightarrow> master" where
  "inicial algoritmo aging =
     \<lparr>ALGORITMO_PLANIFICACION = algoritmo, TIEMPO_AGING = aging, querys_ready = [], querys_exec = [],
      workers = [], sem_ready = 0, sem_workers = 0, sem_int = 0, sem_check_prior = 1, sem_asign = 0,
      mutex_ready = False, signal_asign = False, ultimo_id = 0, querys = Map.empty,
      trabajadores = Map.empty, next_obj = 0, enviados = [], red = None, proceso = PH_ready,
      agings = [], esperando_worker = []\<rparr>"

fun correr :: "insercion \<Rightarrow> (string \<Rightarrow> string \<Rightarrow> string list) \<Rightarrow> evento list \<Rightarrow> master \<Rightarrow> fault + master" where
  "correr ins split [] m = Inr m"
| "correr ins split (e # es) m = bindE (paso ins split e m) (correr ins split es)"

end
