(* ===== verification/Storage_State.thy ===== *)
theory Storage_State
  imports Paquetes
begin

text \<open>
  The state of the storage module: the globals of \<open>storage_globals.h\<close>, the metadata record
  of \<open>storage_files.h\<close>, and the part of the file system under \<open>PUNTO_MONTAJE\<close> the module
  keeps. The tree \<open>files/F/T\<close> is a map from (F, T) to the directory's content; the entries
  \<open>files/F/T/logical_blocks/%05d.dat\<close> are a directory listing from (F, T, index) to the
  number of the physical block whose inode they name, and \<open>physical_blocks/block%04d.dat\<close>
  is a map from the block number to the file's bytes. File and tag names are single path
  components. The \<open>t_list\<close>, \<open>t_dictionary\<close>, \<open>t_bitarray\<close> and \<open>t_config\<close> values of the
  so-commons library are the lists, association lists, bit lists and maps they hold; a
  \<open>list_get\<close> out of range is a null pointer. Logging, delays and the text layout of the
  configuration files are left out.
\<close>

record t_metadata_file =
  tamanio :: int
  blocks :: "string list"
  estado :: string

record ft_dir =
  metadata_config :: "t_metadata_file option"
  logical_dir :: bool

record t_lock =
  sem_file_tag :: nat
  count_waiting :: int
  lock_delete :: bool

type_synonym ft_key = "string \<times> string"
type_synonym log_key = "string \<times> string \<times> nat"

record storage =
  BLOCK_SIZE :: int
  FS_SIZE :: int
  CANT_WORKERS :: int
  bitmap :: "bool list"
  config_hash_index :: "string \<rightharpoonup> string"
  locks_index :: "(string \<times> (string \<times> t_lock) list) list"
  blk_mutex_list :: "nat list"
  file_dirs :: "string set"
  ft_dirs :: "ft_key \<rightharpoonup> ft_dir"
  logical_blocks :: "(log_key \<times> int) list"
  physical_blocks :: "int \<rightharpoonup> byte list"

section \<open>The system calls on the tree\<close>

text \<open>
  \<open>link(2)\<close> from a physical block to a logical entry: it fails (-1) when the block file or
  the target directory does not exist or the entry is already there. \<open>unlink(2)\<close> removes an
  entry. \<open>st_nlink\<close> of a physical block counts its own name and the entries that name it.
\<close>

definition link_block :: "int \<Rightarrow> log_key \<Rightarrow> storage \<Rightarrow> int \<times> storage" where
  "link_block p k s =
     (case k of (f, t, i) \<Rightarrow>
        (case ft_dirs s (f, t) of
           None \<Rightarrow> (- 1, s)
         | Some d \<Rightarrow>
             if physical_blocks s p = None \<or> \<not> logical_dir d
                \<or> map_of (logical_blocks s) k \<noteq> None
             then (- 1, s)
             else (0, s\<lparr>logical_blocks := (k, p) # logical_blocks s\<rparr>)))"

definition unlink_block :: "log_key \<Rightarrow> storage \<Rightarrow> storage" where
  "unlink_block k s = s\<lparr>logical_blocks := AList.delete k (logical_blocks s)\<rparr>"

definition stat_nlink :: "int \<Rightarrow> storage \<Rightarrow> fault + nat" where
  "stat_nlink p s =
     (if physical_blocks s p = None then Inl Indeterminate
      else Inr (1 + occurs (logical_blocks s) p))"

section \<open>The block semaphores\<close>

text \<open>
  \<open>list_get(blk_mutex_list, p)\<close> and \<open>sem_wait\<close> on it; a semaphore at 0 blocks the thread,
  which in the sequential semantics never returns.
\<close>

definition blk_wait :: "int \<Rightarrow> storage \<Rightarrow> fault + storage" where
  "blk_wait p s =
     (if p < 0 \<or> int (length (blk_mutex_list s)) \<le> p then Inl NullDeref
      else if blk_mutex_list s ! nat p = 0 then Inl Blocked
      else Inr (s\<lparr>blk_mutex_list := (blk_mutex_list s)[nat p := blk_mutex_list s ! nat p - 1]\<rparr>))"

definition blk_post :: "int \<Rightarrow> storage \<Rightarrow> storage" where
  "blk_post p s =
     s\<lparr>blk_mutex_list := (blk_mutex_list s)[nat p := Suc (blk_mutex_list s ! nat p)]\<rparr>"

lemma blk_wait_bit:
  assumes "0 \<le> p" and "p < int (length (blk_mutex_list s))" and "blk_mutex_list s ! nat p = 1"
  shows "blk_wait p s = Inr (s\<lparr>blk_mutex_list := (blk_mutex_list s)[nat p := 0]\<rparr>)"
  using assms by (simp add: blk_wait_def)

text \<open>Waiting and posting around a step that leaves the semaphores alone restores them.\<close>

lemma blk_post_wait:
  assumes "blk_wait p s = Inr s1" and "blk_mutex_list s2 = blk_mutex_list s1"
  shows "blk_mutex_list (blk_post p s2) = blk_mutex_list s"
  using assms
  by (auto simp: blk_wait_def blk_post_def nth_list_update split: if_splits)

section \<open>Metadata\<close>

text \<open>
  \<open>storage_metadata_read\<close>: the record read from \<open>metadata.config\<close>, \<open>None\<close> when the file
  does not exist. \<open>storage_metadata_write\<close> opens it with mode \<open>w\<close>, which fails silently
  when the directory does not exist.
\<close>

definition storage_metadata_read :: "string \<Rightarrow> string \<Rightarrow> storage \<Rightarrow> t_metadata_file option" where
  "storage_metadata_read f t s =
     (case ft_dirs s (f, t) of None \<Rightarrow> None | Some d \<Rightarrow> metadata_config d)"

definition storage_metadata_write ::
    "string \<Rightarrow> string \<Rightarrow> t_metadata_file \<Rightarrow> storage \<Rightarrow> storage" where
  "storage_metadata_write f t m s =
     (case ft_dirs s (f, t) of
        None \<Rightarrow> s
      | Some d \<Rightarrow> s\<lparr>ft_dirs := (ft_dirs s)((f, t) \<mapsto> d\<lparr>metadata_config := Some m\<rparr>)\<rparr>)"

text \<open>\<open>atoi(list_get(meta->blocks, i))\<close>: a null pointer when there is no such block.\<close>

definition block_at :: "t_metadata_file \<Rightarrow> int \<Rightarrow> fault + int" where
  "block_at m i =
     (if i < 0 \<or> int (length (blocks m)) \<le> i then Inl NullDeref
      else Inr (atoi (blocks m ! nat i)))"

text \<open>\<open>physical_blocks/block%04d.dat\<close> without directory and extension, as the index keeps it.\<close>

definition block_name :: "int \<Rightarrow> string" where
  "block_name p = ''block'' @ fmt0 4 p"

lemma atoi_block_name: "0 \<le> p \<Longrightarrow> atoi (drop 5 (block_name p)) = p"
  by (simp add: block_name_def)

end
