(* ===== verification/Storage_Bitmap.thy ===== *)
theory Storage_Bitmap
  imports Storage_State
begin

text \<open>
  \<open>storage/src/storage_bitmap.c\<close>: the free-block bitmap. \<open>bitarray_get_max_bit\<close> is the
  number of bits of the mapped file, eight per byte. The interface the file operations use
  (\<open>block_allocator\<close>) is stated as a locale and interpreted on the bitmap.
\<close>

definition bitmap_size :: "int \<Rightarrow> int" where
  "bitmap_size blocks_count = c_div (blocks_count + 7) 8"

lemma bitmap_size_bits:
  assumes "0 \<le> n"
  shows "8 * bitmap_size n = (if n mod 8 = 0 then n else n + 8 - n mod 8)"
proof -
  define q where "q = n div 8"
  define r where "r = n mod 8"
  have n: "n = 8 * q + r" by (simp add: q_def r_def)
  have r: "0 \<le> r" "r < 8" by (simp_all add: r_def)
  have b: "bitmap_size n = (n + 7) div 8"
    unfolding bitmap_size_def using assms by (simp add: c_div_pos)
  show ?thesis
  proof (cases "r = 0")
    case True
    then have "n + 7 = 8 * q + 7" using n by simp
    then have "bitmap_size n = q" unfolding b by (rule int_div_pos_eq) simp_all
    with True n show ?thesis unfolding r_def[symmetric] by simp
  next
    case False
    then have "n + 7 = 8 * (q + 1) + (r - 1)" using n by simp
    then have "bitmap_size n = q + 1"
      unfolding b by (rule int_div_pos_eq) (use r False in simp_all)
    with False n show ?thesis unfolding r_def[symmetric] by simp
  qed
qed

text \<open>
  \<open>bitmap_init\<close> maps the file into memory: it fails (-1) when there is no file or no byte to
  map, and otherwise the bits are those of the file's first bytes. The mapping is shared, so the
  bits in memory are the file's from then on, and are still there after a restart.
\<close>

definition bitmap_init :: "bool list option \<Rightarrow> int \<Rightarrow> storage \<Rightarrow> int \<times> storage" where
  "bitmap_init archivo blocks_count s =
     (case archivo of
        None \<Rightarrow> (- 1, s)
      | Some bits \<Rightarrow>
          if bitmap_size blocks_count \<le> 0 then (- 1, s)
          else (0, s\<lparr>bitmap := take (nat (8 * bitmap_size blocks_count)) bits\<rparr>))"

definition find_free_block :: "storage \<Rightarrow> int \<times> storage" where
  "find_free_block s =
     (case find (\<lambda>i. \<not> bitmap s ! i) [1..<length (bitmap s)] of
        None \<Rightarrow> (- 1, s)
      | Some i \<Rightarrow> (int i, s\<lparr>bitmap := (bitmap s)[i := True]\<rparr>))"

definition mark_block_used :: "int \<Rightarrow> storage \<Rightarrow> fault + storage" where
  "mark_block_used p s =
     (if p < 0 \<or> int (length (bitmap s)) \<le> p then Inl OutOfBounds
      else Inr (s\<lparr>bitmap := (bitmap s)[nat p := True]\<rparr>))"

definition mark_block_free :: "int \<Rightarrow> storage \<Rightarrow> fault + storage" where
  "mark_block_free p s =
     (if p < 0 \<or> int (length (bitmap s)) \<le> p then Inl OutOfBounds
      else Inr (s\<lparr>bitmap := (bitmap s)[nat p := False]\<rparr>))"

text \<open>A block's bit; a number the bitmap does not cover counts as used: it cannot be allocated.\<close>

definition block_used :: "storage \<Rightarrow> int \<Rightarrow> bool" where
  "block_used s p \<longleftrightarrow> \<not> (0 \<le> p \<and> p < int (length (bitmap s)) \<and> \<not> bitmap s ! nat p)"

lemma find_upt_Some:
  "find P [a..<b] = Some i \<longleftrightarrow> a \<le> i \<and> i < b \<and> P i \<and> (\<forall>j. a \<le> j \<and> j < i \<longrightarrow> \<not> P j)"
  (is "?l \<longleftrightarrow> ?r")
proof
  assume ?l
  then obtain k where k: "k < b - a" "P (a + k)" "i = a + k" "\<forall>j<k. \<not> P (a + j)"
    by (auto simp: find_Some_iff)
  have "\<not> P j" if "a \<le> j" "j < i" for j
    using k(3,4) that by (metis add_diff_inverse_nat less_diff_conv2 not_less add.commute)
  with k show ?r by auto
next
  assume r: ?r
  then show ?l unfolding find_Some_iff
    by (intro exI[of _ "i - a"]) auto
qed

lemma find_upt_None: "find P [a..<b] = None \<longleftrightarrow> (\<forall>i. a \<le> i \<and> i < b \<longrightarrow> \<not> P i)"
  by (auto simp: find_None_iff)

lemma find_free_block_None:
  "find_free_block s = (- 1, s') \<longleftrightarrow>
   s' = s \<and> (\<forall>i. 1 \<le> i \<and> i < length (bitmap s) \<longrightarrow> bitmap s ! i)"
proof (cases "find (\<lambda>i. \<not> bitmap s ! i) [1..<length (bitmap s)]")
  case None
  moreover from None have "find_free_block s = (- 1, s)"
    by (simp only: find_free_block_def option.case)
  ultimately show ?thesis unfolding find_upt_None by auto
next
  case (Some i)
  moreover from Some have "find_free_block s = (int i, s\<lparr>bitmap := (bitmap s)[i := True]\<rparr>)"
    by (simp only: find_free_block_def option.case)
  ultimately show ?thesis unfolding find_upt_Some by auto
qed

lemma find_free_block_Some:
  assumes "p \<noteq> - 1"
  shows "find_free_block s = (p, s') \<longleftrightarrow>
   1 \<le> p \<and> p < int (length (bitmap s)) \<and> \<not> bitmap s ! nat p \<and>
   (\<forall>j. 1 \<le> j \<and> j < nat p \<longrightarrow> bitmap s ! j) \<and>
   s' = s\<lparr>bitmap := (bitmap s)[nat p := True]\<rparr>"
proof (cases "find (\<lambda>i. \<not> bitmap s ! i) [1..<length (bitmap s)]")
  case None
  moreover from None have "find_free_block s = (- 1, s)"
    by (simp only: find_free_block_def option.case)
  ultimately show ?thesis using assms unfolding find_upt_None
    by (auto dest: spec[of _ "nat p"])
next
  case (Some i)
  moreover from Some have r: "find_free_block s = (int i, s\<lparr>bitmap := (bitmap s)[i := True]\<rparr>)"
    by (simp only: find_free_block_def option.case)
  ultimately have i: "1 \<le> i" "i < length (bitmap s)" "\<not> bitmap s ! i"
    "\<forall>j. 1 \<le> j \<and> j < i \<longrightarrow> bitmap s ! j"
    unfolding find_upt_Some by auto
  have "nat p = i" if "1 \<le> p" "\<not> bitmap s ! nat p" "p < int (length (bitmap s))"
    "\<forall>j. 1 \<le> j \<and> j < nat p \<longrightarrow> bitmap s ! j"
    using i that by (cases i "nat p" rule: linorder_cases) auto
  with r i show ?thesis by auto
qed

section \<open>The allocator interface\<close>

text \<open>A run of allocations, stopping at the first failure.\<close>

fun alloc_many :: "('s \<Rightarrow> int \<times> 's) \<Rightarrow> nat \<Rightarrow> 's \<Rightarrow> int list \<times> 's" where
  "alloc_many alloc 0 s = ([], s)"
| "alloc_many alloc (Suc n) s =
     (let (p, s1) = alloc s
      in if p = - 1 then ([], s1) else let (ps, s2) = alloc_many alloc n s1 in (p # ps, s2))"

text \<open>
  What the file operations rely on: an allocation gives a positive block that was free and
  marks exactly that one, it fails only when no block is free, and freeing clears exactly
  the block freed.
\<close>

locale block_allocator =
  fixes alloc :: "'s \<Rightarrow> int \<times> 's"
    and free_blk :: "int \<Rightarrow> 's \<Rightarrow> fault + 's"
    and used :: "'s \<Rightarrow> int \<Rightarrow> bool"
  assumes alloc_fresh:
      "alloc s = (p, s') \<Longrightarrow> p \<noteq> - 1 \<Longrightarrow> 0 < p \<and> \<not> used s p \<and> used s' = (used s)(p := True)"
    and alloc_full: "alloc s = (- 1, s') \<Longrightarrow> s' = s \<and> (\<forall>p > 0. used s p)"
    and free_spec: "free_blk p s = Inr s' \<Longrightarrow> used s' = (used s)(p := False)"
begin

lemma alloc_mono: "alloc s = (p, s') \<Longrightarrow> used s q \<Longrightarrow> used s' q"
  using alloc_fresh alloc_full by (cases "p = - 1") fastforce+

lemma alloc_many_spec:
  "alloc_many alloc n s = (ps, s') \<Longrightarrow>
   distinct ps \<and> (\<forall>p \<in> set ps. 0 < p \<and> \<not> used s p) \<and>
   (\<forall>q. used s' q \<longleftrightarrow> used s q \<or> q \<in> set ps)"
proof (induction n arbitrary: s ps s')
  case 0
  then show ?case by simp
next
  case (Suc n)
  obtain p s1 where a: "alloc s = (p, s1)" by force
  show ?case
  proof (cases "p = - 1")
    case True
    then show ?thesis using Suc.prems a alloc_full by auto
  next
    case False
    obtain qs s2 where m: "alloc_many alloc n s1 = (qs, s2)" by force
    from Suc.prems a m False have "ps = p # qs" "s' = s2" by auto
    with Suc.IH[OF m] alloc_fresh[OF a False] show ?thesis by (auto split: if_splits)
  qed
qed

end

interpretation bm: block_allocator find_free_block mark_block_free block_used
proof
  fix s s' p
  assume a: "find_free_block s = (p, s')" "p \<noteq> - 1"
  then have f: "1 \<le> p" "p < int (length (bitmap s))" "\<not> bitmap s ! nat p"
    "s' = s\<lparr>bitmap := (bitmap s)[nat p := True]\<rparr>"
    by (simp_all add: find_free_block_Some)
  show "0 < p \<and> \<not> block_used s p \<and> block_used s' = (block_used s)(p := True)"
    using f by (auto simp: block_used_def fun_eq_iff nth_list_update)
next
  fix s s' assume "find_free_block s = (- 1, s')"
  then show "s' = s \<and> (\<forall>p > 0. block_used s p)"
    unfolding find_free_block_None block_used_def
    by (metis One_nat_def Suc_leI nat_less_iff order_less_imp_le zero_less_nat_eq)
next
  fix p s s' assume "mark_block_free p s = Inr s'"
  then show "block_used s' = (block_used s)(p := False)"
    by (auto simp: mark_block_free_def block_used_def fun_eq_iff nth_list_update split: if_splits)
qed

section \<open>Properties of the bitmap\<close>

text \<open>
  \<open>find_free_block\<close> returns the least block above 0 whose bit is clear and sets that
  bit and no other; it returns -1, changing nothing, exactly when there is none.
\<close>

lemma find_free_block_least:
  "(case find_free_block s of (p, s') \<Rightarrow>
      if \<exists>i \<ge> 1. i < length (bitmap s) \<and> \<not> bitmap s ! i
      then p = int (LEAST i. 1 \<le> i \<and> i < length (bitmap s) \<and> \<not> bitmap s ! i) \<and>
           s' = s\<lparr>bitmap := (bitmap s)[nat p := True]\<rparr>
      else p = - 1 \<and> s' = s)"
proof -
  obtain p s' where r: "find_free_block s = (p, s')" by force
  show ?thesis
  proof (cases "p = - 1")
    case True
    with r have "s' = s" "\<forall>i. 1 \<le> i \<and> i < length (bitmap s) \<longrightarrow> bitmap s ! i"
      by (simp_all add: find_free_block_None)
    with r True show ?thesis by auto
  next
    case False
    with r have f: "1 \<le> p" "p < int (length (bitmap s))" "\<not> bitmap s ! nat p"
      "\<forall>j. 1 \<le> j \<and> j < nat p \<longrightarrow> bitmap s ! j" "s' = s\<lparr>bitmap := (bitmap s)[nat p := True]\<rparr>"
      by (simp_all add: find_free_block_Some)
    have "(LEAST i. 1 \<le> i \<and> i < length (bitmap s) \<and> \<not> bitmap s ! i) = nat p"
    proof (rule Least_equality)
      show "1 \<le> nat p \<and> nat p < length (bitmap s) \<and> \<not> bitmap s ! nat p" using f by auto
    next
      fix i assume "1 \<le> i \<and> i < length (bitmap s) \<and> \<not> bitmap s ! i"
      with f show "nat p \<le> i" by (meson not_less)
    qed
    moreover have "\<exists>i \<ge> 1. i < length (bitmap s) \<and> \<not> bitmap s ! i"
      by (rule exI[of _ "nat p"]) (use f in auto)
    ultimately show ?thesis using r f by simp
  qed
qed

text \<open>
  Blocks handed out by successive \<open>find_free_block\<close> calls, with no freeing in between,
  are pairwise distinct, were free before, and are the only bits that changed.
\<close>

lemma successive_allocations_distinct:
  "(case alloc_many find_free_block n s of (ps, s') \<Rightarrow>
      distinct ps \<and> list_all (\<lambda>p. 0 < p \<and> \<not> block_used s p) ps \<and>
      block_used s' = (\<lambda>q. block_used s q \<or> List.member ps q))"
proof -
  obtain ps s' where "alloc_many find_free_block n s = (ps, s')" by force
  with bm.alloc_many_spec[OF this] show ?thesis
    by (auto simp: list_all_iff fun_eq_iff)
qed

text \<open>
  C32: when the number of blocks is a multiple of eight the bitmap has one bit per block, so
  an allocated block exists on disk; otherwise the bits that pad the last byte are handed
  out too once the real blocks are used up.
\<close>

theorem allocation_in_range_iff_no_padding:
  assumes "0 < n" and "length (bitmap s) = nat (8 * bitmap_size n)"
    and "\<forall>i < nat n. bitmap s ! i" and "\<forall>i. nat n \<le> i \<and> i < length (bitmap s) \<longrightarrow> \<not> bitmap s ! i"
  shows "fst (find_free_block s) = (if n mod 8 = 0 then - 1 else n)"
proof -
  have sz: "8 * bitmap_size n = (if n mod 8 = 0 then n else n + 8 - n mod 8)"
    by (rule bitmap_size_bits) (use assms(1) in simp)
  obtain p s' where r: "find_free_block s = (p, s')" by force
  show ?thesis
  proof (cases "n mod 8 = 0")
    case True
    then have "\<forall>i. 1 \<le> i \<and> i < length (bitmap s) \<longrightarrow> bitmap s ! i"
      using assms(2,3) sz by simp
    then have "find_free_block s = (- 1, s)" by (simp add: find_free_block_None)
    with True show ?thesis by simp
  next
    case False
    have "0 \<le> n mod 8" "n mod 8 < 8" using assms(1) by simp_all
    then have len: "n < int (length (bitmap s))" using assms(1,2) sz False by simp
    have "find_free_block s = (n, s\<lparr>bitmap := (bitmap s)[nat n := True]\<rparr>)"
      using assms(1,3,4) len by (subst find_free_block_Some) auto
    with False show ?thesis by simp
  qed
qed

text \<open>A state with a given bitmap and nothing else.\<close>

definition bitmap_demo :: "bool list \<Rightarrow> storage" where
  "bitmap_demo bs =
     \<lparr>BLOCK_SIZE = 1, FS_SIZE = 1, CANT_WORKERS = 0, bitmap = bs, config_hash_index = Map.empty,
      locks_index = [], blk_mutex_list = [], file_dirs = {}, ft_dirs = Map.empty,
      logical_blocks = [], physical_blocks = Map.empty\<rparr>"

theorem allocation_in_range_iff_no_padding_witness:
  "fst (find_free_block (bitmap_demo (replicate 5 True @ replicate 3 False))) =
     (if 5 mod 8 = (0 :: int) then - 1 else 5)"
proof (rule allocation_in_range_iff_no_padding)
  have sz: "bitmap_size 5 = 1" by code_simp
  show "length (bitmap (bitmap_demo (replicate 5 True @ replicate 3 False))) =
      nat (8 * bitmap_size 5)"
    unfolding sz by (simp add: bitmap_demo_def)
qed (auto simp: bitmap_demo_def nth_append)

end
