(* ===== verification/Storage_Hashes.thy ===== *)
theory Storage_Hashes
  imports Storage_State
begin

text \<open>
  \<open>storage/src/storage_hashes.c\<close>: the index from content hashes to physical block names,
  kept in \<open>blocks_hash_index.config\<close>. \<open>crypto_md5\<close> is library code and stays a parameter
  \<open>md5\<close>; \<open>config_save\<close> writes the same map to disk, so one map stands for both. The
  interface of a persistent index (\<open>hash_index\<close>) is a locale interpreted on the model.
\<close>

definition get_hash_from_content :: "(byte list \<Rightarrow> string) \<Rightarrow> byte list \<Rightarrow> storage \<Rightarrow> fault + string" where
  "get_hash_from_content md5 data s =
     (if int (length data) < BLOCK_SIZE s then Inl OutOfBounds
      else Inr (md5 (take (nat (BLOCK_SIZE s)) data)))"

text \<open>
  The block is opened through its logical entry; a missing entry makes \<open>fopen\<close> return
  \<open>NULL\<close>, and a file shorter than a block leaves part of the buffer unset.
\<close>

definition get_hash_from_block ::
    "(byte list \<Rightarrow> string) \<Rightarrow> string \<Rightarrow> string \<Rightarrow> nat \<Rightarrow> storage \<Rightarrow> fault + string" where
  "get_hash_from_block md5 f t i s =
     (case Option.bind (map_of (logical_blocks s) (f, t, i)) (physical_blocks s) of
        None \<Rightarrow> Inl NullDeref
      | Some c \<Rightarrow>
          if int (length c) < BLOCK_SIZE s then Inl Indeterminate
          else get_hash_from_content md5 (take (nat (BLOCK_SIZE s)) c) s)"

definition hash_is_loaded :: "string \<Rightarrow> storage \<Rightarrow> bool" where
  "hash_is_loaded h s \<longleftrightarrow> config_hash_index s h \<noteq> None"

definition block_asocied_to :: "string \<Rightarrow> storage \<Rightarrow> string option" where
  "block_asocied_to h s = (if hash_is_loaded h s then config_hash_index s h else None)"

definition remove_hash :: "string \<Rightarrow> storage \<Rightarrow> storage" where
  "remove_hash h s =
     (if hash_is_loaded h s
      then s\<lparr>config_hash_index := (config_hash_index s)(h := None)\<rparr> else s)"

definition load_hash_in_index :: "string \<Rightarrow> int \<Rightarrow> storage \<Rightarrow> storage" where
  "load_hash_in_index h p s =
     (let file_name = block_name p; s = remove_hash h s
      in s\<lparr>config_hash_index := (config_hash_index s)(h \<mapsto> file_name)\<rparr>)"

locale hash_index =
  fixes lookup :: "'k \<Rightarrow> 's \<Rightarrow> 'v option"
    and insert_h :: "'k \<Rightarrow> 'b \<Rightarrow> 's \<Rightarrow> 's"
    and delete_h :: "'k \<Rightarrow> 's \<Rightarrow> 's"
    and entry :: "'b \<Rightarrow> 'v"
  assumes lookup_insert: "lookup k (insert_h k' b s) = (if k = k' then Some (entry b) else lookup k s)"
    and lookup_delete: "lookup k (delete_h k' s) = (if k = k' then None else lookup k s)"
begin

lemma insert_then_delete: "lookup k (delete_h k' (insert_h k' b s)) = lookup k (delete_h k' s)"
  by (simp add: lookup_delete lookup_insert)

lemma delete_then_insert: "lookup k (insert_h k' b (delete_h k' s)) = lookup k (insert_h k' b s)"
  by (simp add: lookup_delete lookup_insert)

lemma last_insert_wins:
  "lookup k (insert_h k' c (insert_h k' b s)) = lookup k (insert_h k' c s)"
  by (simp add: lookup_insert)

end

lemma block_asocied_to_eq: "block_asocied_to h s = config_hash_index s h"
  by (simp add: block_asocied_to_def hash_is_loaded_def)

interpretation bhi: hash_index block_asocied_to load_hash_in_index remove_hash block_name
  by unfold_locales
     (auto simp: block_asocied_to_eq load_hash_in_index_def remove_hash_def hash_is_loaded_def)

end
