(* ===== verification/Storage_Locks.thy ===== *)
theory Storage_Locks
  imports Storage_State
begin

text \<open>
  \<open>storage/src/storage_locks.c\<close>: one semaphore per File:Tag in a two-level dictionary, with
  a count of waiting threads and a deletion mark. \<open>storage_wait\<close> is split at its
  \<open>sem_wait\<close> into registering, acquiring and unregistering, the three steps the concurrent
  protocol (\<open>Lock_Protocol\<close>) interleaves; here they run one after the other. The interface
  a sequential operation relies on is the locale \<open>scoped_lock\<close>.
\<close>

definition create_lock :: t_lock where
  "create_lock = \<lparr>sem_file_tag = 1, count_waiting = 0, lock_delete = False\<rparr>"

definition get_lock_of :: "string \<Rightarrow> string \<Rightarrow> storage \<Rightarrow> t_lock option" where
  "get_lock_of f t s =
     (case map_of (locks_index s) f of
        None \<Rightarrow> None
      | Some tags_index \<Rightarrow> map_of tags_index t)"

text \<open>Writing through the pointer \<open>get_lock_of\<close> returned.\<close>

definition set_lock :: "string \<Rightarrow> string \<Rightarrow> t_lock \<Rightarrow> storage \<Rightarrow> storage" where
  "set_lock f t l s =
     (case map_of (locks_index s) f of
        None \<Rightarrow> s
      | Some tags_index \<Rightarrow>
          s\<lparr>locks_index := AList.update f (AList.update t l tags_index) (locks_index s)\<rparr>)"

definition destroy_lock :: "string \<Rightarrow> string \<Rightarrow> storage \<Rightarrow> storage" where
  "destroy_lock f t s =
     (case map_of (locks_index s) f of
        None \<Rightarrow> s
      | Some tags_index \<Rightarrow>
          (let tags_index' = AList.delete t tags_index
           in if tags_index' = []
              then s\<lparr>locks_index := AList.delete f (locks_index s)\<rparr>
              else s\<lparr>locks_index := AList.update f tags_index' (locks_index s)\<rparr>))"

definition add_lock :: "string \<Rightarrow> string \<Rightarrow> storage \<Rightarrow> storage" where
  "add_lock f t s =
     (let s = (if map_of (locks_index s) f = None
               then s\<lparr>locks_index := AList.update f [] (locks_index s)\<rparr> else s)
      in case map_of (locks_index s) f of
           None \<Rightarrow> s
         | Some tags_index \<Rightarrow>
             if map_of tags_index t = None
             then s\<lparr>locks_index := AList.update f (AList.update t create_lock tags_index) (locks_index s)\<rparr>
             else s)"

definition remove_lock :: "string \<Rightarrow> string \<Rightarrow> storage \<Rightarrow> storage" where
  "remove_lock f t s =
     (case get_lock_of f t s of
        None \<Rightarrow> s
      | Some lock \<Rightarrow>
          if count_waiting lock \<noteq> 0 then set_lock f t (lock\<lparr>lock_delete := True\<rparr>) s
          else destroy_lock f t s)"

text \<open>
  The body of \<open>storage_wait\<close>: under \<open>sem_locks_index\<close> the lock is looked up and the count
  raised; then the thread waits on the semaphore and lowers the count.
\<close>

definition lock_register :: "t_lock \<Rightarrow> t_lock" where
  "lock_register l = l\<lparr>count_waiting := count_waiting l + 1\<rparr>"

definition lock_acquire :: "t_lock \<Rightarrow> fault + t_lock" where
  "lock_acquire l =
     (if sem_file_tag l = 0 then Inl Blocked else Inr (l\<lparr>sem_file_tag := sem_file_tag l - 1\<rparr>))"

definition lock_unregister :: "t_lock \<Rightarrow> t_lock" where
  "lock_unregister l = l\<lparr>count_waiting := count_waiting l - 1\<rparr>"

definition storage_wait :: "string \<Rightarrow> string \<Rightarrow> storage \<Rightarrow> fault + storage" where
  "storage_wait f t s =
     (case get_lock_of f t s of
        None \<Rightarrow> Inr s
      | Some lock \<Rightarrow>
          bindE (lock_acquire (lock_register lock)) (\<lambda>lock.
            Inr (set_lock f t (lock_unregister lock) s)))"

definition storage_signal :: "string \<Rightarrow> string \<Rightarrow> storage \<Rightarrow> storage" where
  "storage_signal f t s =
     (case get_lock_of f t s of
        None \<Rightarrow> s
      | Some lock \<Rightarrow>
          if \<not> lock_delete lock \<or> count_waiting lock \<noteq> 0
          then set_lock f t (lock\<lparr>sem_file_tag := Suc (sem_file_tag lock)\<rparr>) s
          else destroy_lock f t s)"

section \<open>Locks at rest\<close>

text \<open>Between operations every lock is as \<open>create_lock\<close> made it.\<close>

definition locks_idle :: "storage \<Rightarrow> bool" where
  "locks_idle s \<longleftrightarrow> (\<forall>f t l. get_lock_of f t s = Some l \<longrightarrow> l = create_lock)"

lemma alist_update_same: "map_of al k = Some v \<Longrightarrow> AList.update k v al = al"
  by (induction al) (auto split: if_splits)

lemma alist_update_update: "AList.update k v (AList.update k w al) = AList.update k v al"
  by (induction al) auto

lemma map_of_update: "map_of (AList.update k v al) = (map_of al)(k \<mapsto> v)"
  by (rule AList.update_conv')

lemma get_lock_set_lock:
  "get_lock_of f t s \<noteq> None \<Longrightarrow>
   get_lock_of f' t' (set_lock f t l s) =
     (if f' = f \<and> t' = t then Some l else get_lock_of f' t' s)"
  by (auto simp: get_lock_of_def set_lock_def map_of_update split: option.splits)

lemma set_lock_back:
  "get_lock_of f t s = Some l \<Longrightarrow> set_lock f t l (set_lock f t l' s) = s"
  by (auto simp: get_lock_of_def set_lock_def map_of_update alist_update_update
      alist_update_same split: option.splits)

lemma set_lock_other:
  "locks_index s2 = locks_index (set_lock f t l' s) \<Longrightarrow> get_lock_of f t s = Some l \<Longrightarrow>
   set_lock f t l s2 = s2\<lparr>locks_index := locks_index s\<rparr>"
  by (auto simp: get_lock_of_def set_lock_def map_of_update alist_update_update
      alist_update_same split: option.splits)

text \<open>
  What a sequential operation needs of a lock around its body: waiting succeeds when the
  locks are at rest, and signalling after a body that leaves them alone restores them.
\<close>

locale scoped_lock =
  fixes acquire :: "'k \<Rightarrow> 's \<Rightarrow> fault + 's"
    and release :: "'k \<Rightarrow> 's \<Rightarrow> 's"
    and locks :: "'s \<Rightarrow> 'l"
    and set_locks :: "'l \<Rightarrow> 's \<Rightarrow> 's"
    and held :: "'k \<Rightarrow> 'l \<Rightarrow> 'l"
    and idle :: "'l \<Rightarrow> bool"
  assumes acquire_idle: "idle (locks s) \<Longrightarrow> acquire k s = Inr (set_locks (held k (locks s)) s)"
    and release_held: "idle l \<Longrightarrow> locks s = held k l \<Longrightarrow> release k s = set_locks l s"
begin

lemma scope:
  assumes "idle (locks s)" and "\<And>s1. locks (body s1) = locks s1"
    and "\<And>l s. locks (set_locks l s) = l"
  shows "bindE (acquire k s) (\<lambda>s1. Inr (release k (body s1))) =
         Inr (set_locks (locks s) (body (set_locks (held k (locks s)) s)))"
  using assms by (simp add: acquire_idle release_held[of "locks s"])

end

text \<open>The index with the lock of one File:Tag taken, when it has one.\<close>

definition lock_held ::
    "string \<times> string \<Rightarrow> (string \<times> (string \<times> t_lock) list) list \<Rightarrow> (string \<times> (string \<times> t_lock) list) list" where
  "lock_held k idx =
     (case map_of idx (fst k) of
        None \<Rightarrow> idx
      | Some tags_index \<Rightarrow>
          (case map_of tags_index (snd k) of
             None \<Rightarrow> idx
           | Some l \<Rightarrow>
               AList.update (fst k) (AList.update (snd k) (l\<lparr>sem_file_tag := 0\<rparr>) tags_index) idx))"

definition index_idle :: "(string \<times> (string \<times> t_lock) list) list \<Rightarrow> bool" where
  "index_idle idx \<longleftrightarrow>
     (\<forall>f tags t l. map_of idx f = Some tags \<longrightarrow> map_of tags t = Some l \<longrightarrow> l = create_lock)"

lemma locks_idle_index: "locks_idle s \<longleftrightarrow> index_idle (locks_index s)"
  by (auto simp: locks_idle_def index_idle_def get_lock_of_def split: option.splits)

interpretation ftl: scoped_lock "\<lambda>k. storage_wait (fst k) (snd k)"
  "\<lambda>k. storage_signal (fst k) (snd k)" locks_index "\<lambda>l s. (s :: storage)\<lparr>locks_index := l\<rparr>"
  lock_held index_idle
proof
  fix s :: storage and k assume idle: "index_idle (locks_index s)"
  show "storage_wait (fst k) (snd k) s = Inr (s\<lparr>locks_index := lock_held k (locks_index s)\<rparr>)"
  proof (cases "get_lock_of (fst k) (snd k) s")
    case None
    then show ?thesis
      by (auto simp: storage_wait_def get_lock_of_def lock_held_def split: option.splits)
  next
    case (Some lk)
    then obtain tags where t: "map_of (locks_index s) (fst k) = Some tags"
        "map_of tags (snd k) = Some lk"
      by (auto simp: get_lock_of_def split: option.splits)
    then have "lk = create_lock" using idle by (auto simp: index_idle_def)
    with t Some show ?thesis
      by (simp add: storage_wait_def lock_held_def set_lock_def lock_acquire_def
          lock_register_def lock_unregister_def create_lock_def)
  qed
next
  fix l k and s :: storage assume l: "index_idle l" "locks_index s = lock_held k l"
  show "storage_signal (fst k) (snd k) s = s\<lparr>locks_index := l\<rparr>"
  proof (cases "Option.bind (map_of l (fst k)) (\<lambda>tags. map_of tags (snd k))")
    case None
    then have "locks_index s = l"
      using l(2) by (auto simp: lock_held_def split: option.splits)
    with None show ?thesis
      by (auto simp: storage_signal_def get_lock_of_def split: option.splits)
  next
    case (Some lk)
    then obtain tags where t: "map_of l (fst k) = Some tags" "map_of tags (snd k) = Some lk"
      by (auto split: bind_splits)
    then have "lk = create_lock" using l(1) by (auto simp: index_idle_def)
    with t l(2) show ?thesis
      by (simp add: storage_signal_def get_lock_of_def set_lock_def lock_held_def map_of_update
          create_lock_def alist_update_update alist_update_same)
  qed
qed

lemmas storage_wait_idle = ftl.acquire_idle[of _ "(f, t)" for f t, simplified]
lemmas storage_signal_held = ftl.release_held[of _ _ "(f, t)" for f t, simplified]

lemma index_idle_add_lock:
  "index_idle (locks_index s) \<Longrightarrow> index_idle (locks_index (add_lock f t s))"
  by (auto simp: index_idle_def add_lock_def Let_def map_of_update split: option.splits if_splits)

lemma index_idle_delete:
  "index_idle idx \<Longrightarrow> distinct (map fst idx) \<Longrightarrow> index_idle (AList.delete f idx)"
  by (auto simp: index_idle_def AList.delete_conv' split: if_splits)

text \<open>The lock functions change the lock index only.\<close>

lemma set_lock_only: "set_lock f t l s = s\<lparr>locks_index := locks_index (set_lock f t l s)\<rparr>"
  by (simp add: set_lock_def split: option.splits)

lemma destroy_lock_only:
  "destroy_lock f t s = s\<lparr>locks_index := locks_index (destroy_lock f t s)\<rparr>"
  by (simp add: destroy_lock_def Let_def split: option.splits)

lemma add_lock_only: "add_lock f t s = s\<lparr>locks_index := locks_index (add_lock f t s)\<rparr>"
  by (simp add: add_lock_def Let_def split: option.splits)

lemma remove_lock_only: "remove_lock f t s = s\<lparr>locks_index := locks_index (remove_lock f t s)\<rparr>"
  using set_lock_only destroy_lock_only by (simp add: remove_lock_def split: option.splits)

lemma storage_signal_only:
  "storage_signal f t s = s\<lparr>locks_index := locks_index (storage_signal f t s)\<rparr>"
  using set_lock_only destroy_lock_only by (simp add: storage_signal_def split: option.splits)

text \<open>
  DELETE destroys the lock it holds; the signal after it finds none, and the other locks
  stay at rest.
\<close>

lemma remove_held_signal:
  assumes idle: "index_idle idx" and lk: "locks_index s = lock_held (f, t) idx"
  shows "index_idle (locks_index (storage_signal f t (remove_lock f t s)))"
proof (cases "Option.bind (map_of idx f) (\<lambda>tags. map_of tags t)")
  case None
  then have "lock_held (f, t) idx = idx" by (auto simp: lock_held_def split: option.splits)
  with lk None have "get_lock_of f t s = None"
    by (auto simp: get_lock_of_def split: option.splits)
  with lk idle \<open>lock_held (f, t) idx = idx\<close> show ?thesis
    by (simp add: remove_lock_def storage_signal_def)
next
  case (Some lk')
  then obtain tags where t: "map_of idx f = Some tags" "map_of tags t = Some lk'"
    by (auto split: bind_splits)
  then have l: "lk' = create_lock" using idle by (auto simp: index_idle_def)
  have g: "get_lock_of f t s = Some (create_lock\<lparr>sem_file_tag := 0\<rparr>)"
    using t lk l by (simp add: get_lock_of_def lock_held_def map_of_update)
  then have rm: "remove_lock f t s = destroy_lock f t s"
    by (simp add: remove_lock_def create_lock_def)
  have none: "get_lock_of f t (destroy_lock f t s) = None"
    using t lk by (auto simp: get_lock_of_def destroy_lock_def lock_held_def map_of_update Let_def
        AList.delete_conv')
  have "index_idle (locks_index (destroy_lock f t s))"
    using t lk idle
    by (auto simp: index_idle_def destroy_lock_def lock_held_def map_of_update Let_def
        AList.delete_conv' split: if_splits)
  with none rm show ?thesis by (simp add: storage_signal_def)
qed

end
