(* ===== verification/Storage_Files.thy ===== *)
theory Storage_Files
  imports Storage_Bitmap Storage_Hashes Storage_Locks
begin

text \<open>
  The file operations of \<open>storage/src/sotrage_files.c\<close>, one definition per operation and one
  per loop body, with every early return. Each is a function of the storage state that
  returns the \<open>rta_storage\<close> and the new state, or the fault the code runs into. Loop
  bodies take the metadata record in memory together with the state, as the code keeps
  both; the query id, which is only logged, is left out.
\<close>

definition WORK_IN_PROGRESS :: string where
  "WORK_IN_PROGRESS = ''WORK_IN_PROGRESS''"

definition COMMITED :: string where
  "COMMITED = ''COMMITED''"

definition is_commited :: "t_metadata_file \<Rightarrow> bool" where
  "is_commited m \<longleftrightarrow> string_equals_ignore_case (estado m) COMMITED"

section \<open>CREATE\<close>

definition storage_create :: "string \<Rightarrow> string \<Rightarrow> storage \<Rightarrow> fault + (rta_storage \<times> storage)" where
  "storage_create f t s =
     (let s = s\<lparr>file_dirs := insert f (file_dirs s)\<rparr>
      in if ft_dirs s (f, t) \<noteq> None then Inr (ERR_PREEXISTENCIA, s)
         else
           let s = s\<lparr>ft_dirs := (ft_dirs s)((f, t) \<mapsto> \<lparr>metadata_config = None, logical_dir = True\<rparr>)\<rparr>;
               s = storage_metadata_write f t
                     \<lparr>tamanio = 0, blocks = [], estado = WORK_IN_PROGRESS\<rparr> s
           in if storage_metadata_read f t s = None then Inr (NOT_DEF_ERR, s)
              else Inr (OP_EXITOSA, add_lock f t s))"

section \<open>TRUNCATE\<close>

definition truncate_grow_step ::
    "string \<Rightarrow> string \<Rightarrow> t_metadata_file \<times> storage \<Rightarrow> fault + (t_metadata_file \<times> storage)" where
  "truncate_grow_step f t = (\<lambda>(meta, s).
     bindE (blk_wait 0 s) (\<lambda>s.
       let (r, s) = link_block 0 (f, t, length (blocks meta)) s;
           s = blk_post 0 s
       in Inr (meta\<lparr>blocks := blocks meta @ [''0'']\<rparr>, s)))"

definition truncate_shrink_step ::
    "string \<Rightarrow> string \<Rightarrow> t_metadata_file \<times> storage \<Rightarrow> fault + (t_metadata_file \<times> storage)" where
  "truncate_shrink_step f t = (\<lambda>(meta, s).
     let last_index = int (length (blocks meta)) - 1
     in bindE (block_at meta last_index) (\<lambda>block_to_free.
        bindE (blk_wait block_to_free s) (\<lambda>s.
          let s = unlink_block (f, t, nat last_index) s
          in bindE (if block_to_free \<noteq> 0
                    then bindE (stat_nlink block_to_free s) (\<lambda>st_nlink.
                           if st_nlink < 2 then mark_block_free block_to_free s else Inr s)
                    else Inr s) (\<lambda>s.
               Inr (meta\<lparr>blocks := butlast (blocks meta)\<rparr>, blk_post block_to_free s)))))"

definition storage_truncate ::
    "string \<Rightarrow> string \<Rightarrow> int \<Rightarrow> storage \<Rightarrow> fault + (rta_storage \<times> storage)" where
  "storage_truncate f t new_size s =
     bindE (storage_wait f t s) (\<lambda>s.
       case storage_metadata_read f t s of
         None \<Rightarrow> Inr (ERR_INEXISTENCIA, storage_signal f t s)
       | Some meta \<Rightarrow>
           if is_commited meta then Inr (ERR_WRITE_COMMITED, storage_signal f t s)
           else if BLOCK_SIZE s = 0 then Inl DivByZero
           else
             let current_blocks = int (length (blocks meta));
                 needed_blocks = c_div new_size (BLOCK_SIZE s)
             in bindE (if needed_blocks > current_blocks
                       then repeatE (nat (needed_blocks - current_blocks))
                              (truncate_grow_step f t) (meta, s)
                       else Inr (meta, s)) (\<lambda>(meta, s).
                bindE (if needed_blocks < current_blocks
                       then repeatE (nat (current_blocks - needed_blocks))
                              (truncate_shrink_step f t) (meta, s)
                       else Inr (meta, s)) (\<lambda>(meta, s).
                  let s = storage_metadata_write f t (meta\<lparr>tamanio := new_size\<rparr>) s
                  in Inr (OP_EXITOSA, storage_signal f t s))))"

section \<open>WRITE and READ\<close>

text \<open>
  The copy branch: a new block is reserved, the logical entry moves to it and the metadata
  is rewritten. When no block is free the branch frees \<open>phys_path\<close> a second time before it
  can return \<open>ERR_ESP_INSUFICIENTE\<close>.
\<close>

definition write_copy ::
    "string \<Rightarrow> string \<Rightarrow> int \<Rightarrow> int \<Rightarrow> t_metadata_file \<Rightarrow> storage \<Rightarrow> fault + (int \<times> storage)" where
  "write_copy f t l p meta s =
     (let (q, s) = find_free_block s
      in if q = - 1 then Inl DoubleFree
         else
           let s = unlink_block (f, t, nat l) s;
               s = blk_post p s;
               s = storage_metadata_write f t
                     (meta\<lparr>blocks := (blocks meta)[nat l := itoa q]\<rparr>) s
           in bindE (blk_wait q s) (\<lambda>s.
                let (r, s) = link_block q (f, t, nat l) s in Inr (q, s)))"

definition write_physical :: "int \<Rightarrow> byte list \<Rightarrow> storage \<Rightarrow> fault + storage" where
  "write_physical p buf s =
     (if int (length buf) < BLOCK_SIZE s then Inl OutOfBounds
      else Inr (s\<lparr>physical_blocks := (physical_blocks s)(p \<mapsto> take (nat (BLOCK_SIZE s)) buf)\<rparr>))"

definition storage_write ::
    "string \<Rightarrow> string \<Rightarrow> int \<Rightarrow> byte list \<Rightarrow> storage \<Rightarrow> fault + (rta_storage \<times> storage)" where
  "storage_write f t l_block_num buf s =
     bindE (storage_wait f t s) (\<lambda>s.
       case storage_metadata_read f t s of
         None \<Rightarrow> Inr (ERR_INEXISTENCIA, storage_signal f t s)
       | Some meta \<Rightarrow>
           if is_commited meta then Inr (ERR_WRITE_COMMITED, storage_signal f t s)
           else if l_block_num < 0 \<or> int (length (blocks meta)) \<le> l_block_num
           then Inr (ERR_FUERA_LIMITE, storage_signal f t s)
           else
             bindE (block_at meta l_block_num) (\<lambda>p_block_num.
             bindE (blk_wait p_block_num s) (\<lambda>s.
             bindE (stat_nlink p_block_num s) (\<lambda>st_nlink.
             bindE (if p_block_num = 0 \<or> 2 < st_nlink
                    then write_copy f t l_block_num p_block_num meta s
                    else Inr (p_block_num, s)) (\<lambda>(p_block_num, s).
             bindE (write_physical p_block_num buf s) (\<lambda>s.
               Inr (OP_EXITOSA, storage_signal f t (blk_post p_block_num s))))))))"

text \<open>
  \<open>storage_read\<close> compares the index with \<open>>\<close>, so the index one past the end and negative
  ones go on to \<open>list_get\<close>. The buffer filled is part of the result.
\<close>

definition storage_read ::
    "string \<Rightarrow> string \<Rightarrow> int \<Rightarrow> storage \<Rightarrow> fault + ((rta_storage \<times> byte list option) \<times> storage)" where
  "storage_read f t l_block_num s =
     bindE (storage_wait f t s) (\<lambda>s.
       case storage_metadata_read f t s of
         None \<Rightarrow> Inr ((ERR_INEXISTENCIA, None), storage_signal f t s)
       | Some meta \<Rightarrow>
           if int (length (blocks meta)) < l_block_num
           then Inr ((ERR_FUERA_LIMITE, None), storage_signal f t s)
           else
             bindE (block_at meta l_block_num) (\<lambda>p_block_num.
             let s = storage_signal f t s
             in bindE (blk_wait p_block_num s) (\<lambda>s.
                  case physical_blocks s p_block_num of
                    None \<Rightarrow> Inl NullDeref
                  | Some c \<Rightarrow>
                      if int (length c) < BLOCK_SIZE s then Inl Indeterminate
                      else Inr ((OP_EXITOSA, Some (take (nat (BLOCK_SIZE s)) c)),
                                blk_post p_block_num s))))"

section \<open>COMMIT\<close>

definition commit_step ::
    "(byte list \<Rightarrow> string) \<Rightarrow> string \<Rightarrow> string \<Rightarrow> nat \<Rightarrow> t_metadata_file \<times> storage
     \<Rightarrow> fault + (t_metadata_file \<times> storage)" where
  "commit_step md5 f t i = (\<lambda>(metadata, s).
     bindE (block_at metadata (int i)) (\<lambda>actual_blk.
     bindE (blk_wait actual_blk s) (\<lambda>s.
     bindE (get_hash_from_block md5 f t i s) (\<lambda>hash.
       case block_asocied_to hash s of
         None \<Rightarrow>
           let s = load_hash_in_index hash actual_blk s
           in Inr (metadata, blk_post actual_blk s)
       | Some phys_blk \<Rightarrow>
           let q = atoi (drop 5 phys_blk)
           in if q = actual_blk then Inr (metadata, blk_post actual_blk s)
              else
                let s = unlink_block (f, t, i) s;
                    s = blk_post actual_blk s
                in bindE (blk_wait q s) (\<lambda>s.
                     let (r, s) = link_block q (f, t, i) s;
                         s = blk_post q s
                     in bindE (if actual_blk \<noteq> 0 then mark_block_free actual_blk s else Inr s) (\<lambda>s.
                          let metadata = metadata\<lparr>blocks := (blocks metadata)[i := itoa q]\<rparr>
                          in Inr (metadata, storage_metadata_write f t metadata s)))))))"

definition storage_commit ::
    "(byte list \<Rightarrow> string) \<Rightarrow> string \<Rightarrow> string \<Rightarrow> storage \<Rightarrow> fault + (rta_storage \<times> storage)" where
  "storage_commit md5 f t s =
     bindE (storage_wait f t s) (\<lambda>s.
       case storage_metadata_read f t s of
         None \<Rightarrow> Inr (ERR_INEXISTENCIA, storage_signal f t s)
       | Some metadata \<Rightarrow>
           bindE (foldE (commit_step md5 f t) [0..<length (blocks metadata)] (metadata, s))
             (\<lambda>(metadata, s).
               let s = storage_metadata_write f t (metadata\<lparr>estado := COMMITED\<rparr>) s
               in Inr (OP_EXITOSA, storage_signal f t s)))"

section \<open>TAG\<close>

text \<open>
  The linking loop returns from the operation at the first failing \<open>link\<close>, with the new
  File:Tag's lock still taken.
\<close>

fun tag_loop ::
    "string \<Rightarrow> string \<Rightarrow> string list \<Rightarrow> nat \<Rightarrow> storage \<Rightarrow> fault + (rta_storage \<times> storage)" where
  "tag_loop f t [] i s = Inr (OP_EXITOSA, s)"
| "tag_loop f t (b # bs) i s =
     bindE (blk_wait (atoi b) s) (\<lambda>s.
       let (r, s) = link_block (atoi b) (f, t, i) s;
           s = blk_post (atoi b) s
       in if r \<noteq> 0 then Inr (NOT_DEF_ERR, s) else tag_loop f t bs (Suc i) s)"

definition storage_tag ::
    "string \<Rightarrow> string \<Rightarrow> string \<Rightarrow> string \<Rightarrow> storage \<Rightarrow> fault + (rta_storage \<times> storage)" where
  "storage_tag file_o tag_o file_n tag_n s =
     bindE (storage_create file_n tag_n s) (\<lambda>(result, s).
       if result \<noteq> OP_EXITOSA then Inr (result, s)
       else
         bindE (storage_wait file_o tag_o s) (\<lambda>s.
         let metadata_ft_o = storage_metadata_read file_o tag_o s;
             s = storage_signal file_o tag_o s
         in case metadata_ft_o of
              None \<Rightarrow> Inr (ERR_INEXISTENCIA, s)
            | Some metadata \<Rightarrow>
                let metadata = metadata\<lparr>estado := WORK_IN_PROGRESS\<rparr>
                in bindE (storage_wait file_n tag_n s) (\<lambda>s.
                   let blks = blocks metadata;
                       s = storage_metadata_write file_n tag_n metadata s
                   in bindE (tag_loop file_n tag_n blks 0 s) (\<lambda>(result, s).
                        if result \<noteq> OP_EXITOSA then Inr (result, s)
                        else Inr (OP_EXITOSA, storage_signal file_n tag_n s)))))"

section \<open>DELETE\<close>

definition delete_step ::
    "(byte list \<Rightarrow> string) \<Rightarrow> string \<Rightarrow> string \<Rightarrow> t_metadata_file \<Rightarrow> nat \<Rightarrow> storage \<Rightarrow> fault + storage" where
  "delete_step md5 f t meta i s =
     bindE (block_at meta (int i)) (\<lambda>blk_num.
     bindE (blk_wait blk_num s) (\<lambda>s.
     bindE (get_hash_from_block md5 f t i s) (\<lambda>hash.
       let s = unlink_block (f, t, i) s
       in if blk_num = 0 then Inr (blk_post blk_num s)
          else
            bindE (stat_nlink blk_num s) (\<lambda>st_nlink.
            bindE (if st_nlink < 2 then mark_block_free blk_num (remove_hash hash s)
                   else Inr s) (\<lambda>s.
              Inr (blk_post blk_num s))))))"

text \<open>\<open>remove(metadata.config)\<close> and the two \<open>rmdir\<close>s, each of which needs an empty directory.\<close>

definition remove_ft_dir :: "string \<Rightarrow> string \<Rightarrow> storage \<Rightarrow> storage" where
  "remove_ft_dir f t s =
     (case ft_dirs s (f, t) of
        None \<Rightarrow> s
      | Some d \<Rightarrow>
          let d = d\<lparr>metadata_config := None\<rparr>;
              empty = (filter (\<lambda>e. case fst e of (f', t', i) \<Rightarrow> f' = f \<and> t' = t) (logical_blocks s) = []);
              d = (if empty then d\<lparr>logical_dir := False\<rparr> else d)
          in if \<not> logical_dir d then s\<lparr>ft_dirs := (ft_dirs s)((f, t) := None)\<rparr>
             else s\<lparr>ft_dirs := (ft_dirs s)((f, t) \<mapsto> d)\<rparr>)"

definition storage_delete ::
    "(byte list \<Rightarrow> string) \<Rightarrow> string \<Rightarrow> string \<Rightarrow> storage \<Rightarrow> fault + (rta_storage \<times> storage)" where
  "storage_delete md5 f t s =
     (if string_equals_ignore_case f ''initial_file'' \<and> string_equals_ignore_case t ''BASE''
      then Inr (NOT_DEF_ERR, s)
      else
        bindE (storage_wait f t s) (\<lambda>s.
          case storage_metadata_read f t s of
            None \<Rightarrow> Inr (ERR_INEXISTENCIA, storage_signal f t s)
          | Some meta \<Rightarrow>
              bindE (foldE (delete_step md5 f t meta) [0..<length (blocks meta)] s) (\<lambda>s.
                let s = remove_ft_dir f t s;
                    s = remove_lock f t s
                in Inr (OP_EXITOSA, storage_signal f t s))))"

end
