(* ===== verification/Storage_Inv.thy ===== *)
theory Storage_Inv
  imports Storage_Files
begin

text \<open>
  The well-formedness invariant of the storage state and the effect of every primitive and
  loop body under it. \<open>fs_ok M s\<close> relates the disk to a view \<open>M\<close> of the metadata: inside an
  operation \<open>M\<close> holds the record in memory, between operations it is what is on disk
  (\<open>metas\<close>). The lemmas give each step's resulting state explicitly, so that the operations
  are proved by rewriting with them.
\<close>

declare split_paired_All [simp del] split_paired_Ex [simp del]

section \<open>Steps that do not touch a component\<close>

named_theorems storage_frame

lemma storage_metadata_read_frame [simp, storage_frame]:
  "storage_metadata_read f t (s\<lparr>locks_index := x1\<rparr>) = storage_metadata_read f t s"
  "storage_metadata_read f t (s\<lparr>blk_mutex_list := x2\<rparr>) = storage_metadata_read f t s"
  "storage_metadata_read f t (s\<lparr>bitmap := x3\<rparr>) = storage_metadata_read f t s"
  "storage_metadata_read f t (s\<lparr>logical_blocks := x4\<rparr>) = storage_metadata_read f t s"
  "storage_metadata_read f t (s\<lparr>config_hash_index := x5\<rparr>) = storage_metadata_read f t s"
  "storage_metadata_read f t (s\<lparr>physical_blocks := x6\<rparr>) = storage_metadata_read f t s"
  "storage_metadata_read f t (s\<lparr>file_dirs := x7\<rparr>) = storage_metadata_read f t s"
  by (simp_all add: storage_metadata_read_def)

definition metas :: "storage \<Rightarrow> ft_key \<Rightarrow> t_metadata_file option" where
  "metas s k = storage_metadata_read (fst k) (snd k) s"

lemma metas_frame [simp, storage_frame]:
  "metas (s\<lparr>locks_index := x1\<rparr>) = metas s"
  "metas (s\<lparr>blk_mutex_list := x2\<rparr>) = metas s"
  "metas (s\<lparr>bitmap := x3\<rparr>) = metas s"
  "metas (s\<lparr>logical_blocks := x4\<rparr>) = metas s"
  "metas (s\<lparr>config_hash_index := x5\<rparr>) = metas s"
  "metas (s\<lparr>physical_blocks := x6\<rparr>) = metas s"
  "metas (s\<lparr>file_dirs := x7\<rparr>) = metas s"
  by (simp_all add: metas_def fun_eq_iff)

lemma metas_read: "metas s (f, t) = storage_metadata_read f t s"
  by (simp add: metas_def)

lemma block_used_frame [simp, storage_frame]:
  "block_used (s\<lparr>locks_index := x1\<rparr>) = block_used s"
  "block_used (s\<lparr>blk_mutex_list := x2\<rparr>) = block_used s"
  "block_used (s\<lparr>ft_dirs := x3\<rparr>) = block_used s"
  "block_used (s\<lparr>logical_blocks := x4\<rparr>) = block_used s"
  "block_used (s\<lparr>config_hash_index := x5\<rparr>) = block_used s"
  "block_used (s\<lparr>physical_blocks := x6\<rparr>) = block_used s"
  "block_used (s\<lparr>file_dirs := x7\<rparr>) = block_used s"
  by (simp_all add: block_used_def fun_eq_iff)

section \<open>The invariant\<close>

definition num_blocks :: "storage \<Rightarrow> int" where
  "num_blocks s = c_div (FS_SIZE s) (BLOCK_SIZE s)"

definition zero_block :: "storage \<Rightarrow> byte list" where
  "zero_block s = replicate (nat (BLOCK_SIZE s)) (char_byte (CHR ''0''))"

text \<open>The entry of \<open>logical_blocks\<close> that a view of the metadata calls for.\<close>

definition entry_of :: "(ft_key \<rightharpoonup> t_metadata_file) \<Rightarrow> log_key \<Rightarrow> int option" where
  "entry_of M k =
     (case k of (f, t, i) \<Rightarrow>
        (case M (f, t) of
           None \<Rightarrow> None
         | Some m \<Rightarrow> if i < length (blocks m) then Some (atoi (blocks m ! i)) else None))"

definition disk_ok :: "storage \<Rightarrow> bool" where
  "disk_ok s \<longleftrightarrow>
     0 < BLOCK_SIZE s \<and> BLOCK_SIZE s \<le> FS_SIZE s \<and>
     (\<forall>p. physical_blocks s p \<noteq> None \<longleftrightarrow> 0 \<le> p \<and> p < num_blocks s) \<and>
     (\<forall>p c. physical_blocks s p = Some c \<longrightarrow> length c = nat (BLOCK_SIZE s)) \<and>
     physical_blocks s 0 = Some (zero_block s) \<and>
     num_blocks s \<le> int (length (bitmap s)) \<and>
     (\<forall>h name. config_hash_index s h = Some name \<longrightarrow>
        (\<exists>p. name = block_name p \<and> 0 \<le> p \<and> p < num_blocks s))"

definition tree_ok :: "(ft_key \<rightharpoonup> t_metadata_file) \<Rightarrow> storage \<Rightarrow> bool" where
  "tree_ok M s \<longleftrightarrow>
     distinct (map fst (logical_blocks s)) \<and>
     (\<forall>k. map_of (logical_blocks s) k = entry_of M k) \<and>
     (\<forall>k. M k = None \<longleftrightarrow> ft_dirs s k = None) \<and>
     (\<forall>k d. ft_dirs s k = Some d \<longrightarrow> logical_dir d \<and> metadata_config d \<noteq> None) \<and>
     (\<forall>k m b. M k = Some m \<longrightarrow> b \<in> set (blocks m) \<longrightarrow> 0 \<le> atoi b \<and> atoi b < num_blocks s)"

definition mutex_ok :: "storage \<Rightarrow> bool" where
  "mutex_ok s \<longleftrightarrow> blk_mutex_list s = replicate (nat (num_blocks s)) 1"

definition fs_ok :: "(ft_key \<rightharpoonup> t_metadata_file) \<Rightarrow> storage \<Rightarrow> bool" where
  "fs_ok M s \<longleftrightarrow> disk_ok s \<and> tree_ok M s \<and> mutex_ok s"

definition fs_wf :: "storage \<Rightarrow> bool" where
  "fs_wf s \<longleftrightarrow> fs_ok (metas s) s \<and> index_idle (locks_index s)"

text \<open>Every block a logical entry names is marked used, and so is block 0.\<close>

definition alloc_safe :: "storage \<Rightarrow> bool" where
  "alloc_safe s \<longleftrightarrow>
     block_used s 0 \<and> (\<forall>k p. map_of (logical_blocks s) k = Some p \<longrightarrow> block_used s p)"

lemma num_blocks_div: "disk_ok s \<Longrightarrow> num_blocks s = FS_SIZE s div BLOCK_SIZE s"
  by (simp add: num_blocks_def disk_ok_def c_div_pos)

lemma num_blocks_pos: "disk_ok s \<Longrightarrow> 0 < num_blocks s"
  by (simp add: num_blocks_div) (simp add: disk_ok_def pos_imp_zdiv_pos_iff)

lemma fs_okD:
  assumes "fs_ok M s"
  shows "disk_ok s" and "tree_ok M s" and "mutex_ok s"
    and "0 < BLOCK_SIZE s" and "distinct (map fst (logical_blocks s))"
    and "map_of (logical_blocks s) k = entry_of M k"
    and "physical_blocks s p \<noteq> None \<longleftrightarrow> 0 \<le> p \<and> p < num_blocks s"
    and "blk_mutex_list s = replicate (nat (num_blocks s)) 1"
    and "physical_blocks s p = Some c \<Longrightarrow> length c = nat (BLOCK_SIZE s)"
    and "M k' = None \<longleftrightarrow> ft_dirs s k' = None"
    and "ft_dirs s k' = Some d \<Longrightarrow> logical_dir d \<and> metadata_config d \<noteq> None"
    and "num_blocks s \<le> int (length (bitmap s))"
  using assms unfolding fs_ok_def disk_ok_def tree_ok_def mutex_ok_def by blast+

lemma fs_ok_block_range:
  assumes "fs_ok M s" and "M k = Some m" and "i < length (blocks m)"
  shows "0 \<le> atoi (blocks m ! i)" and "atoi (blocks m ! i) < num_blocks s"
  using assms nth_mem[OF assms(3)] unfolding fs_ok_def tree_ok_def by blast+

text \<open>The invariant does not depend on the fields the locks and the metadata text live in.\<close>

lemma fs_ok_frame [simp, storage_frame]:
  "fs_ok M (s\<lparr>locks_index := x\<rparr>) = fs_ok M s"
  "fs_ok M (s\<lparr>file_dirs := y\<rparr>) = fs_ok M s"
  by (simp_all add: fs_ok_def disk_ok_def tree_ok_def mutex_ok_def num_blocks_def zero_block_def)

lemma alloc_safe_frame [simp, storage_frame]:
  "alloc_safe (s\<lparr>locks_index := x1\<rparr>) = alloc_safe s"
  "alloc_safe (s\<lparr>file_dirs := x2\<rparr>) = alloc_safe s"
  "alloc_safe (s\<lparr>ft_dirs := x3\<rparr>) = alloc_safe s"
  "alloc_safe (s\<lparr>blk_mutex_list := x4\<rparr>) = alloc_safe s"
  "alloc_safe (s\<lparr>config_hash_index := x5\<rparr>) = alloc_safe s"
  "alloc_safe (s\<lparr>physical_blocks := x6\<rparr>) = alloc_safe s"
  by (simp_all add: alloc_safe_def)

section \<open>Semaphores, links and metadata under the invariant\<close>

text \<open>Taking a block's semaphore, and giving it back after a step that keeps the others.\<close>

lemma blk_wait_ok:
  assumes "mutex_ok s" and "0 \<le> p" and "p < num_blocks s"
  shows "blk_wait p s = Inr (s\<lparr>blk_mutex_list := (blk_mutex_list s)[nat p := 0]\<rparr>)"
  using assms by (simp add: blk_wait_def mutex_ok_def nat_less_iff)

lemma blk_post_held:
  assumes "mutex_ok s" and "0 \<le> p" and "p < num_blocks s"
    and "blk_mutex_list s' = (blk_mutex_list s)[nat p := 0]"
  shows "blk_post p s' = s'\<lparr>blk_mutex_list := blk_mutex_list s\<rparr>"
  using assms by (simp add: blk_post_def mutex_ok_def nat_less_iff list_update_same_conv)

lemma metas_write:
  assumes "ft_dirs s (f, t) \<noteq> None"
  shows "metas (storage_metadata_write f t m s) = (metas s)((f, t) \<mapsto> m)"
  using assms
  by (auto simp: metas_def storage_metadata_write_def storage_metadata_read_def fun_eq_iff
      split: option.splits)

lemma write_fields [simp]:
  "locks_index (storage_metadata_write f t m s) = locks_index s"
  "logical_blocks (storage_metadata_write f t m s) = logical_blocks s"
  "physical_blocks (storage_metadata_write f t m s) = physical_blocks s"
  "bitmap (storage_metadata_write f t m s) = bitmap s"
  "blk_mutex_list (storage_metadata_write f t m s) = blk_mutex_list s"
  "config_hash_index (storage_metadata_write f t m s) = config_hash_index s"
  "BLOCK_SIZE (storage_metadata_write f t m s) = BLOCK_SIZE s"
  "FS_SIZE (storage_metadata_write f t m s) = FS_SIZE s"
  "num_blocks (storage_metadata_write f t m s) = num_blocks s"
  "block_used (storage_metadata_write f t m s) = block_used s"
  by (auto simp: storage_metadata_write_def block_used_def num_blocks_def fun_eq_iff split: option.splits)

lemma fs_ok_write: "fs_ok M s \<Longrightarrow> fs_ok M (storage_metadata_write f t m s)"
  unfolding fs_ok_def disk_ok_def tree_ok_def mutex_ok_def num_blocks_def zero_block_def
  by (cases "ft_dirs s (f, t)") (auto simp: storage_metadata_write_def)

lemma ok_frame [simp, storage_frame]:
  "disk_ok (s\<lparr>blk_mutex_list := x1\<rparr>) = disk_ok s"
  "disk_ok (s\<lparr>logical_blocks := x2\<rparr>) = disk_ok s"
  "disk_ok (s\<lparr>locks_index := x3\<rparr>) = disk_ok s"
  "tree_ok M (s\<lparr>blk_mutex_list := x1\<rparr>) = tree_ok M s"
  "tree_ok M (s\<lparr>bitmap := x4\<rparr>) = tree_ok M s"
  "tree_ok M (s\<lparr>config_hash_index := x5\<rparr>) = tree_ok M s"
  "tree_ok M (s\<lparr>physical_blocks := x6\<rparr>) = tree_ok M s"
  "mutex_ok (s\<lparr>logical_blocks := x2\<rparr>) = mutex_ok s"
  "mutex_ok (s\<lparr>bitmap := x4\<rparr>) = mutex_ok s"
  "mutex_ok (s\<lparr>config_hash_index := x5\<rparr>) = mutex_ok s"
  "mutex_ok (s\<lparr>physical_blocks := x6\<rparr>) = mutex_ok s"
  "num_blocks (s\<lparr>blk_mutex_list := x1\<rparr>) = num_blocks s"
  "num_blocks (s\<lparr>logical_blocks := x2\<rparr>) = num_blocks s"
  "num_blocks (s\<lparr>locks_index := x3\<rparr>) = num_blocks s"
  "num_blocks (s\<lparr>bitmap := x4\<rparr>) = num_blocks s"
  "num_blocks (s\<lparr>config_hash_index := x5\<rparr>) = num_blocks s"
  "num_blocks (s\<lparr>physical_blocks := x6\<rparr>) = num_blocks s"
  "num_blocks (s\<lparr>ft_dirs := x7\<rparr>) = num_blocks s"
  "num_blocks (s\<lparr>file_dirs := x8\<rparr>) = num_blocks s"
  by (simp_all add: disk_ok_def tree_ok_def mutex_ok_def num_blocks_def zero_block_def)

lemma disk_ok_bitmap [simp]:
  "disk_ok s \<Longrightarrow> length B = length (bitmap s) \<Longrightarrow> disk_ok (s\<lparr>bitmap := B\<rparr>)"
  unfolding disk_ok_def zero_block_def num_blocks_def by simp

lemma link_block_ok:
  assumes "tree_ok M s" and "disk_ok s" and "M (f, t) = Some m"
    and "map_of (logical_blocks s) (f, t, i) = None" and "0 \<le> p" and "p < num_blocks s"
  shows "link_block p (f, t, i) s = (0, s\<lparr>logical_blocks := ((f, t, i), p) # logical_blocks s\<rparr>)"
proof -
  have "physical_blocks s p \<noteq> None"
    using assms(2,5,6) unfolding disk_ok_def by blast
  moreover have "M (f, t) = None \<longleftrightarrow> ft_dirs s (f, t) = None"
    using assms(1) unfolding tree_ok_def by blast
  then obtain d where "ft_dirs s (f, t) = Some d" using assms(3) by auto
  moreover from this have "logical_dir d"
    using assms(1) unfolding tree_ok_def by blast
  ultimately show ?thesis using assms(4) by (simp add: link_block_def)
qed

lemma stat_nlink_ok:
  assumes "disk_ok s" and "0 \<le> p" and "p < num_blocks s"
  shows "stat_nlink p s = Inr (1 + occurs (logical_blocks s) p)"
proof -
  have "physical_blocks s p \<noteq> None"
    using assms unfolding disk_ok_def by blast
  then show ?thesis by (simp add: stat_nlink_def)
qed

lemma mark_block_free_ok:
  assumes "disk_ok s" and "0 \<le> p" and "p < num_blocks s"
  shows "mark_block_free p s = Inr (s\<lparr>bitmap := (bitmap s)[nat p := False]\<rparr>)"
  using assms unfolding disk_ok_def mark_block_free_def by auto

section \<open>How a view's entries change with the block list\<close>

lemma entry_of_append:
  "M (f, t) = Some m \<Longrightarrow>
   entry_of (M((f, t) \<mapsto> m\<lparr>blocks := blocks m @ [b]\<rparr>)) =
   (entry_of M)((f, t, length (blocks m)) \<mapsto> atoi b)"
  by (auto simp: entry_of_def fun_eq_iff nth_append split: prod.splits option.splits)

lemma entry_of_butlast:
  "M (f, t) = Some m \<Longrightarrow> blocks m \<noteq> [] \<Longrightarrow>
   entry_of (M((f, t) \<mapsto> m\<lparr>blocks := butlast (blocks m)\<rparr>)) =
   (entry_of M)((f, t, length (blocks m) - 1) := None)"
  by (auto simp: entry_of_def fun_eq_iff nth_butlast split: prod.splits option.splits)

lemma entry_of_update:
  "M (f, t) = Some m \<Longrightarrow> i < length (blocks m) \<Longrightarrow>
   entry_of (M((f, t) \<mapsto> m\<lparr>blocks := (blocks m)[i := b]\<rparr>)) =
   (entry_of M)((f, t, i) \<mapsto> atoi b)"
  by (auto simp: entry_of_def fun_eq_iff nth_list_update split: prod.splits option.splits)

lemma entry_of_same_blocks:
  "M (f, t) = Some m \<Longrightarrow> blocks m' = blocks m \<Longrightarrow> entry_of (M((f, t) \<mapsto> m')) = entry_of M"
  by (auto simp: entry_of_def fun_eq_iff split: prod.splits option.splits)

lemma entry_of_at:
  "M (f, t) = Some m \<Longrightarrow> i < length (blocks m) \<Longrightarrow> entry_of M (f, t, i) = Some (atoi (blocks m ! i))"
  by (simp add: entry_of_def)

text \<open>Replacing one File:Tag's record together with its entries keeps the tree well-formed.\<close>

lemma tree_ok_replace:
  assumes "tree_ok M s" and "M (f, t) \<noteq> None"
    and "distinct (map fst L)" and "map_of L = entry_of (M((f, t) \<mapsto> m))"
    and "\<And>b. b \<in> set (blocks m) \<Longrightarrow> 0 \<le> atoi b \<and> atoi b < num_blocks s"
  shows "tree_ok (M((f, t) \<mapsto> m)) (s\<lparr>logical_blocks := L\<rparr>)"
proof -
  have d: "ft_dirs s (f, t) \<noteq> None"
    using assms(1,2) unfolding tree_ok_def by (metis (no_types))
  show ?thesis
    using assms(1,3,4,5) d unfolding tree_ok_def by (auto split: if_splits)
qed

lemma tree_ok_new:
  assumes tr: "tree_ok M s" and k: "M k = None"
    and m: "blocks m = []" and d: "logical_dir d" "metadata_config d \<noteq> None"
  shows "tree_ok (M(k \<mapsto> m)) (s\<lparr>file_dirs := x, ft_dirs := (ft_dirs s)(k \<mapsto> d)\<rparr>)"
proof -
  have "entry_of (M(k \<mapsto> m)) = entry_of M"
    using k m by (auto simp: entry_of_def fun_eq_iff split: prod.splits option.splits)
  moreover have "(M(k \<mapsto> m)) k' = None \<longleftrightarrow> ((ft_dirs s)(k \<mapsto> d)) k' = None" for k'
    using tr unfolding tree_ok_def by simp
  moreover have "logical_dir d' \<and> metadata_config d' \<noteq> None"
    if "((ft_dirs s)(k \<mapsto> d)) k' = Some d'" for k' d'
    using that tr d unfolding tree_ok_def by (cases "k' = k") auto
  moreover have "0 \<le> atoi b \<and> atoi b < num_blocks s"
    if "(M(k \<mapsto> m)) k' = Some m'" "b \<in> set (blocks m')" for k' m' b
    using that tr m unfolding tree_ok_def by (cases "k' = k") auto
  ultimately show ?thesis
    using tr unfolding tree_ok_def by simp
qed

lemma tree_ok_blocks:
  "tree_ok M s \<Longrightarrow> M k = Some m \<Longrightarrow> b \<in> set (blocks m) \<Longrightarrow> 0 \<le> atoi b \<and> atoi b < num_blocks s"
  unfolding tree_ok_def by blast

lemma tree_okD:
  assumes "tree_ok M s"
  shows "distinct (map fst (logical_blocks s))" and "map_of (logical_blocks s) = entry_of M"
    and "M k = None \<longleftrightarrow> ft_dirs s k = None"
  using assms unfolding tree_ok_def by (blast, auto)

section \<open>The loop bodies of TRUNCATE\<close>

lemma truncate_grow_step_ok:
  assumes ok: "fs_ok M s" and m: "M (f, t) = Some m"
  defines "m' \<equiv> m\<lparr>blocks := blocks m @ [''0'']\<rparr>"
    and "s' \<equiv> s\<lparr>logical_blocks := ((f, t, length (blocks m)), 0) # logical_blocks s\<rparr>"
  shows "truncate_grow_step f t (m, s) = Inr (m', s')" and "fs_ok (M((f, t) \<mapsto> m')) s'"
proof -
  note d = fs_okD(1)[OF ok] and tr = fs_okD(2)[OF ok] and mu = fs_okD(3)[OF ok]
  have n0: "0 < num_blocks s" using d by (rule num_blocks_pos)
  have free: "map_of (logical_blocks s) (f, t, length (blocks m)) = None"
    using m by (simp add: tree_okD(2)[OF tr] entry_of_def)
  let ?w = "s\<lparr>blk_mutex_list := (blk_mutex_list s)[0 := 0]\<rparr>"
  have w: "blk_wait 0 s = Inr ?w" using blk_wait_ok[OF mu, of 0] n0 by simp
  have l: "link_block 0 (f, t, length (blocks m)) ?w =
      (0, ?w\<lparr>logical_blocks := ((f, t, length (blocks m)), 0) # logical_blocks s\<rparr>)"
    using link_block_ok[of M ?w f t m "length (blocks m)" 0] tr d m free n0 by simp
  have p: "blk_post 0 (?w\<lparr>logical_blocks := ((f, t, length (blocks m)), 0) # logical_blocks s\<rparr>) = s'"
    using blk_post_held[OF mu, of 0 "?w\<lparr>logical_blocks := ((f, t, length (blocks m)), 0) # logical_blocks s\<rparr>"] n0
    by (simp add: s'_def)
  show "truncate_grow_step f t (m, s) = Inr (m', s')"
    by (simp add: truncate_grow_step_def w l p m'_def del: One_nat_def)
  have "tree_ok (M((f, t) \<mapsto> m')) s'"
    unfolding s'_def
  proof (rule tree_ok_replace[OF tr])
    show "map_of (((f, t, length (blocks m)), 0) # logical_blocks s) = entry_of (M((f, t) \<mapsto> m'))"
      unfolding m'_def entry_of_append[where M = M and f = f and t = t, OF m]
      by (simp add: tree_okD(2)[OF tr])
    show "distinct (map fst (((f, t, length (blocks m)), 0) # logical_blocks s))"
      using free tree_okD(1)[OF tr] by (simp add: map_of_eq_None_iff)
  qed (use m n0 tree_ok_blocks[OF tr m] in \<open>auto simp: m'_def\<close>)
  with d mu show "fs_ok (M((f, t) \<mapsto> m')) s'" by (simp add: fs_ok_def s'_def)
qed

text \<open>The frame of a step that only links, unlinks and frees: all other fields are kept.\<close>

definition only_alloc :: "storage \<Rightarrow> storage \<Rightarrow> bool" where
  "only_alloc s s' \<longleftrightarrow> (\<exists>L B. s' = s\<lparr>logical_blocks := L, bitmap := B\<rparr>)"

lemma only_alloc_refl [simp]: "only_alloc s s"
  unfolding only_alloc_def by (rule exI[of _ "logical_blocks s"], rule exI[of _ "bitmap s"]) simp

lemma only_alloc_trans: "only_alloc s1 s2 \<Longrightarrow> only_alloc s2 s3 \<Longrightarrow> only_alloc s1 s3"
  unfolding only_alloc_def by (elim exE) (simp, blast)

lemma only_allocI [simp]:
  "only_alloc s (s\<lparr>logical_blocks := L\<rparr>)"
  "only_alloc s (s\<lparr>logical_blocks := L, bitmap := B\<rparr>)"
  unfolding only_alloc_def by (rule exI[of _ L], rule exI[of _ "bitmap s"], simp) blast

lemma only_allocD:
  assumes "only_alloc s s'"
  shows "physical_blocks s' = physical_blocks s" and "ft_dirs s' = ft_dirs s"
    and "locks_index s' = locks_index s" and "BLOCK_SIZE s' = BLOCK_SIZE s"
    and "FS_SIZE s' = FS_SIZE s" and "config_hash_index s' = config_hash_index s"
    and "metas s' = metas s" and "num_blocks s' = num_blocks s"
    and "blk_mutex_list s' = blk_mutex_list s"
  using assms by (auto simp: only_alloc_def)

lemma block_used_clear:
  "0 \<le> b \<Longrightarrow> block_used (s\<lparr>bitmap := (bitmap s)[nat b := False]\<rparr>) p \<longleftrightarrow>
   block_used s p \<and> (p \<noteq> b \<or> int (length (bitmap s)) \<le> b)"
  by (cases "nat b < length (bitmap s)") (auto simp: block_used_def nth_list_update)

lemma block_used_set:
  "0 \<le> b \<Longrightarrow> block_used (s\<lparr>bitmap := (bitmap s)[nat b := True]\<rparr>) p \<longleftrightarrow>
   block_used s p \<or> p = b"
  by (cases "nat b < length (bitmap s)") (auto simp: block_used_def nth_list_update)

text \<open>
  Removing an entry and clearing the block's bit when nothing names it any more keeps every
  named block marked used.
\<close>

lemma alloc_safe_unlink:
  assumes safe: "alloc_safe s" and dist: "distinct (map fst (logical_blocks s))"
    and L: "L = AList.delete k (logical_blocks s)" and b: "b \<noteq> 0" "0 \<le> b"
    and none: "occurs L b = 0"
  shows "alloc_safe (s\<lparr>logical_blocks := L, bitmap := (bitmap s)[nat b := False]\<rparr>)"
proof -
  have "p \<noteq> b" if "map_of L k' = Some p" for k' p
    using that none occurs_pos_map_of[of L p] dist L by auto
  moreover have "map_of (logical_blocks s) k' = Some p" if "map_of L k' = Some p" for k' p
    using that L by (simp add: AList.delete_conv' split: if_splits)
  moreover have "block_used (s\<lparr>logical_blocks := L, bitmap := (bitmap s)[nat b := False]\<rparr>) p \<longleftrightarrow>
      block_used s p \<and> (p \<noteq> b \<or> int (length (bitmap s)) \<le> b)" for p
    using block_used_clear[OF b(2), of "s\<lparr>logical_blocks := L\<rparr>"] by simp
  ultimately show ?thesis
    using safe b(1) unfolding alloc_safe_def by simp blast
qed

lemma alloc_safe_delete:
  assumes "alloc_safe s"
  shows "alloc_safe (s\<lparr>logical_blocks := AList.delete k (logical_blocks s)\<rparr>)"
  using assms by (auto simp: alloc_safe_def AList.delete_conv' split: if_splits)

lemma map_of_delete: "map_of (AList.delete k al) = (map_of al)(k := None)"
  by (rule AList.delete_conv')

lemma truncate_shrink_step_ok:
  assumes ok: "fs_ok M s" and m: "M (f, t) = Some m" and ne: "blocks m \<noteq> []"
  defines "m' \<equiv> m\<lparr>blocks := butlast (blocks m)\<rparr>"
  shows "\<exists>s'. truncate_shrink_step f t (m, s) = Inr (m', s') \<and> fs_ok (M((f, t) \<mapsto> m')) s' \<and>
              only_alloc s s' \<and> (alloc_safe s \<longrightarrow> alloc_safe s')"
proof -
  note d = fs_okD(1)[OF ok] and tr = fs_okD(2)[OF ok] and mu = fs_okD(3)[OF ok]
  let ?i = "length (blocks m) - 1"
  let ?k = "(f, t, ?i)"
  define b where "b = atoi (blocks m ! ?i)"
  define L where "L = AList.delete ?k (logical_blocks s)"
  have b: "0 \<le> b" "b < num_blocks s"
    using fs_ok_block_range[OF ok m, of ?i] ne by (simp_all add: b_def)
  have at: "block_at m (int (length (blocks m)) - 1) = Inr b"
    using ne by (cases "length (blocks m)") (simp_all add: block_at_def b_def)
  have ni: "nat (int (length (blocks m)) - 1) = ?i" using ne by (cases "blocks m") simp_all
  let ?w = "s\<lparr>blk_mutex_list := (blk_mutex_list s)[nat b := 0]\<rparr>"
  let ?u = "?w\<lparr>logical_blocks := L\<rparr>"
  have u: "unlink_block ?k ?w = ?u" by (simp add: unlink_block_def L_def)
  have st: "stat_nlink b ?u = Inr (1 + occurs L b)"
    using stat_nlink_ok[of ?u b] d b by simp
  have fr: "mark_block_free b ?u = Inr (?u\<lparr>bitmap := (bitmap s)[nat b := False]\<rparr>)"
    using mark_block_free_ok[of ?u b] d b by simp
  define s' where "s' = (if b \<noteq> 0 \<and> occurs L b = 0
      then s\<lparr>logical_blocks := L, bitmap := (bitmap s)[nat b := False]\<rparr>
      else s\<lparr>logical_blocks := L\<rparr>)"
  have step: "truncate_shrink_step f t (m, s) = Inr (m', s')"
    using blk_wait_ok[OF mu b] u st fr at ni blk_post_held[OF mu b]
    by (auto simp: truncate_shrink_step_def s'_def m'_def Let_def)
  have "tree_ok (M((f, t) \<mapsto> m')) (s\<lparr>logical_blocks := L\<rparr>)"
  proof (rule tree_ok_replace[OF tr])
    show "map_of L = entry_of (M((f, t) \<mapsto> m'))"
      using entry_of_butlast[where M = M, OF m ne]
      by (simp add: L_def m'_def map_of_delete tree_okD(2)[OF tr])
    show "distinct (map fst L)" using tree_okD(1)[OF tr] by (simp add: L_def)
  qed (use m tree_ok_blocks[OF tr m] in \<open>auto simp: m'_def dest: in_set_butlastD\<close>)
  then have "fs_ok (M((f, t) \<mapsto> m')) s'"
    using d mu by (simp add: fs_ok_def s'_def)
  moreover have "alloc_safe s'" if "alloc_safe s"
    using alloc_safe_unlink[OF that tree_okD(1)[OF tr] L_def _ b(1)] alloc_safe_delete[OF that]
    by (auto simp: s'_def L_def)
  moreover have "only_alloc s s'" by (simp add: s'_def)
  ultimately show ?thesis using step by blast
qed

lemma alloc_safe_link:
  "alloc_safe s \<Longrightarrow> block_used s p \<Longrightarrow>
   alloc_safe (s\<lparr>logical_blocks := (k, p) # logical_blocks s\<rparr>)"
  by (auto simp: alloc_safe_def)

lemma fs_ok_same_blocks:
  assumes "fs_ok M s" and "M (f, t) = Some m" and "blocks m' = blocks m"
  shows "fs_ok (M((f, t) \<mapsto> m')) s"
proof -
  note tr = fs_okD(2)[OF assms(1)]
  have "tree_ok (M((f, t) \<mapsto> m')) (s\<lparr>logical_blocks := logical_blocks s\<rparr>)"
    by (rule tree_ok_replace[OF tr])
      (use assms tree_okD[OF tr] tree_ok_blocks[OF tr assms(2)]
        entry_of_same_blocks[where M = M, OF assms(2,3)] in auto)
  with assms(1) show ?thesis by (simp add: fs_ok_def)
qed

text \<open>The two loops of TRUNCATE as a whole.\<close>

lemma truncate_grow_ok:
  assumes ok: "fs_ok M s" and m: "M (f, t) = Some m"
  shows "\<exists>s'. repeatE n (truncate_grow_step f t) (m, s) =
                Inr (m\<lparr>blocks := blocks m @ replicate n ''0''\<rparr>, s') \<and>
              fs_ok (M((f, t) \<mapsto> m\<lparr>blocks := blocks m @ replicate n ''0''\<rparr>)) s' \<and>
              only_alloc s s' \<and> (alloc_safe s \<longrightarrow> alloc_safe s')"
proof -
  let ?m = "\<lambda>k. m\<lparr>blocks := blocks m @ replicate k ''0''\<rparr>"
  let ?P = "\<lambda>k ms. fst ms = ?m k \<and> fs_ok (M((f, t) \<mapsto> ?m k)) (snd ms) \<and>
      only_alloc s (snd ms) \<and> (alloc_safe s \<longrightarrow> alloc_safe (snd ms))"
  have mm: "M((f, t) \<mapsto> m) = M" using m by (auto simp: fun_eq_iff)
  have "\<exists>ms. repeatE n (truncate_grow_step f t) (m, s) = Inr ms \<and> ?P n ms"
  proof (rule repeatE_invariant[where P = ?P])
    show "?P 0 (m, s)" using ok mm by simp
  next
    fix k ms assume P: "?P k ms"
    obtain s1 where ms: "ms = (?m k, s1)" using P by (cases ms) simp
    let ?s2 = "s1\<lparr>logical_blocks := ((f, t, length (blocks (?m k))), 0) # logical_blocks s1\<rparr>"
    have e: "?m (Suc k) = (?m k)\<lparr>blocks := blocks (?m k) @ [''0'']\<rparr>"
      by (simp add: replicate_append_same)
    have ok1: "fs_ok (M((f, t) \<mapsto> ?m k)) s1" using P ms by simp
    have M1: "(M((f, t) \<mapsto> ?m k)) (f, t) = Some (?m k)" by simp
    note st = truncate_grow_step_ok[OF ok1 M1, folded e, unfolded fun_upd_upd]
    have "alloc_safe ?s2" if "alloc_safe s"
      using P ms that by (intro alloc_safe_link) (auto simp: alloc_safe_def)
    moreover have "only_alloc s ?s2"
      using P ms by (auto intro: only_alloc_trans only_allocI(1))
    ultimately show "\<exists>ms'. truncate_grow_step f t ms = Inr ms' \<and> ?P (Suc k) ms'"
      using st ms by (intro exI[of _ "(?m (Suc k), ?s2)"]) simp
  qed
  then show ?thesis by auto
qed

lemma truncate_shrink_ok:
  assumes ok: "fs_ok M s" and m: "M (f, t) = Some m" and n: "n \<le> length (blocks m)"
  shows "\<exists>s'. repeatE n (truncate_shrink_step f t) (m, s) =
                Inr (m\<lparr>blocks := take (length (blocks m) - n) (blocks m)\<rparr>, s') \<and>
              fs_ok (M((f, t) \<mapsto> m\<lparr>blocks := take (length (blocks m) - n) (blocks m)\<rparr>)) s' \<and>
              only_alloc s s' \<and> (alloc_safe s \<longrightarrow> alloc_safe s')"
proof -
  let ?m = "\<lambda>k. m\<lparr>blocks := take (length (blocks m) - k) (blocks m)\<rparr>"
  let ?P = "\<lambda>k ms. fst ms = ?m k \<and> fs_ok (M((f, t) \<mapsto> ?m k)) (snd ms) \<and>
      only_alloc s (snd ms) \<and> (alloc_safe s \<longrightarrow> alloc_safe (snd ms))"
  have mm: "M((f, t) \<mapsto> m) = M" using m by (auto simp: fun_eq_iff)
  have "\<exists>ms. repeatE n (truncate_shrink_step f t) (m, s) = Inr ms \<and> ?P n ms"
  proof (rule repeatE_invariant[where P = ?P])
    show "?P 0 (m, s)" using ok mm by simp
  next
    fix k ms assume k: "k < n" and P: "?P k ms"
    obtain s1 where ms: "ms = (?m k, s1)" using P by (cases ms) simp
    have ne: "blocks (?m k) \<noteq> []" using k n by auto
    have e: "?m (Suc k) = (?m k)\<lparr>blocks := butlast (blocks (?m k))\<rparr>"
      using k n by (simp add: butlast_take)
    have ok1: "fs_ok (M((f, t) \<mapsto> ?m k)) s1" using P ms by simp
    have M1: "(M((f, t) \<mapsto> ?m k)) (f, t) = Some (?m k)" by simp
    from truncate_shrink_step_ok[OF ok1 M1 ne, folded e, unfolded fun_upd_upd] obtain s2 where
      st: "truncate_shrink_step f t (?m k, s1) = Inr (?m (Suc k), s2)"
        "fs_ok (M((f, t) \<mapsto> ?m (Suc k))) s2" "only_alloc s1 s2"
        "alloc_safe s1 \<longrightarrow> alloc_safe s2" by auto
    with P ms show "\<exists>ms'. truncate_shrink_step f t ms = Inr ms' \<and> ?P (Suc k) ms'"
      by (intro exI[of _ "(?m (Suc k), s2)"]) (auto intro: only_alloc_trans)
  qed
  then show ?thesis by auto
qed

section \<open>Entering and leaving an operation\<close>

lemma fs_wfD:
  "fs_wf s \<Longrightarrow> fs_ok (metas s) s" "fs_wf s \<Longrightarrow> index_idle (locks_index s)"
  by (simp_all add: fs_wf_def)

definition held :: "string \<Rightarrow> string \<Rightarrow> storage \<Rightarrow> storage" where
  "held f t s = s\<lparr>locks_index := lock_held (f, t) (locks_index s)\<rparr>"

lemma wait_ok: "fs_wf s \<Longrightarrow> storage_wait f t s = Inr (held f t s)"
  by (simp add: fs_wf_def storage_wait_idle held_def)

lemma signal_ok:
  "fs_wf s \<Longrightarrow> locks_index s' = locks_index (held f t s) \<Longrightarrow>
   storage_signal f t s' = s'\<lparr>locks_index := locks_index s\<rparr>"
  by (simp add: fs_wf_def storage_signal_held held_def)

lemma signal_held [simp]: "fs_wf s \<Longrightarrow> storage_signal f t (held f t s) = s"
  using signal_ok[of s "held f t s" f t] by (simp add: held_def)

lemma held_frame [simp, storage_frame]:
  "metas (held f t s) = metas s"
  "storage_metadata_read f' t' (held f t s) = storage_metadata_read f' t' s"
  "fs_ok M (held f t s) = fs_ok M s"
  "alloc_safe (held f t s) = alloc_safe s"
  "BLOCK_SIZE (held f t s) = BLOCK_SIZE s"
  "num_blocks (held f t s) = num_blocks s"
  "physical_blocks (held f t s) = physical_blocks s"
  "config_hash_index (held f t s) = config_hash_index s"
  "logical_blocks (held f t s) = logical_blocks s"
  "bitmap (held f t s) = bitmap s"
  "block_used (held f t s) = block_used s"
  by (simp_all add: held_def)

text \<open>
  An operation that ends by writing the record in memory and signalling leaves a
  well-formed state.
\<close>

lemma finish_write:
  assumes wf: "fs_wf s" and ok: "fs_ok (M((f, t) \<mapsto> m)) s2" and M: "metas s2 = M"
    and m': "blocks m' = blocks m" and lk: "locks_index s2 = locks_index (held f t s)"
  shows "\<exists>s'. storage_signal f t (storage_metadata_write f t m' s2) = s' \<and> fs_wf s' \<and>
              metas s' = M((f, t) \<mapsto> m') \<and> physical_blocks s' = physical_blocks s2 \<and>
              config_hash_index s' = config_hash_index s2 \<and> BLOCK_SIZE s' = BLOCK_SIZE s2 \<and>
              block_used s' = block_used s2 \<and> (alloc_safe s2 \<longrightarrow> alloc_safe s')"
proof -
  have d: "ft_dirs s2 (f, t) \<noteq> None"
    using fs_okD(10)[OF ok, of "(f, t)"] by simp
  let ?s3 = "storage_metadata_write f t m' s2"
  have m3: "metas ?s3 = M((f, t) \<mapsto> m')" using metas_write[OF d] M by simp
  have "fs_ok ((M((f, t) \<mapsto> m))((f, t) \<mapsto> m')) ?s3"
    by (rule fs_ok_same_blocks[OF fs_ok_write[OF ok]]) (use m' in simp_all)
  then have "fs_ok (metas ?s3) ?s3" by (simp add: m3)
  moreover have "storage_signal f t ?s3 = ?s3\<lparr>locks_index := locks_index s\<rparr>"
    by (rule signal_ok[OF wf]) (simp add: lk)
  moreover have "alloc_safe ?s3" if "alloc_safe s2" using that by (simp add: alloc_safe_def)
  ultimately show ?thesis
    using fs_wfD(2)[OF wf] m3 by (simp add: fs_wf_def)
qed

end
