(* ===== verification/Storage_Spec.thy ===== *)
theory Storage_Spec
  imports Storage_Inv
begin

text \<open>
  What the storage module promises, without blocks, links, bitmaps or locks: a map from
  File:Tag to a size, a state and a list of block contents. \<open>abs_fs\<close> reads this view off
  the concrete state. The refinement theorems say that every operation, on a well-formed
  state, returns without a fault, keeps the state well-formed, and acts on the view as the
  abstract operation does: in particular a File:Tag that the operation does not name keeps
  its contents, although it may share physical blocks with the one it does.
\<close>

record afile =
  a_tamanio :: int
  a_estado :: string
  a_blocks :: "byte list list"

type_synonym afs = "ft_key \<rightharpoonup> afile"

definition block_content :: "(int \<rightharpoonup> byte list) \<Rightarrow> string \<Rightarrow> byte list" where
  "block_content ph b = (case ph (atoi b) of None \<Rightarrow> [] | Some c \<Rightarrow> c)"

definition file_view :: "(int \<rightharpoonup> byte list) \<Rightarrow> t_metadata_file \<Rightarrow> afile" where
  "file_view ph m =
     \<lparr>a_tamanio = tamanio m, a_estado = estado m, a_blocks = map (block_content ph) (blocks m)\<rparr>"

definition abs_view :: "(ft_key \<rightharpoonup> t_metadata_file) \<Rightarrow> (int \<rightharpoonup> byte list) \<Rightarrow> afs" where
  "abs_view M ph k = map_option (file_view ph) (M k)"

definition abs_fs :: "storage \<Rightarrow> afs" where
  "abs_fs s = abs_view (metas s) (physical_blocks s)"

definition a_commited :: "afile \<Rightarrow> bool" where
  "a_commited a \<longleftrightarrow> string_equals_ignore_case (a_estado a) COMMITED"

section \<open>The abstract operations\<close>

definition spec_create :: "ft_key \<Rightarrow> afs \<Rightarrow> rta_storage \<times> afs" where
  "spec_create k fs =
     (if fs k \<noteq> None then (ERR_PREEXISTENCIA, fs)
      else (OP_EXITOSA, fs(k \<mapsto> \<lparr>a_tamanio = 0, a_estado = WORK_IN_PROGRESS, a_blocks = []\<rparr>)))"

text \<open>The new block count is the size divided by the block size; new blocks read as zeros.\<close>

definition spec_truncate :: "byte list \<Rightarrow> int \<Rightarrow> ft_key \<Rightarrow> int \<Rightarrow> afs \<Rightarrow> rta_storage \<times> afs" where
  "spec_truncate zero bs k new_size fs =
     (case fs k of
        None \<Rightarrow> (ERR_INEXISTENCIA, fs)
      | Some a \<Rightarrow>
          if a_commited a then (ERR_WRITE_COMMITED, fs)
          else
            let n = nat (c_div new_size bs)
            in (OP_EXITOSA, fs(k \<mapsto> a\<lparr>a_tamanio := new_size,
                  a_blocks := take n (a_blocks a) @ replicate (n - length (a_blocks a)) zero\<rparr>)))"

definition spec_write :: "int \<Rightarrow> ft_key \<Rightarrow> int \<Rightarrow> byte list \<Rightarrow> afs \<Rightarrow> rta_storage \<times> afs" where
  "spec_write bs k l buf fs =
     (case fs k of
        None \<Rightarrow> (ERR_INEXISTENCIA, fs)
      | Some a \<Rightarrow>
          if a_commited a then (ERR_WRITE_COMMITED, fs)
          else if l < 0 \<or> int (length (a_blocks a)) \<le> l then (ERR_FUERA_LIMITE, fs)
          else (OP_EXITOSA, fs(k \<mapsto> a\<lparr>a_blocks := (a_blocks a)[nat l := take (nat bs) buf]\<rparr>)))"

definition spec_read :: "ft_key \<Rightarrow> int \<Rightarrow> afs \<Rightarrow> rta_storage \<times> byte list option" where
  "spec_read k l fs =
     (case fs k of
        None \<Rightarrow> (ERR_INEXISTENCIA, None)
      | Some a \<Rightarrow>
          if int (length (a_blocks a)) \<le> l then (ERR_FUERA_LIMITE, None)
          else (OP_EXITOSA, Some (a_blocks a ! nat l)))"

definition spec_commit :: "ft_key \<Rightarrow> afs \<Rightarrow> rta_storage \<times> afs" where
  "spec_commit k fs =
     (case fs k of
        None \<Rightarrow> (ERR_INEXISTENCIA, fs)
      | Some a \<Rightarrow> (OP_EXITOSA, fs(k \<mapsto> a\<lparr>a_estado := COMMITED\<rparr>)))"

text \<open>A TAG whose origin does not exist has already created the destination.\<close>

definition spec_tag :: "ft_key \<Rightarrow> ft_key \<Rightarrow> afs \<Rightarrow> rta_storage \<times> afs" where
  "spec_tag ko kn fs =
     (case spec_create kn fs of (r, fs1) \<Rightarrow>
        if r \<noteq> OP_EXITOSA then (r, fs1)
        else
          (case fs1 ko of
             None \<Rightarrow> (ERR_INEXISTENCIA, fs1)
           | Some a \<Rightarrow> (OP_EXITOSA, fs1(kn \<mapsto> a\<lparr>a_estado := WORK_IN_PROGRESS\<rparr>))))"

definition spec_delete :: "ft_key \<Rightarrow> afs \<Rightarrow> rta_storage \<times> afs" where
  "spec_delete k fs =
     (if string_equals_ignore_case (fst k) ''initial_file'' \<and>
         string_equals_ignore_case (snd k) ''BASE''
      then (NOT_DEF_ERR, fs)
      else
        (case fs k of
           None \<Rightarrow> (ERR_INEXISTENCIA, fs)
         | Some a \<Rightarrow> (OP_EXITOSA, fs(k := None))))"

section \<open>Reading the view\<close>

lemma abs_fs_None [simp]: "abs_fs s k = None \<longleftrightarrow> metas s k = None"
  by (simp add: abs_fs_def abs_view_def)

lemma abs_fs_absent: "metas s k = None \<Longrightarrow> abs_fs s k = None"
  by simp

lemma abs_fs_Some: "metas s k = Some m \<Longrightarrow> abs_fs s k = Some (file_view (physical_blocks s) m)"
  by (simp add: abs_fs_def abs_view_def)

lemma abs_fs_held [simp]: "abs_fs (held f t s) = abs_fs s"
  by (simp add: abs_fs_def)

lemma a_commited_view [simp]: "a_commited (file_view ph m) = is_commited m"
  by (simp add: a_commited_def file_view_def is_commited_def)

lemma length_view [simp]: "length (a_blocks (file_view ph m)) = length (blocks m)"
  by (simp add: file_view_def)

lemma abs_view_upd: "abs_view (M(k \<mapsto> m)) ph = (abs_view M ph)(k \<mapsto> file_view ph m)"
  by (auto simp: abs_view_def fun_eq_iff)

text \<open>Contents of the block a metadata string names, under the invariant.\<close>

lemma block_content_ok:
  assumes "fs_ok M s" and "M k = Some m" and "i < length (blocks m)"
  shows "physical_blocks s (atoi (blocks m ! i)) =
         Some (block_content (physical_blocks s) (blocks m ! i))"
proof -
  have "physical_blocks s (atoi (blocks m ! i)) \<noteq> None"
    using fs_okD(7)[OF assms(1)] fs_ok_block_range[OF assms] by blast
  then show ?thesis by (auto simp: block_content_def)
qed

lemma block_content_zero: "fs_ok M s \<Longrightarrow> block_content (physical_blocks s) ''0'' = zero_block s"
  by (simp add: block_content_def fs_ok_def disk_ok_def)

section \<open>CREATE\<close>

lemma storage_create_ok:
  assumes wf: "fs_wf s"
  shows "\<exists>r s'. storage_create f t s = Inr (r, s') \<and> fs_wf s' \<and>
           (alloc_safe s \<longrightarrow> alloc_safe s') \<and> (r, abs_fs s') = spec_create (f, t) (abs_fs s) \<and>
           config_hash_index s' = config_hash_index s \<and> physical_blocks s' = physical_blocks s \<and>
           block_used s' = block_used s \<and> BLOCK_SIZE s' = BLOCK_SIZE s \<and>
           num_blocks s' = num_blocks s"
proof -
  note ok = fs_wfD(1)[OF wf] and idle = fs_wfD(2)[OF wf]
  let ?s1 = "s\<lparr>file_dirs := insert f (file_dirs s)\<rparr>"
  show ?thesis
  proof (cases "ft_dirs s (f, t)")
    case (Some d)
    then have "metas s (f, t) \<noteq> None" using fs_okD(10)[OF ok, of "(f, t)"] by simp
    moreover have "storage_create f t s = Inr (ERR_PREEXISTENCIA, ?s1)"
      using Some by (simp add: storage_create_def)
    moreover have "fs_wf ?s1" using wf by (simp add: fs_wf_def)
    moreover have "abs_fs ?s1 = abs_fs s" by (simp add: abs_fs_def)
    ultimately show ?thesis by (simp add: spec_create_def)
  next
    case None
    define m where "m = \<lparr>tamanio = 0, blocks = [], estado = WORK_IN_PROGRESS\<rparr>"
    let ?d = "\<lparr>metadata_config = Some m, logical_dir = True\<rparr>"
    let ?s2 = "?s1\<lparr>ft_dirs := (ft_dirs s)((f, t) \<mapsto> ?d)\<rparr>"
    have cr: "storage_create f t s = Inr (OP_EXITOSA, add_lock f t ?s2)"
      using None by (simp add: storage_create_def storage_metadata_write_def Let_def m_def
          storage_metadata_read_def)
    have fv: "file_view ph m = \<lparr>a_tamanio = 0, a_estado = WORK_IN_PROGRESS, a_blocks = []\<rparr>" for ph
      by (simp add: file_view_def m_def)
    have M0: "metas s (f, t) = None" using None fs_okD(10)[OF ok, of "(f, t)"] by simp
    have me: "metas ?s2 = (metas s)((f, t) \<mapsto> m)"
      by (auto simp: metas_def fun_eq_iff storage_metadata_read_def)
    have "tree_ok ((metas s)((f, t) \<mapsto> m)) ?s2"
      using tree_ok_new[OF fs_okD(2)[OF ok] M0, of m ?d] by (simp add: m_def)
    moreover have "disk_ok ?s2" "mutex_ok ?s2"
      using fs_okD(1,3)[OF ok]
      by (simp_all add: disk_ok_def mutex_ok_def num_blocks_def zero_block_def)
    ultimately have ok2: "fs_ok (metas ?s2) ?s2" unfolding me fs_ok_def by blast
    obtain idx where add: "add_lock f t ?s2 = ?s2\<lparr>locks_index := idx\<rparr>"
      using add_lock_only by blast
    have "index_idle (locks_index (add_lock f t ?s2))"
      by (rule index_idle_add_lock) (use idle in simp)
    then have "fs_wf (add_lock f t ?s2)" using ok2 by (simp add: fs_wf_def add)
    moreover have "abs_fs (add_lock f t ?s2) =
        (abs_fs s)((f, t) \<mapsto> \<lparr>a_tamanio = 0, a_estado = WORK_IN_PROGRESS, a_blocks = []\<rparr>)"
      unfolding add abs_fs_def by (simp add: me abs_view_upd fv del: fun_upd_apply)
    ultimately show ?thesis
      using cr M0 by (simp add: spec_create_def add)
  qed
qed

end
