(* ===== verification/Storage_Write.thy ===== *)
theory Storage_Write
  imports Storage_Spec
begin

text \<open>
  Refinement of TRUNCATE, READ and WRITE: under the invariant each returns without a fault
  and acts on the abstract view as its specification says. WRITE carries the copy-on-write
  argument: a block shared with other logical entries, or the zero block, is replaced by a
  freshly allocated one, so no other File:Tag sees the change.
\<close>

section \<open>TRUNCATE\<close>

lemma storage_truncate_none:
  assumes wf: "fs_wf s" and "metas s (f, t) = None"
  shows "storage_truncate f t n s = Inr (ERR_INEXISTENCIA, s)"
  using assms by (simp add: storage_truncate_def wait_ok metas_read)

lemma storage_truncate_commited:
  assumes wf: "fs_wf s" and "metas s (f, t) = Some m" and "is_commited m"
  shows "storage_truncate f t n s = Inr (ERR_WRITE_COMMITED, s)"
  using assms by (simp add: storage_truncate_def wait_ok metas_read)

lemma storage_truncate_loops:
  assumes ok: "fs_ok M s" and m: "M (f, t) = Some m" and n: "0 \<le> n"
  shows "\<exists>m' s'.
     bindE (if n > int (length (blocks m))
            then repeatE (nat (n - int (length (blocks m)))) (truncate_grow_step f t) (m, s)
            else Inr (m, s)) (\<lambda>(m1, s).
     if n < int (length (blocks m))
     then repeatE (nat (int (length (blocks m)) - n)) (truncate_shrink_step f t) (m1, s)
     else Inr (m1, s)) = Inr (m', s') \<and>
     m' = m\<lparr>blocks := take (nat n) (blocks m)
                       @ replicate (nat n - length (blocks m)) ''0''\<rparr> \<and>
     fs_ok (M((f, t) \<mapsto> m')) s' \<and> only_alloc s s' \<and> (alloc_safe s \<longrightarrow> alloc_safe s')"
proof (cases "n > int (length (blocks m))")
  case True
  let ?k = "nat (n - int (length (blocks m)))"
  from truncate_grow_ok[OF ok m, of ?k] obtain s' where
    "repeatE ?k (truncate_grow_step f t) (m, s) =
       Inr (m\<lparr>blocks := blocks m @ replicate ?k ''0''\<rparr>, s')"
    "fs_ok (M((f, t) \<mapsto> m\<lparr>blocks := blocks m @ replicate ?k ''0''\<rparr>)) s'"
    "only_alloc s s'" "alloc_safe s \<longrightarrow> alloc_safe s'" by blast
  moreover have "?k = nat n - length (blocks m)" "take (nat n) (blocks m) = blocks m"
    using True by simp_all
  ultimately show ?thesis using True by (intro exI) simp
next
  case ge: False
  show ?thesis
  proof (cases "n < int (length (blocks m))")
    case True
    let ?k = "nat (int (length (blocks m)) - n)"
    have k: "?k \<le> length (blocks m)" using n by simp
    from truncate_shrink_ok[OF ok m k] obtain s' where
      "repeatE ?k (truncate_shrink_step f t) (m, s) =
         Inr (m\<lparr>blocks := take (length (blocks m) - ?k) (blocks m)\<rparr>, s')"
      "fs_ok (M((f, t) \<mapsto> m\<lparr>blocks := take (length (blocks m) - ?k) (blocks m)\<rparr>)) s'"
      "only_alloc s s'" "alloc_safe s \<longrightarrow> alloc_safe s'" by blast
    moreover have "length (blocks m) - ?k = nat n" using True n by simp
    ultimately show ?thesis using True ge by (intro exI) simp
  next
    case False
    then have "n = int (length (blocks m))" using ge by simp
    moreover have "M((f, t) \<mapsto> m) = M" using m by (auto simp: fun_eq_iff)
    ultimately show ?thesis using ok by (intro exI[of _ m] exI[of _ s]) simp
  qed
qed

lemma storage_truncate_ok:
  assumes wf: "fs_wf s" and size: "- BLOCK_SIZE s < n"
  shows "\<exists>r s'. storage_truncate f t n s = Inr (r, s') \<and> fs_wf s' \<and>
           (alloc_safe s \<longrightarrow> alloc_safe s') \<and>
           (r, abs_fs s') = spec_truncate (zero_block s) (BLOCK_SIZE s) (f, t) n (abs_fs s)"
proof -
  note ok = fs_wfD(1)[OF wf]
  consider (none) "metas s (f, t) = None"
    | (com) m where "metas s (f, t) = Some m" "is_commited m"
    | (wip) m where "metas s (f, t) = Some m" "\<not> is_commited m" by blast
  then show ?thesis
  proof cases
    case none
    then show ?thesis
      using storage_truncate_none[OF wf none] wf by (simp add: spec_truncate_def abs_fs_absent)
  next
    case com
    then show ?thesis
      using storage_truncate_commited[OF wf com] wf
      by (simp add: spec_truncate_def abs_fs_Some)
  next
    case wip
    let ?n = "c_div n (BLOCK_SIZE s)"
    have bs: "0 < BLOCK_SIZE s" by (rule fs_okD(4)[OF ok])
    have n0: "0 \<le> ?n"
    proof (cases "0 \<le> n")
      case True
      then show ?thesis using bs by (simp add: c_div_pos pos_imp_zdiv_nonneg_iff)
    next
      case False
      then have "\<bar>n\<bar> div \<bar>BLOCK_SIZE s\<bar> = 0" using size bs by (simp add: div_pos_pos_trivial)
      then show ?thesis by (simp add: c_div_def)
    qed
    have okh: "fs_ok (metas s) (held f t s)" using ok by simp
    from storage_truncate_loops[OF okh wip(1) n0] obtain m' s1 where L:
      "bindE (if ?n > int (length (blocks m))
            then repeatE (nat (?n - int (length (blocks m)))) (truncate_grow_step f t) (m, held f t s)
            else Inr (m, held f t s)) (\<lambda>(m1, s).
       if ?n < int (length (blocks m))
       then repeatE (nat (int (length (blocks m)) - ?n)) (truncate_shrink_step f t) (m1, s)
       else Inr (m1, s)) = Inr (m', s1)"
      and m': "m' = m\<lparr>blocks := take (nat ?n) (blocks m)
                       @ replicate (nat ?n - length (blocks m)) ''0''\<rparr>"
      and ok1: "fs_ok ((metas s)((f, t) \<mapsto> m')) s1" and oa: "only_alloc (held f t s) s1"
      and sa: "alloc_safe (held f t s) \<longrightarrow> alloc_safe s1" by blast
    from finish_write[OF wf ok1, of "m'\<lparr>tamanio := n\<rparr>"] only_allocD[OF oa]
    obtain s' where fin: "storage_signal f t
        (storage_metadata_write f t (m'\<lparr>tamanio := n\<rparr>) s1) = s'" "fs_wf s'"
        "metas s' = (metas s)((f, t) \<mapsto> m'\<lparr>tamanio := n\<rparr>)"
        "physical_blocks s' = physical_blocks s1" "alloc_safe s1 \<longrightarrow> alloc_safe s'"
      by auto
    have run: "storage_truncate f t n s = Inr (OP_EXITOSA, s')"
      using L fin(1) wip bs
      by (auto simp: storage_truncate_def wait_ok[OF wf] metas_read Let_def)
    have ph: "physical_blocks s' = physical_blocks s" using fin(4) only_allocD(1)[OF oa] by simp
    have "abs_fs s' = (abs_fs s)((f, t) \<mapsto>
        (file_view (physical_blocks s) m)\<lparr>a_tamanio := n,
          a_blocks := take (nat ?n) (a_blocks (file_view (physical_blocks s) m)) @
            replicate (nat ?n - length (blocks m)) (zero_block s)\<rparr>)"
      unfolding abs_fs_def fin(3) ph abs_view_upd m'
      by (simp add: file_view_def take_map block_content_zero[OF ok])
    then show ?thesis
      using run fin sa wip by (simp add: spec_truncate_def abs_fs_Some Let_def)
  qed
qed

section \<open>READ\<close>

text \<open>READ changes nothing; its only fault is the index that the bound check lets through.\<close>

lemma storage_read_result:
  assumes wf: "fs_wf s" and m: "metas s (f, t) = Some m"
    and l: "0 \<le> l" "l < int (length (blocks m))"
  shows "storage_read f t l s =
    Inr ((OP_EXITOSA, Some (block_content (physical_blocks s) (blocks m ! nat l))), s)"
proof -
  note ok = fs_wfD(1)[OF wf]
  let ?p = "atoi (blocks m ! nat l)"
  let ?c = "block_content (physical_blocks s) (blocks m ! nat l)"
  have i: "nat l < length (blocks m)" using l by simp
  have ph: "physical_blocks s ?p = Some ?c" by (rule block_content_ok[OF ok m i])
  have len: "length ?c = nat (BLOCK_SIZE s)" by (rule fs_okD(9)[OF ok ph])
  note p = fs_ok_block_range[OF ok m i]
  have mu: "mutex_ok s" by (rule fs_okD(3)[OF ok])
  have at: "block_at m l = Inr ?p" using l by (simp add: block_at_def)
  have post: "blk_post ?p (s\<lparr>blk_mutex_list := (blk_mutex_list s)[nat ?p := 0]\<rparr>) = s"
    using blk_post_held[OF mu p, of "s\<lparr>blk_mutex_list := (blk_mutex_list s)[nat ?p := 0]\<rparr>"] by simp
  show ?thesis
    using m at l len post ph blk_wait_ok[OF mu p] wf fs_okD(4)[OF ok]
    by (simp add: storage_read_def wait_ok metas_read Let_def)
qed

lemma storage_read_total:
  assumes wf: "fs_wf s"
  shows "storage_read f t l s =
    (if \<exists>m. metas s (f, t) = Some m \<and> (l < 0 \<or> l = int (length (blocks m)))
     then Inl NullDeref else Inr (spec_read (f, t) l (abs_fs s), s))"
proof (cases "metas s (f, t)")
  case None
  then show ?thesis
    using wf by (simp add: storage_read_def wait_ok metas_read spec_read_def abs_fs_absent)
next
  case (Some m)
  consider (bad) "l < 0 \<or> l = int (length (blocks m))" | (big) "int (length (blocks m)) < l"
    | (good) "0 \<le> l" "l < int (length (blocks m))" by linarith
  then show ?thesis
  proof cases
    case bad
    then show ?thesis
      using wf Some by (auto simp: storage_read_def wait_ok metas_read block_at_def)
  next
    case big
    then show ?thesis
      using wf Some by (simp add: storage_read_def wait_ok metas_read spec_read_def abs_fs_Some)
  next
    case good
    moreover have "nat l < length (blocks m)" using good by simp
    ultimately show ?thesis
      using storage_read_result[OF wf Some good] Some
      by (simp add: spec_read_def abs_fs_Some) (simp add: file_view_def)
  qed
qed

section \<open>WRITE\<close>

lemma write_absent:
  assumes wf: "fs_wf s" and "metas s (f, t) = None"
  shows "storage_write f t l buf s = Inr (ERR_INEXISTENCIA, s)"
  using assms by (simp add: storage_write_def wait_ok metas_read)

lemma write_commited:
  assumes wf: "fs_wf s" and "metas s (f, t) = Some m" and "is_commited m"
  shows "storage_write f t l buf s = Inr (ERR_WRITE_COMMITED, s)"
  using assms by (simp add: storage_write_def wait_ok metas_read)

lemma write_out_of_range:
  assumes wf: "fs_wf s" and "metas s (f, t) = Some m" and "\<not> is_commited m"
    and "l < 0 \<or> int (length (blocks m)) \<le> l"
  shows "storage_write f t l buf s = Inr (ERR_FUERA_LIMITE, s)"
  using assms by (simp add: storage_write_def wait_ok metas_read)

text \<open>The view when one block's contents change: only entries naming the block see it.\<close>

lemma block_content_upd:
  "block_content (ph(p \<mapsto> c)) b = (if atoi b = p then c else block_content ph b)"
  by (simp add: block_content_def)

lemma abs_view_phys:
  assumes own: "\<And>k'. entry_of M k' = Some p \<Longrightarrow> k' = (f, t, l)"
    and m: "M (f, t) = Some m" and l: "l < length (blocks m)" and p: "atoi (blocks m ! l) = p"
  shows "abs_view M (ph(p \<mapsto> c)) = (abs_view M ph)((f, t) \<mapsto>
           (file_view ph m)\<lparr>a_blocks := (a_blocks (file_view ph m))[l := c]\<rparr>)"
proof
  fix k
  have other: "atoi (blocks m' ! j) \<noteq> p"
    if "M (f', t') = Some m'" "j < length (blocks m')" "(f', t', j) \<noteq> (f, t, l)" for f' t' m' j
    using own[of "(f', t', j)"] entry_of_at[where M = M, OF that(1,2)] that(3) by auto
  show "abs_view M (ph(p \<mapsto> c)) k = ((abs_view M ph)((f, t) \<mapsto>
           (file_view ph m)\<lparr>a_blocks := (a_blocks (file_view ph m))[l := c]\<rparr>)) k"
  proof (cases "k = (f, t)")
    case True
    have "map (block_content (ph(p \<mapsto> c))) (blocks m) = (map (block_content ph) (blocks m))[l := c]"
      using other[OF m] l p
      by (intro nth_equalityI) (auto simp: block_content_upd nth_list_update simp del: fun_upd_apply)
    with True m show ?thesis by (simp add: abs_view_def file_view_def del: fun_upd_apply map_eq_conv) simp
  next
    case False
    obtain f' t' where k: "k = (f', t')" by (cases k)
    have "map (block_content (ph(p \<mapsto> c))) (blocks m') = map (block_content ph) (blocks m')"
      if "M k = Some m'" for m'
      using other[of f' t' m'] that False k
      by (intro nth_equalityI) (auto simp: block_content_upd simp del: fun_upd_apply map_eq_conv)
    with False show ?thesis by (cases "M k") (simp_all add: abs_view_def file_view_def)
  qed
qed

lemma disk_ok_phys:
  assumes "disk_ok s" and "0 < p" and "p < num_blocks s" and "length c = nat (BLOCK_SIZE s)"
  shows "disk_ok (s\<lparr>physical_blocks := (physical_blocks s)(p \<mapsto> c)\<rparr>)"
  using assms unfolding disk_ok_def num_blocks_def zero_block_def by (auto split: if_splits)

lemma fs_ok_phys:
  assumes "fs_ok M s" and "0 < p" and "p < num_blocks s" and "length c = nat (BLOCK_SIZE s)"
  shows "fs_ok M (s\<lparr>physical_blocks := (physical_blocks s)(p \<mapsto> c)\<rparr>)"
  using assms disk_ok_phys[of s p c] by (simp add: fs_ok_def)

text \<open>
  The copy branch reserves the least free block, moves the entry to it and rewrites the
  record; the semaphore it holds at the end is the new block's.
\<close>

lemma write_copy_ok:
  assumes ok: "fs_ok (metas s) s" and m: "metas s (f, t) = Some m" and l: "l < length (blocks m)"
    and q: "0 < q" "q < num_blocks s"
    and fr: "\<And>s1. bitmap s1 = bitmap s \<Longrightarrow>
               find_free_block s1 = (q, s1\<lparr>bitmap := (bitmap s)[nat q := True]\<rparr>)"
  defines "p \<equiv> atoi (blocks m ! l)"
    and "m' \<equiv> m\<lparr>blocks := (blocks m)[l := itoa q]\<rparr>"
  shows "\<exists>s'. write_copy f t (int l) p m (s\<lparr>blk_mutex_list := (blk_mutex_list s)[nat p := 0]\<rparr>) =
                Inr (q, s'\<lparr>blk_mutex_list := (blk_mutex_list s)[nat q := 0]\<rparr>) \<and>
              fs_ok ((metas s)((f, t) \<mapsto> m')) s' \<and> metas s' = (metas s)((f, t) \<mapsto> m') \<and>
              physical_blocks s' = physical_blocks s \<and> locks_index s' = locks_index s \<and>
              BLOCK_SIZE s' = BLOCK_SIZE s \<and> blk_mutex_list s' = blk_mutex_list s \<and>
              num_blocks s' = num_blocks s \<and> (alloc_safe s \<longrightarrow> alloc_safe s') \<and>
              config_hash_index s' = config_hash_index s"
proof -
  note d = fs_okD(1)[OF ok] and tr = fs_okD(2)[OF ok] and mu = fs_okD(3)[OF ok]
  let ?k = "(f, t, l)"
  let ?B = "(bitmap s)[nat q := True]" and ?D = "AList.delete ?k (logical_blocks s)"
  have p: "0 \<le> p" "p < num_blocks s"
    unfolding p_def by (rule fs_ok_block_range[OF ok m l])+
  have q0: "0 \<le> q" using q by simp
  have "ft_dirs s (f, t) \<noteq> None" using m tree_okD(3)[OF tr, of "(f, t)"] by simp
  then obtain dd where dd: "ft_dirs s (f, t) = Some dd" by blast
  let ?F = "(ft_dirs s)((f, t) \<mapsto> dd\<lparr>metadata_config := Some m'\<rparr>)"
  define s1 where "s1 = s\<lparr>bitmap := ?B, logical_blocks := ?D, ft_dirs := ?F\<rparr>"
  define s' where "s' = s1\<lparr>logical_blocks := (?k, q) # ?D\<rparr>"
  have s1: "storage_metadata_write f t m' (s\<lparr>bitmap := ?B, logical_blocks := ?D\<rparr>) = s1"
    by (simp add: storage_metadata_write_def dd s1_def)
  have me: "metas s1 = (metas s)((f, t) \<mapsto> m')"
    unfolding s1[symmetric] using metas_write[of "s\<lparr>bitmap := ?B, logical_blocks := ?D\<rparr>" f t m'] dd
    by simp
  have w1: "unlink_block ?k (s\<lparr>blk_mutex_list := (blk_mutex_list s)[nat p := 0], bitmap := ?B\<rparr>) =
      s\<lparr>blk_mutex_list := (blk_mutex_list s)[nat p := 0], bitmap := ?B, logical_blocks := ?D\<rparr>"
    by (simp add: unlink_block_def)
  have w2: "blk_post p (s\<lparr>blk_mutex_list := (blk_mutex_list s)[nat p := 0], bitmap := ?B,
        logical_blocks := ?D\<rparr>) =
      s\<lparr>bitmap := ?B, logical_blocks := ?D, blk_mutex_list := blk_mutex_list s\<rparr>"
    by (subst blk_post_held[OF mu p]) simp_all
  have w3: "blk_wait q s1 = Inr (s1\<lparr>blk_mutex_list := (blk_mutex_list s)[nat q := 0]\<rparr>)"
    using blk_wait_ok[of s1 q] mu q by (simp add: s1_def mutex_ok_def)
  have free: "map_of ?D ?k = None" by (simp add: map_of_delete)
  have "link_block q ?k (s1\<lparr>blk_mutex_list := (blk_mutex_list s)[nat q := 0]\<rparr>) =
      (0, s1\<lparr>blk_mutex_list := (blk_mutex_list s)[nat q := 0], logical_blocks := (?k, q) # ?D\<rparr>)"
  proof -
    have "physical_blocks s q \<noteq> None" using fs_okD(7)[OF ok, of q] q by simp
    moreover have "logical_dir dd" using fs_okD(11)[OF ok dd] by simp
    ultimately show ?thesis using free by (simp add: link_block_def s1_def)
  qed
  then have w4: "link_block q ?k (s1\<lparr>blk_mutex_list := (blk_mutex_list s)[nat q := 0]\<rparr>) =
      (0, s'\<lparr>blk_mutex_list := (blk_mutex_list s)[nat q := 0]\<rparr>)"
    unfolding s'_def by simp
  have run: "write_copy f t (int l) p m (s\<lparr>blk_mutex_list := (blk_mutex_list s)[nat p := 0]\<rparr>) =
      Inr (q, s'\<lparr>blk_mutex_list := (blk_mutex_list s)[nat q := 0]\<rparr>)"
    using q by (simp add: write_copy_def fr w1 w2 s1[unfolded m'_def] w3 w4 Let_def)
  have tr2: "tree_ok ((metas s)((f, t) \<mapsto> m')) (s\<lparr>logical_blocks := (?k, q) # ?D\<rparr>)"
  proof (rule tree_ok_replace[OF tr])
    show "map_of ((?k, q) # ?D) = entry_of ((metas s)((f, t) \<mapsto> m'))"
      unfolding m'_def entry_of_update[where M = "metas s" and f = f and t = t, OF m l]
      using q by (simp add: map_of_delete tree_okD(2)[OF tr])
    show "distinct (map fst ((?k, q) # ?D))"
      using tree_okD(1)[OF tr] free by (simp add: map_of_eq_None_iff)
  qed (use m q tree_ok_blocks[OF tr m] in \<open>auto simp: m'_def dest!: set_update_subset_insert[THEN subsetD]\<close>)
  have tr3: "tree_ok ((metas s)((f, t) \<mapsto> m')) s'"
  proof -
    have "ft_dirs s k = None \<longleftrightarrow> ?F k = None" for k using dd by auto
    moreover have "logical_dir d' \<and> metadata_config d' \<noteq> None" if "?F k = Some d'" for k d'
      using that fs_okD(11)[OF ok, of k] fs_okD(11)[OF ok dd] by (auto split: if_splits)
    ultimately show ?thesis
      using tr2 unfolding tree_ok_def s'_def s1_def by (simp del: fun_upd_apply map_of.simps)
  qed
  have "disk_ok s'" "mutex_ok s'"
    using d mu unfolding disk_ok_def mutex_ok_def num_blocks_def zero_block_def s'_def s1_def
    by simp_all
  with tr3 have ok': "fs_ok ((metas s)((f, t) \<mapsto> m')) s'" by (simp add: fs_ok_def)
  have bu: "block_used s' = block_used (s\<lparr>bitmap := ?B\<rparr>)"
    by (simp add: s'_def s1_def block_used_def fun_eq_iff)
  have "alloc_safe s'" if "alloc_safe s"
    using that block_used_set[OF q0, of s] unfolding alloc_safe_def bu
    by (auto simp: s'_def s1_def map_of_delete split: if_splits)
  moreover have "metas s' = (metas s)((f, t) \<mapsto> m')" unfolding s'_def using me by simp
  ultimately show ?thesis using run ok' by (intro exI[of _ s']) (simp add: s'_def s1_def)
qed

text \<open>The blocks an entry of another file names, when a free block or a private one is written.\<close>

lemma free_block_unnamed:
  assumes "alloc_safe s" and "\<not> block_used s q"
  shows "map_of (logical_blocks s) k \<noteq> Some q"
  using assms by (auto simp: alloc_safe_def)

lemma free_block_exists:
  assumes ok: "fs_ok M s" and free: "\<not> block_used s b" "0 < b" "b < num_blocks s"
  obtains q where "0 < q" "q < num_blocks s" "\<not> block_used s q"
    and "\<And>s1. bitmap s1 = bitmap s \<Longrightarrow>
           find_free_block s1 = (q, s1\<lparr>bitmap := (bitmap s)[nat q := True]\<rparr>)"
proof -
  obtain q s0 where a: "find_free_block s = (q, s0)" by force
  have q1: "q \<noteq> - 1"
    using a free by (auto dest: bm.alloc_full)
  from a q1 have f: "1 \<le> q" "q < int (length (bitmap s))" "\<not> bitmap s ! nat q"
    "\<forall>j. 1 \<le> j \<and> j < nat q \<longrightarrow> bitmap s ! j"
    by (simp_all add: find_free_block_Some)
  have "q \<le> b"
  proof (rule ccontr)
    assume "\<not> q \<le> b"
    then have "bitmap s ! nat b" using f(4) free(2) by simp
    with free(1) show False by (simp add: block_used_def)
  qed
  moreover have "\<not> block_used s q" using f by (simp add: block_used_def)
  moreover have "find_free_block s1 = (q, s1\<lparr>bitmap := (bitmap s)[nat q := True]\<rparr>)"
    if "bitmap s1 = bitmap s" for s1
    using f q1 that by (simp add: find_free_block_Some)
  ultimately show ?thesis using that[of q] f(1) free(3) by simp
qed

text \<open>The last part of WRITE, common to both branches.\<close>

lemma finish_phys:
  assumes wf: "fs_wf s" and ok: "fs_ok (metas s1) s1" and lk: "locks_index s1 = locks_index (held f t s)"
    and p: "0 < p" "p < num_blocks s1" and buf: "BLOCK_SIZE s1 \<le> int (length buf)"
    and s2: "s2 = s1\<lparr>blk_mutex_list := (blk_mutex_list s1)[nat p := 0]\<rparr>"
  shows "\<exists>s'. bindE (write_physical p buf s2) (\<lambda>s.
                 Inr (OP_EXITOSA, storage_signal f t (blk_post p s))) = Inr (OP_EXITOSA, s') \<and>
              fs_wf s' \<and> metas s' = metas s1 \<and>
              physical_blocks s' = (physical_blocks s1)(p \<mapsto> take (nat (BLOCK_SIZE s1)) buf) \<and>
              BLOCK_SIZE s' = BLOCK_SIZE s1 \<and> config_hash_index s' = config_hash_index s1 \<and>
              (alloc_safe s1 \<longrightarrow> alloc_safe s')"
proof -
  note mu = fs_okD(3)[OF ok]
  let ?c = "take (nat (BLOCK_SIZE s1)) buf"
  let ?s3 = "s1\<lparr>physical_blocks := (physical_blocks s1)(p \<mapsto> ?c)\<rparr>"
  have w: "write_physical p buf s2 = Inr (s2\<lparr>physical_blocks := (physical_blocks s1)(p \<mapsto> ?c)\<rparr>)"
    using buf by (simp add: write_physical_def s2)
  have post: "blk_post p (s2\<lparr>physical_blocks := (physical_blocks s1)(p \<mapsto> ?c)\<rparr>) = ?s3"
    by (subst blk_post_held[OF mu _ p(2)]) (use p in \<open>simp_all add: s2\<close>)
  have sg: "storage_signal f t ?s3 = ?s3\<lparr>locks_index := locks_index s\<rparr>"
    by (rule signal_ok[OF wf]) (simp add: lk)
  have "fs_ok (metas s1) ?s3"
    by (rule fs_ok_phys[OF ok p]) (use buf in simp)
  then have "fs_wf (?s3\<lparr>locks_index := locks_index s\<rparr>)"
    using fs_wfD(2)[OF wf] by (simp add: fs_wf_def)
  then show ?thesis
    by (intro exI[of _ "?s3\<lparr>locks_index := locks_index s\<rparr>"]) (simp add: w post sg)
qed

lemma occurs_le_one:
  assumes "fs_ok M s" and "M (f, t) = Some m" and "l < length (blocks m)"
    and "occurs (logical_blocks s) (atoi (blocks m ! l)) \<le> 1"
    and "entry_of M k = Some (atoi (blocks m ! l))"
  shows "k = (f, t, l)"
proof (rule ccontr)
  note tr = fs_okD(2)[OF assms(1)]
  assume "k \<noteq> (f, t, l)"
  then have "2 \<le> occurs (logical_blocks s) (atoi (blocks m ! l))"
    using occurs_two_keys[OF tree_okD(1)[OF tr], of k "atoi (blocks m ! l)" "(f, t, l)"]
      assms(5) entry_of_at[where M = M, OF assms(2,3)] by (simp add: tree_okD(2)[OF tr])
  with assms(4) show False by simp
qed

lemma write_in_place:
  assumes wf: "fs_wf s" and m: "metas s (f, t) = Some m" and wip: "\<not> is_commited m"
    and l: "l < length (blocks m)" and buf: "BLOCK_SIZE s \<le> int (length buf)"
    and p: "atoi (blocks m ! l) \<noteq> 0" and sole: "occurs (logical_blocks s) (atoi (blocks m ! l)) \<le> 1"
  shows "\<exists>s'. storage_write f t (int l) buf s = Inr (OP_EXITOSA, s') \<and> fs_wf s' \<and>
              (alloc_safe s \<longrightarrow> alloc_safe s') \<and>
              abs_fs s' = (abs_fs s)((f, t) \<mapsto> (file_view (physical_blocks s) m)\<lparr>a_blocks :=
                (a_blocks (file_view (physical_blocks s) m))[l := take (nat (BLOCK_SIZE s)) buf]\<rparr>)"
proof -
  note ok = fs_wfD(1)[OF wf]
  note mu = fs_okD(3)[OF ok] and d = fs_okD(1)[OF ok]
  let ?p = "atoi (blocks m ! l)" and ?h = "held f t s"
  note pr = fs_ok_block_range[OF ok m l]
  have okh: "fs_ok (metas ?h) ?h" using ok by simp
  let ?w = "?h\<lparr>blk_mutex_list := (blk_mutex_list ?h)[nat ?p := 0]\<rparr>"
  have w: "blk_wait ?p ?h = Inr ?w"
    by (rule blk_wait_ok) (use fs_okD(3)[OF okh] pr in simp_all)
  have "disk_ok ?w" using fs_okD(1)[OF okh] by simp
  then have st: "stat_nlink ?p ?w = Inr (1 + occurs (logical_blocks s) ?p)"
    using stat_nlink_ok[of ?w ?p] pr by simp
  have at: "block_at m (int l) = Inr ?p" using l by (simp add: block_at_def)
  from finish_phys[OF wf okh refl, of ?p buf ?w] pr p buf obtain s' where
    fin: "bindE (write_physical ?p buf ?w) (\<lambda>s.
            Inr (OP_EXITOSA, storage_signal f t (blk_post ?p s))) = Inr (OP_EXITOSA, s')"
      "fs_wf s'" "metas s' = metas s" "alloc_safe s \<longrightarrow> alloc_safe s'"
      "physical_blocks s' = (physical_blocks s)(?p \<mapsto> take (nat (BLOCK_SIZE s)) buf)"
    by auto
  have run: "storage_write f t (int l) buf s = Inr (OP_EXITOSA, s')"
    using fin(1) w st at wip m l p sole
    by (auto simp: storage_write_def wait_ok[OF wf] metas_read)
  have "abs_fs s' = (abs_fs s)((f, t) \<mapsto> (file_view (physical_blocks s) m)\<lparr>a_blocks :=
        (a_blocks (file_view (physical_blocks s) m))[l := take (nat (BLOCK_SIZE s)) buf]\<rparr>)"
    unfolding abs_fs_def fin(3,5)
    using abs_view_phys[where M = "metas s", OF _ m l refl] occurs_le_one[OF ok m l sole] by blast
  with run fin show ?thesis by blast
qed

lemma write_by_copy:
  assumes wf: "fs_wf s" and m: "metas s (f, t) = Some m" and wip: "\<not> is_commited m"
    and l: "l < length (blocks m)" and buf: "BLOCK_SIZE s \<le> int (length buf)"
    and shared: "atoi (blocks m ! l) = 0 \<or> 2 \<le> occurs (logical_blocks s) (atoi (blocks m ! l))"
    and safe: "alloc_safe s" and free: "\<not> block_used s b" "0 < b" "b < num_blocks s"
  shows "\<exists>s'. storage_write f t (int l) buf s = Inr (OP_EXITOSA, s') \<and> fs_wf s' \<and> alloc_safe s' \<and>
              abs_fs s' = (abs_fs s)((f, t) \<mapsto> (file_view (physical_blocks s) m)\<lparr>a_blocks :=
                (a_blocks (file_view (physical_blocks s) m))[l := take (nat (BLOCK_SIZE s)) buf]\<rparr>)"
proof -
  note ok = fs_wfD(1)[OF wf]
  let ?p = "atoi (blocks m ! l)" and ?h = "held f t s"
  note pr = fs_ok_block_range[OF ok m l]
  have okh: "fs_ok (metas ?h) ?h" using ok by simp
  let ?w = "?h\<lparr>blk_mutex_list := (blk_mutex_list ?h)[nat ?p := 0]\<rparr>"
  have w: "blk_wait ?p ?h = Inr ?w"
    by (rule blk_wait_ok) (use fs_okD(3)[OF okh] pr in simp_all)
  have "disk_ok ?w" using fs_okD(1)[OF okh] by simp
  then have st: "stat_nlink ?p ?w = Inr (1 + occurs (logical_blocks s) ?p)"
    using stat_nlink_ok[of ?w ?p] pr by simp
  have at: "block_at m (int l) = Inr ?p" using l by (simp add: block_at_def)
  obtain q where q: "0 < q" "q < num_blocks s" "\<not> block_used s q"
    and fr: "\<And>s1. bitmap s1 = bitmap s \<Longrightarrow>
           find_free_block s1 = (q, s1\<lparr>bitmap := (bitmap s)[nat q := True]\<rparr>)"
    using free_block_exists[OF ok free] by blast
  let ?m = "m\<lparr>blocks := (blocks m)[l := itoa q]\<rparr>"
  let ?M = "(metas s)((f, t) \<mapsto> ?m)"
  have mh: "metas ?h (f, t) = Some m" using m by simp
  from write_copy_ok[OF okh mh l, of q] q fr obtain s1 where c:
    "write_copy f t (int l) ?p m ?w = Inr (q, s1\<lparr>blk_mutex_list := (blk_mutex_list ?h)[nat q := 0]\<rparr>)"
    "fs_ok ?M s1" "metas s1 = ?M" "physical_blocks s1 = physical_blocks s"
    "locks_index s1 = locks_index ?h" "BLOCK_SIZE s1 = BLOCK_SIZE s"
    "blk_mutex_list s1 = blk_mutex_list ?h" "num_blocks s1 = num_blocks s"
    "alloc_safe s \<longrightarrow> alloc_safe s1" by auto
  have ok1: "fs_ok (metas s1) s1" using c(2,3) by simp
  let ?w1 = "s1\<lparr>blk_mutex_list := (blk_mutex_list s1)[nat q := 0]\<rparr>"
  from finish_phys[OF wf ok1 c(5), of q buf ?w1] q buf c obtain s' where
    fin: "bindE (write_physical q buf ?w1) (\<lambda>s.
            Inr (OP_EXITOSA, storage_signal f t (blk_post q s))) = Inr (OP_EXITOSA, s')"
      "fs_wf s'" "metas s' = ?M" "alloc_safe s'"
      "physical_blocks s' = (physical_blocks s)(q \<mapsto> take (nat (BLOCK_SIZE s)) buf)"
    using safe by auto
  have run: "storage_write f t (int l) buf s = Inr (OP_EXITOSA, s')"
    using fin(1) w st at wip m l shared c(1,7)
    by (auto simp: storage_write_def wait_ok[OF wf] metas_read)
  have own: "k' = (f, t, l)" if "entry_of ?M k' = Some q" for k'
  proof (rule ccontr)
    assume "k' \<noteq> (f, t, l)"
    then have "map_of (logical_blocks s) k' = Some q"
      using that entry_of_update[where M = "metas s", OF m l, of "itoa q"] q
      by (simp add: tree_okD(2)[OF fs_okD(2)[OF ok]])
    with free_block_unnamed[OF safe q(3)] show False by simp
  qed
  let ?c = "take (nat (BLOCK_SIZE s)) buf"
  have "abs_fs s' = (abs_view ?M (physical_blocks s))((f, t) \<mapsto>
      (file_view (physical_blocks s) ?m)\<lparr>a_blocks :=
         (a_blocks (file_view (physical_blocks s) ?m))[l := ?c]\<rparr>)"
    unfolding abs_fs_def fin(3,5)
    using abs_view_phys[where M = ?M and p = q, OF own, of ?m] l q by simp
  also have "\<dots> = (abs_fs s)((f, t) \<mapsto> (file_view (physical_blocks s) m)\<lparr>a_blocks :=
                (a_blocks (file_view (physical_blocks s) m))[l := ?c]\<rparr>)"
    unfolding abs_view_upd abs_fs_def by (simp add: file_view_def map_update)
  finally show ?thesis using run fin by blast
qed

text \<open>
  With a free block on disk every WRITE returns, and acts as the abstract write does: no
  other File:Tag and no other block of this one changes, whatever they share.
\<close>

lemma storage_write_ok:
  assumes wf: "fs_wf s" and safe: "alloc_safe s" and buf: "BLOCK_SIZE s \<le> int (length buf)"
    and free: "\<not> block_used s b" "0 < b" "b < num_blocks s"
  shows "\<exists>r s'. storage_write f t l buf s = Inr (r, s') \<and> fs_wf s' \<and> alloc_safe s' \<and>
           (r, abs_fs s') = spec_write (BLOCK_SIZE s) (f, t) l buf (abs_fs s)"
proof -
  consider (none) "metas s (f, t) = None"
    | (com) m where "metas s (f, t) = Some m" "is_commited m"
    | (out) m where "metas s (f, t) = Some m" "\<not> is_commited m" "l < 0 \<or> int (length (blocks m)) \<le> l"
    | (wr) m where "metas s (f, t) = Some m" "\<not> is_commited m" "0 \<le> l" "l < int (length (blocks m))"
    by (metis not_le option.exhaust)
  then show ?thesis
  proof cases
    case none
    then show ?thesis
      using write_absent[OF wf none] wf safe by (simp add: spec_write_def abs_fs_absent)
  next
    case com
    then show ?thesis
      using write_commited[OF wf com] wf safe by (simp add: spec_write_def abs_fs_Some)
  next
    case out
    then show ?thesis
      using write_out_of_range[OF wf out] wf safe by (auto simp add: spec_write_def abs_fs_Some)
  next
    case wr
    then obtain i where i: "l = int i" "i < length (blocks m)" by (metis nonneg_int_cases of_nat_less_iff)
    have "\<exists>s'. storage_write f t (int i) buf s = Inr (OP_EXITOSA, s') \<and> fs_wf s' \<and> alloc_safe s' \<and>
              abs_fs s' = (abs_fs s)((f, t) \<mapsto> (file_view (physical_blocks s) m)\<lparr>a_blocks :=
                (a_blocks (file_view (physical_blocks s) m))[i := take (nat (BLOCK_SIZE s)) buf]\<rparr>)"
    proof (cases "atoi (blocks m ! i) = 0 \<or> 2 \<le> occurs (logical_blocks s) (atoi (blocks m ! i))")
      case True
      then show ?thesis using write_by_copy[OF wf wr(1,2) i(2) buf _ safe free] by blast
    next
      case False
      then have "atoi (blocks m ! i) \<noteq> 0" "occurs (logical_blocks s) (atoi (blocks m ! i)) \<le> 1" by auto
      then show ?thesis using write_in_place[OF wf wr(1,2) i(2) buf] safe by blast
    qed
    then show ?thesis
      using wr i by (auto simp: spec_write_def abs_fs_Some)
  qed
qed

text \<open>Without a free bit the copy branch runs into the second \<open>free\<close> of \<open>phys_path\<close>.\<close>

lemma write_no_space:
  assumes wf: "fs_wf s" and m: "metas s (f, t) = Some m" and wip: "\<not> is_commited m"
    and l: "l < length (blocks m)"
    and shared: "atoi (blocks m ! l) = 0 \<or> 2 \<le> occurs (logical_blocks s) (atoi (blocks m ! l))"
    and full: "\<forall>i. 1 \<le> i \<and> i < length (bitmap s) \<longrightarrow> bitmap s ! i"
  shows "storage_write f t (int l) buf s = Inl DoubleFree"
proof -
  note ok = fs_wfD(1)[OF wf]
  let ?p = "atoi (blocks m ! l)" and ?h = "held f t s"
  note pr = fs_ok_block_range[OF ok m l]
  have okh: "fs_ok (metas ?h) ?h" using ok by simp
  let ?w = "?h\<lparr>blk_mutex_list := (blk_mutex_list ?h)[nat ?p := 0]\<rparr>"
  have w: "blk_wait ?p ?h = Inr ?w"
    by (rule blk_wait_ok) (use fs_okD(3)[OF okh] pr in simp_all)
  have "disk_ok ?w" using fs_okD(1)[OF okh] by simp
  then have st: "stat_nlink ?p ?w = Inr (1 + occurs (logical_blocks s) ?p)"
    using stat_nlink_ok[of ?w ?p] pr by simp
  have at: "block_at m (int l) = Inr ?p" using l by (simp add: block_at_def)
  have "find_free_block ?w = (- 1, ?w)"
    using full by (simp add: find_free_block_None held_def)
  then show ?thesis
    using w st at wip m l shared
    by (auto simp: storage_write_def wait_ok[OF wf] metas_read write_copy_def)
qed

end
