(* ===== verification/Storage_Commit.thy ===== *)
theory Storage_Commit
  imports Storage_Write
begin

text \<open>
  COMMIT: the deduplication loop. Under a sound hash index and a hash without collisions on
  the disk's contents, no File:Tag's contents change, the File:Tag becomes COMMITED and the
  index stays sound. That every block in use stays marked used needs \<open>commit_safe\<close>: the
  loop frees the block it replaces without looking at its link count.
\<close>

section \<open>The hash index\<close>

definition idx_sound :: "(byte list \<Rightarrow> string) \<Rightarrow> storage \<Rightarrow> bool" where
  "idx_sound md5 s \<longleftrightarrow>
     (\<forall>h name. config_hash_index s h = Some name \<longrightarrow>
        (\<exists>p c. name = block_name p \<and> 0 \<le> p \<and> physical_blocks s p = Some c \<and> md5 c = h))"

definition idx_used :: "storage \<Rightarrow> bool" where
  "idx_used s \<longleftrightarrow>
     (\<forall>h name. config_hash_index s h = Some name \<longrightarrow> block_used s (atoi (drop 5 name)))"

definition no_collision :: "(byte list \<Rightarrow> string) \<Rightarrow> storage \<Rightarrow> bool" where
  "no_collision md5 s \<longleftrightarrow>
     (\<forall>p p' c c'. physical_blocks s p = Some c \<longrightarrow> physical_blocks s p' = Some c' \<longrightarrow>
        md5 c = md5 c' \<longrightarrow> c = c')"

text \<open>
  From position \<open>k\<close> on, a block that will be replaced is named by no other entry.
\<close>

definition commit_safe ::
    "(byte list \<Rightarrow> string) \<Rightarrow> storage \<Rightarrow> t_metadata_file \<Rightarrow> nat \<Rightarrow> bool" where
  "commit_safe md5 s m k \<longleftrightarrow>
     (\<forall>j. k \<le> j \<and> j < length (blocks m) \<longrightarrow>
        (let p = atoi (blocks m ! j);
             hash = (\<lambda>i. md5 (block_content (physical_blocks s) (blocks m ! i)))
         in p = 0 \<or> occurs (logical_blocks s) p \<le> 1 \<or>
            config_hash_index s (hash j) = Some (block_name p) \<or>
            config_hash_index s (hash j) = None \<and>
              (\<forall>i. k \<le> i \<and> i < j \<and> hash i = hash j \<longrightarrow> atoi (blocks m ! i) = p)))"

lemma idx_soundE:
  assumes "idx_sound md5 s" and "config_hash_index s h = Some name"
  obtains p c where "name = block_name p" "0 \<le> p" "atoi (drop 5 name) = p"
    "physical_blocks s p = Some c" "md5 c = h"
  using assms unfolding idx_sound_def using atoi_block_name by blast

lemma block_name_inj: "block_name p = block_name q \<Longrightarrow> 0 \<le> p \<Longrightarrow> 0 \<le> q \<Longrightarrow> p = q"
  using atoi_block_name by metis

lemma get_hash_from_block_ok:
  assumes ok: "fs_ok M s" and m: "M (f, t) = Some m" and i: "i < length (blocks m)"
    and s1: "logical_blocks s1 = logical_blocks s" "physical_blocks s1 = physical_blocks s"
      "BLOCK_SIZE s1 = BLOCK_SIZE s"
  shows "get_hash_from_block md5 f t i s1 =
         Inr (md5 (block_content (physical_blocks s) (blocks m ! i)))"
proof -
  let ?c = "block_content (physical_blocks s) (blocks m ! i)"
  have ph: "physical_blocks s (atoi (blocks m ! i)) = Some ?c" by (rule block_content_ok[OF ok m i])
  have len: "length ?c = nat (BLOCK_SIZE s)" by (rule fs_okD(9)[OF ok ph])
  have "map_of (logical_blocks s) (f, t, i) = Some (atoi (blocks m ! i))"
    using fs_okD(6)[OF ok] entry_of_at[where M = M, OF m i] by simp
  then show ?thesis
    using ph len s1 fs_okD(4)[OF ok]
    by (simp add: get_hash_from_block_def get_hash_from_content_def)
qed

section \<open>One block\<close>

text \<open>What every iteration leaves as it was.\<close>

definition commit_frame :: "storage \<Rightarrow> storage \<Rightarrow> bool" where
  "commit_frame s s' \<longleftrightarrow>
     physical_blocks s' = physical_blocks s \<and> locks_index s' = locks_index s \<and>
     BLOCK_SIZE s' = BLOCK_SIZE s \<and> FS_SIZE s' = FS_SIZE s \<and> abs_fs s' = abs_fs s"

lemma commit_frame_refl [simp]: "commit_frame s s"
  by (simp add: commit_frame_def)

lemma commit_frame_trans: "commit_frame s1 s2 \<Longrightarrow> commit_frame s2 s3 \<Longrightarrow> commit_frame s1 s3"
  by (simp add: commit_frame_def)

definition commit_pre :: "(byte list \<Rightarrow> string) \<Rightarrow> string \<Rightarrow> string \<Rightarrow> storage \<Rightarrow> bool" where
  "commit_pre md5 f t s \<longleftrightarrow> alloc_safe s \<and> idx_used s \<and>
     (case metas s (f, t) of None \<Rightarrow> True | Some m \<Rightarrow> commit_safe md5 s m 0)"

definition commit_inv :: "(byte list \<Rightarrow> string) \<Rightarrow> string \<Rightarrow> string \<Rightarrow> storage \<Rightarrow> nat
    \<Rightarrow> t_metadata_file \<times> storage \<Rightarrow> bool" where
  "commit_inv md5 f t s0 k = (\<lambda>(m, s).
     fs_ok (metas s) s \<and> metas s (f, t) = Some m \<and> idx_sound md5 s \<and> commit_frame s0 s \<and>
     (commit_pre md5 f t s0 \<longrightarrow> alloc_safe s \<and> idx_used s \<and> commit_safe md5 s m k))"

lemma commit_invI:
  assumes "fs_ok (metas s) s" and "metas s (f, t) = Some m" and "idx_sound md5 s"
    and "commit_frame s0 s"
    and "commit_pre md5 f t s0 \<Longrightarrow> alloc_safe s"
    and "commit_pre md5 f t s0 \<Longrightarrow> idx_used s"
    and "commit_pre md5 f t s0 \<Longrightarrow> commit_safe md5 s m k"
  shows "commit_inv md5 f t s0 k (m, s)"
  using assms by (simp add: commit_inv_def)

lemma commit_invD:
  assumes "commit_inv md5 f t s0 k (m, s)"
  shows "fs_ok (metas s) s" and "metas s (f, t) = Some m" and "idx_sound md5 s"
    and "commit_frame s0 s" and "commit_pre md5 f t s0 \<Longrightarrow> alloc_safe s"
    and "commit_pre md5 f t s0 \<Longrightarrow> idx_used s"
    and "commit_pre md5 f t s0 \<Longrightarrow> commit_safe md5 s m k"
  using assms by (simp_all add: commit_inv_def)

text \<open>The content is not in the index: the block becomes the one indexed.\<close>

lemma commit_step_new:
  fixes md5 :: "byte list \<Rightarrow> string"
  assumes ok: "fs_ok (metas s) s" and m: "metas s (f, t) = Some m" and i: "i < length (blocks m)"
  defines "p \<equiv> atoi (blocks m ! i)"
    and "h \<equiv> md5 (block_content (physical_blocks s) (blocks m ! i))"
  assumes new: "config_hash_index s h = None"
  shows "commit_step md5 f t i (m, s) =
         Inr (m, s\<lparr>config_hash_index := (config_hash_index s)(h \<mapsto> block_name p)\<rparr>)"
proof -
  note mu = fs_okD(3)[OF ok]
  have pr: "0 \<le> p" "p < num_blocks s"
    unfolding p_def by (rule fs_ok_block_range[OF ok m i])+
  let ?w = "s\<lparr>blk_mutex_list := (blk_mutex_list s)[nat p := 0]\<rparr>"
  have h: "get_hash_from_block md5 f t i ?w = Inr h"
    unfolding h_def by (rule get_hash_from_block_ok[OF ok m i]) simp_all
  have "blk_post p (?w\<lparr>config_hash_index := (config_hash_index s)(h \<mapsto> block_name p)\<rparr>) =
      s\<lparr>config_hash_index := (config_hash_index s)(h \<mapsto> block_name p)\<rparr>"
    by (subst blk_post_held[OF mu pr]) simp_all
  moreover have "block_at m (int i) = Inr p" using i by (simp add: block_at_def p_def)
  ultimately show ?thesis
    using blk_wait_ok[OF mu pr] h new
    by (simp add: commit_step_def block_asocied_to_eq load_hash_in_index_def remove_hash_def
        hash_is_loaded_def Let_def)
qed

lemma commit_step_same:
  fixes md5 :: "byte list \<Rightarrow> string"
  assumes ok: "fs_ok (metas s) s" and m: "metas s (f, t) = Some m" and i: "i < length (blocks m)"
  defines "p \<equiv> atoi (blocks m ! i)"
    and "h \<equiv> md5 (block_content (physical_blocks s) (blocks m ! i))"
  assumes idx: "config_hash_index s h = Some name" "atoi (drop 5 name) = p"
  shows "commit_step md5 f t i (m, s) = Inr (m, s)"
proof -
  note mu = fs_okD(3)[OF ok]
  have pr: "0 \<le> p" "p < num_blocks s"
    unfolding p_def by (rule fs_ok_block_range[OF ok m i])+
  let ?w = "s\<lparr>blk_mutex_list := (blk_mutex_list s)[nat p := 0]\<rparr>"
  have h: "get_hash_from_block md5 f t i ?w = Inr h"
    unfolding h_def by (rule get_hash_from_block_ok[OF ok m i]) simp_all
  have "blk_post p ?w = s" by (subst blk_post_held[OF mu pr]) simp_all
  moreover have "block_at m (int i) = Inr p" using i by (simp add: block_at_def p_def)
  ultimately show ?thesis
    using blk_wait_ok[OF mu pr] h idx
    by (simp add: commit_step_def block_asocied_to_eq Let_def)
qed

text \<open>Moving one entry to another existing block, in the listing and in the record.\<close>

lemma relink_ok:
  assumes ok: "fs_ok (metas s) s" and m: "metas s (f, t) = Some m" and l: "l < length (blocks m)"
    and q: "0 \<le> q" "q < num_blocks s" and B: "length B = length (bitmap s)"
  defines "m' \<equiv> m\<lparr>blocks := (blocks m)[l := itoa q]\<rparr>"
    and "L \<equiv> ((f, t, l), q) # AList.delete (f, t, l) (logical_blocks s)"
  defines "s' \<equiv> storage_metadata_write f t m' (s\<lparr>logical_blocks := L, bitmap := B\<rparr>)"
  shows "metas s' = (metas s)((f, t) \<mapsto> m')" and "fs_ok (metas s') s'"
proof -
  note d = fs_okD(1)[OF ok] and tr = fs_okD(2)[OF ok] and mu = fs_okD(3)[OF ok]
  have dd: "ft_dirs s (f, t) \<noteq> None" using m tree_okD(3)[OF tr, of "(f, t)"] by simp
  show me: "metas s' = (metas s)((f, t) \<mapsto> m')"
    unfolding s'_def using metas_write[of "s\<lparr>logical_blocks := L, bitmap := B\<rparr>" f t m'] dd by simp
  have free: "map_of (AList.delete (f, t, l) (logical_blocks s)) (f, t, l) = None"
    by (simp add: map_of_delete)
  have "tree_ok ((metas s)((f, t) \<mapsto> m')) (s\<lparr>logical_blocks := L\<rparr>)"
  proof (rule tree_ok_replace[OF tr])
    show "map_of L = entry_of ((metas s)((f, t) \<mapsto> m'))"
      unfolding m'_def entry_of_update[where M = "metas s" and f = f and t = t, OF m l]
      using q by (simp add: L_def map_of_delete tree_okD(2)[OF tr])
    show "distinct (map fst L)"
      using tree_okD(1)[OF tr] free by (simp add: L_def map_of_eq_None_iff)
  qed (use m q tree_ok_blocks[OF tr m] in \<open>auto simp: m'_def dest!: set_update_subset_insert[THEN subsetD]\<close>)
  moreover have "disk_ok (s\<lparr>logical_blocks := L, bitmap := B\<rparr>)"
    using d B by (intro disk_ok_bitmap) simp_all
  ultimately have "fs_ok ((metas s)((f, t) \<mapsto> m')) (s\<lparr>logical_blocks := L, bitmap := B\<rparr>)"
    using mu by (simp add: fs_ok_def)
  then show "fs_ok (metas s') s'" unfolding me unfolding s'_def by (rule fs_ok_write)
qed

lemma commit_step_dedup:
  fixes md5 :: "byte list \<Rightarrow> string"
  assumes ok: "fs_ok (metas s) s" and m: "metas s (f, t) = Some m" and i: "i < length (blocks m)"
  defines "p \<equiv> atoi (blocks m ! i)"
    and "h \<equiv> md5 (block_content (physical_blocks s) (blocks m ! i))"
  assumes idx: "config_hash_index s h = Some name" "atoi (drop 5 name) = q"
    and q: "q \<noteq> p" "0 \<le> q" "q < num_blocks s"
  defines "m' \<equiv> m\<lparr>blocks := (blocks m)[i := itoa q]\<rparr>"
    and "B \<equiv> (if p \<noteq> 0 then (bitmap s)[nat p := False] else bitmap s)"
    and "L \<equiv> ((f, t, i), q) # AList.delete (f, t, i) (logical_blocks s)"
  shows "commit_step md5 f t i (m, s) =
    Inr (m', storage_metadata_write f t m' (s\<lparr>logical_blocks := L, bitmap := B\<rparr>))"
proof -
  note d = fs_okD(1)[OF ok] and tr = fs_okD(2)[OF ok] and mu = fs_okD(3)[OF ok]
  let ?k = "(f, t, i)" and ?D = "AList.delete (f, t, i) (logical_blocks s)"
  have pr: "0 \<le> p" "p < num_blocks s"
    unfolding p_def by (rule fs_ok_block_range[OF ok m i])+
  let ?w = "s\<lparr>blk_mutex_list := (blk_mutex_list s)[nat p := 0]\<rparr>"
  let ?u = "s\<lparr>logical_blocks := ?D\<rparr>"
  have h: "get_hash_from_block md5 f t i ?w = Inr h"
    unfolding h_def by (rule get_hash_from_block_ok[OF ok m i]) simp_all
  have w1: "blk_post p (unlink_block ?k ?w) = ?u"
    by (subst blk_post_held[OF mu pr]) (simp_all add: unlink_block_def)
  have muu: "mutex_ok ?u" using mu by simp
  have w2: "blk_wait q ?u = Inr (?u\<lparr>blk_mutex_list := (blk_mutex_list s)[nat q := 0]\<rparr>)"
    using blk_wait_ok[OF muu q(2)] q(3) by simp
  have free: "map_of ?D ?k = None" by (simp add: map_of_delete)
  have w3: "link_block q ?k (?u\<lparr>blk_mutex_list := (blk_mutex_list s)[nat q := 0]\<rparr>) =
      (0, s\<lparr>blk_mutex_list := (blk_mutex_list s)[nat q := 0], logical_blocks := L\<rparr>)"
  proof -
    have "physical_blocks s q \<noteq> None" using fs_okD(7)[OF ok, of q] q by simp
    moreover have "ft_dirs s (f, t) \<noteq> None" using m tree_okD(3)[OF tr, of "(f, t)"] by simp
    then obtain dd where "ft_dirs s (f, t) = Some dd" by blast
    moreover from this have "logical_dir dd" using fs_okD(11)[OF ok] by blast
    ultimately show ?thesis using free by (simp add: link_block_def L_def)
  qed
  have w4: "blk_post q (s\<lparr>blk_mutex_list := (blk_mutex_list s)[nat q := 0], logical_blocks := L\<rparr>) =
      s\<lparr>logical_blocks := L\<rparr>"
    by (subst blk_post_held[OF mu q(2,3)]) simp_all
  have w5: "(if p \<noteq> 0 then mark_block_free p (s\<lparr>logical_blocks := L\<rparr>)
      else Inr (s\<lparr>logical_blocks := L\<rparr>)) = Inr (s\<lparr>logical_blocks := L, bitmap := B\<rparr>)"
    using mark_block_free_ok[of "s\<lparr>logical_blocks := L\<rparr>" p] d pr by (simp add: B_def)
  have at: "block_at m (int i) = Inr p" using i by (simp add: block_at_def p_def)
  show ?thesis
    unfolding commit_step_def block_asocied_to_eq Let_def
    using blk_wait_ok[OF mu pr] h idx q(1) w1 w2 w3 w4 w5 at
    by (cases "p = 0") (simp_all add: m'_def)
qed

section \<open>The loop\<close>

lemma commit_inv_new:
  assumes inv: "commit_inv md5 f t s0 i (m, s)" and i: "i < length (blocks m)"
  defines "p \<equiv> atoi (blocks m ! i)"
    and "h \<equiv> md5 (block_content (physical_blocks s) (blocks m ! i))"
  assumes new: "config_hash_index s h = None"
  shows "commit_inv md5 f t s0 (Suc i)
    (m, s\<lparr>config_hash_index := (config_hash_index s)(h \<mapsto> block_name p)\<rparr>)"
proof -
  let ?s = "s\<lparr>config_hash_index := (config_hash_index s)(h \<mapsto> block_name p)\<rparr>"
  note ok = commit_invD(1)[OF inv] and m = commit_invD(2)[OF inv]
    and snd = commit_invD(3)[OF inv] and fr = commit_invD(4)[OF inv]
  note pr = fs_ok_block_range[OF ok m i, folded p_def]
  have "disk_ok ?s"
    using fs_okD(1)[OF ok] pr unfolding disk_ok_def num_blocks_def zero_block_def
    by (auto split: if_splits)
  then have r1: "fs_ok (metas ?s) ?s" using ok by (simp add: fs_ok_def)
  have r2: "idx_sound md5 ?s"
    using snd block_content_ok[OF ok m i] pr(1)
    unfolding idx_sound_def by (auto simp: p_def h_def split: if_splits)
  have "abs_fs ?s = abs_fs s" by (simp add: abs_fs_def)
  then have r3: "commit_frame s0 ?s" using fr by (simp add: commit_frame_def)
  have r4: "idx_used ?s" if "alloc_safe s" "idx_used s"
  proof -
    have "map_of (logical_blocks s) (f, t, i) = Some p"
      using fs_okD(6)[OF ok] entry_of_at[where M = "metas s", OF m i] by (simp add: p_def)
    then have "block_used s p" using that(1) by (auto simp: alloc_safe_def)
    then show ?thesis using that(2) pr(1) by (simp add: idx_used_def atoi_block_name)
  qed
  have r5: "commit_safe md5 ?s m (Suc i)" if "commit_safe md5 s m i"
    unfolding commit_safe_def Let_def
  proof (intro allI impI)
    fix j assume j: "Suc i \<le> j \<and> j < length (blocks m)"
    let ?h = "md5 (block_content (physical_blocks s) (blocks m ! j))"
    have c: "atoi (blocks m ! j) = 0 \<or> occurs (logical_blocks s) (atoi (blocks m ! j)) \<le> 1 \<or>
        config_hash_index s ?h = Some (block_name (atoi (blocks m ! j))) \<or>
        config_hash_index s ?h = None \<and>
        (\<forall>n. i \<le> n \<and> n < j \<and> md5 (block_content (physical_blocks s) (blocks m ! n)) = ?h \<longrightarrow>
             atoi (blocks m ! n) = atoi (blocks m ! j))"
      using that j unfolding commit_safe_def Let_def by simp
    show "atoi (blocks m ! j) = 0 \<or> occurs (logical_blocks ?s) (atoi (blocks m ! j)) \<le> 1 \<or>
        config_hash_index ?s (md5 (block_content (physical_blocks ?s) (blocks m ! j))) =
          Some (block_name (atoi (blocks m ! j))) \<or>
        config_hash_index ?s (md5 (block_content (physical_blocks ?s) (blocks m ! j))) = None \<and>
        (\<forall>n. Suc i \<le> n \<and> n < j \<and> md5 (block_content (physical_blocks ?s) (blocks m ! n)) =
            md5 (block_content (physical_blocks ?s) (blocks m ! j)) \<longrightarrow>
             atoi (blocks m ! n) = atoi (blocks m ! j))"
    proof (cases "?h = h")
      case True
      then have n: "config_hash_index s ?h = None" using new by simp
      have "i \<le> i \<and> i < j \<and> md5 (block_content (physical_blocks s) (blocks m ! i)) = ?h"
        using j True by (simp add: h_def)
      moreover have "config_hash_index s ?h \<noteq> Some (block_name (atoi (blocks m ! j)))"
        using n by simp
      ultimately have "atoi (blocks m ! j) = 0 \<or> occurs (logical_blocks s) (atoi (blocks m ! j)) \<le> 1 \<or>
          p = atoi (blocks m ! j)" using c unfolding p_def by blast
      moreover have "config_hash_index ?s ?h = Some (block_name p)" using True by simp
      ultimately show ?thesis by auto
    next
      case False
      then have e: "config_hash_index ?s ?h = config_hash_index s ?h" by simp
      have p: "physical_blocks ?s = physical_blocks s" "logical_blocks ?s = logical_blocks s"
        by simp_all
      show ?thesis unfolding e p using c by (meson Suc_leD)
    qed
  qed
  show ?thesis
    by (rule commit_invI[OF r1 _ r2 r3]) (use m commit_invD(5-7)[OF inv] r4 r5 in simp_all)
qed

lemma commit_inv_same:
  assumes inv: "commit_inv md5 f t s0 i (m, s)"
  shows "commit_inv md5 f t s0 (Suc i) (m, s)"
proof -
  have "commit_safe md5 s m (Suc i)" if "commit_safe md5 s m i"
    using that unfolding commit_safe_def Let_def by (meson Suc_leD)
  then show ?thesis
    by (intro commit_invI) (use commit_invD[OF inv] in blast)+
qed

lemma file_view_relink:
  assumes "block_content ph (itoa q) = block_content ph (blocks m ! i)"
  shows "file_view ph (m\<lparr>blocks := (blocks m)[i := itoa q]\<rparr>) = file_view ph m"
proof -
  have "map (block_content ph) ((blocks m)[i := itoa q]) = map (block_content ph) (blocks m)"
    by (cases "i < length (blocks m)")
      (use assms in \<open>auto simp: map_update list_update_same_conv list_update_beyond\<close>)
  then show ?thesis by (simp add: file_view_def)
qed

text \<open>The block at the position that is replaced has, when allocation is safe, no other name.\<close>

lemma commit_safe_replaced:
  assumes safe: "commit_safe md5 s m i" and i: "i < length (blocks m)"
    and idx: "config_hash_index s (md5 (block_content (physical_blocks s) (blocks m ! i))) =
                Some (block_name q)" and q: "0 \<le> q" "0 \<le> atoi (blocks m ! i)" "q \<noteq> atoi (blocks m ! i)"
  shows "atoi (blocks m ! i) = 0 \<or> occurs (logical_blocks s) (atoi (blocks m ! i)) \<le> 1"
  using safe[unfolded commit_safe_def Let_def, rule_format, of i] i idx q block_name_inj[of q]
  by auto

lemma relink_alloc_safe:
  assumes ok: "fs_ok M s" and m: "M (f, t) = Some m" and i: "i < length (blocks m)"
    and safe: "alloc_safe s" and q: "block_used s q" "q \<noteq> atoi (blocks m ! i)"
    and sole: "atoi (blocks m ! i) = 0 \<or> occurs (logical_blocks s) (atoi (blocks m ! i)) \<le> 1"
  shows "alloc_safe (s\<lparr>logical_blocks := ((f, t, i), q) # AList.delete (f, t, i) (logical_blocks s),
      bitmap := if atoi (blocks m ! i) \<noteq> 0
                then (bitmap s)[nat (atoi (blocks m ! i)) := False] else bitmap s\<rparr>)"
proof -
  let ?p = "atoi (blocks m ! i)" and ?k = "(f, t, i)"
  let ?D = "AList.delete ?k (logical_blocks s)"
  have mp: "map_of (logical_blocks s) ?k = Some ?p"
    using fs_okD(6)[OF ok] entry_of_at[where M = M, OF m i] by simp
  have p0: "0 \<le> ?p" by (rule fs_ok_block_range[OF ok m i])
  have dist: "distinct (map fst (logical_blocks s))" by (rule fs_okD(5)[OF ok])
  show ?thesis
  proof (cases "?p = 0")
    case True
    have "alloc_safe (s\<lparr>logical_blocks := ?D\<rparr>)" by (rule alloc_safe_delete[OF safe])
    then show ?thesis using alloc_safe_link[of "s\<lparr>logical_blocks := ?D\<rparr>" q ?k] q True by simp
  next
    case False
    let ?s = "s\<lparr>logical_blocks := ?D, bitmap := (bitmap s)[nat ?p := False]\<rparr>"
    have "occurs ?D ?p = 0" using occurs_delete[OF dist mp, of ?p] sole False by simp
    then have "alloc_safe ?s" by (rule alloc_safe_unlink[OF safe dist refl False p0])
    moreover have "block_used ?s q"
      using block_used_clear[OF p0, of "s\<lparr>logical_blocks := ?D\<rparr>" q] q by simp
    ultimately have "alloc_safe (?s\<lparr>logical_blocks := (?k, q) # logical_blocks ?s\<rparr>)"
      by (rule alloc_safe_link)
    moreover have "?s\<lparr>logical_blocks := (?k, q) # logical_blocks ?s\<rparr> =
        s\<lparr>logical_blocks := (?k, q) # ?D,
          bitmap := if ?p \<noteq> 0 then (bitmap s)[nat ?p := False] else bitmap s\<rparr>"
      using False by simp
    ultimately show ?thesis by (rule back_subst[of alloc_safe])
  qed
qed

lemma occurs_relink:
  assumes "distinct (map fst L)" and "map_of L k = Some p"
  shows "occurs ((k, q) # AList.delete k L) u =
         occurs L u - (if u = p then 1 else 0) + (if u = q then 1 else 0)"
  using occurs_delete[OF assms, of u] by auto

lemma commit_safe_relink:
  assumes ok: "fs_ok M s" and m: "M (f, t) = Some m" and i: "i < length (blocks m)"
    and safe: "commit_safe md5 s m i"
    and idx: "config_hash_index s (md5 (block_content (physical_blocks s) (itoa q))) = Some (block_name q)"
    and s': "logical_blocks s' = ((f, t, i), q) # AList.delete (f, t, i) (logical_blocks s)"
      "physical_blocks s' = physical_blocks s" "config_hash_index s' = config_hash_index s"
  shows "commit_safe md5 s' (m\<lparr>blocks := (blocks m)[i := b]\<rparr>) (Suc i)"
  unfolding commit_safe_def Let_def
proof (intro allI impI)
  fix j
  let ?m = "m\<lparr>blocks := (blocks m)[i := b]\<rparr>"
  let ?h = "\<lambda>n. md5 (block_content (physical_blocks s) (blocks m ! n))"
  let ?p = "atoi (blocks m ! j)"
  assume "Suc i \<le> j \<and> j < length (blocks ?m)"
  then have j: "i < j" "j < length (blocks m)" by simp_all
  have same: "blocks ?m ! n = blocks m ! n" if "i < n" for n using that by simp
  have mp: "map_of (logical_blocks s) (f, t, i) = Some (atoi (blocks m ! i))"
    using fs_okD(6)[OF ok] entry_of_at[where M = M, OF m i] by simp
  have oc: "occurs (logical_blocks s') ?p \<le> occurs (logical_blocks s) ?p" if "?p \<noteq> q"
    using that occurs_relink[OF fs_okD(5)[OF ok] mp, of q ?p] s'(1) by simp
  have c: "?p = 0 \<or> occurs (logical_blocks s) ?p \<le> 1 \<or>
      config_hash_index s (?h j) = Some (block_name ?p) \<or>
      config_hash_index s (?h j) = None \<and>
      (\<forall>n. i \<le> n \<and> n < j \<and> ?h n = ?h j \<longrightarrow> atoi (blocks m ! n) = ?p)"
    using safe j unfolding commit_safe_def Let_def by simp
  have "?p = 0 \<or> occurs (logical_blocks s') ?p \<le> 1 \<or>
      config_hash_index s (?h j) = Some (block_name ?p) \<or>
      config_hash_index s (?h j) = None \<and>
      (\<forall>n. Suc i \<le> n \<and> n < j \<and> ?h n = ?h j \<longrightarrow> atoi (blocks m ! n) = ?p)"
  proof (cases "?p = q")
    case True
    then have "?h j = md5 (block_content (physical_blocks s) (itoa q))"
      using atoi_itoa[of q] fs_ok_block_range(1)[OF ok m j(2)] by (simp add: block_content_def)
    then show ?thesis using idx True by simp
  next
    case False
    show ?thesis using c oc[OF False] by (meson Suc_leD le_trans)
  qed
  then show "atoi (blocks ?m ! j) = 0 \<or> occurs (logical_blocks s') (atoi (blocks ?m ! j)) \<le> 1 \<or>
      config_hash_index s' (md5 (block_content (physical_blocks s') (blocks ?m ! j))) =
        Some (block_name (atoi (blocks ?m ! j))) \<or>
      config_hash_index s' (md5 (block_content (physical_blocks s') (blocks ?m ! j))) = None \<and>
      (\<forall>n. Suc i \<le> n \<and> n < j \<and> md5 (block_content (physical_blocks s') (blocks ?m ! n)) =
          md5 (block_content (physical_blocks s') (blocks ?m ! j)) \<longrightarrow>
        atoi (blocks ?m ! n) = atoi (blocks ?m ! j))"
    unfolding s' same[OF j(1)] using same by (metis Suc_le_lessD)
qed

lemma commit_inv_dedup:
  assumes inv: "commit_inv md5 f t s0 i (m, s)" and i: "i < length (blocks m)"
    and nc: "no_collision md5 s"
  defines "p \<equiv> atoi (blocks m ! i)"
    and "h \<equiv> md5 (block_content (physical_blocks s) (blocks m ! i))"
  assumes idx: "config_hash_index s h = Some (block_name q)" and q: "q \<noteq> p" "0 \<le> q"
    and c: "physical_blocks s q = Some c" "md5 c = h"
  defines "m' \<equiv> m\<lparr>blocks := (blocks m)[i := itoa q]\<rparr>"
  defines "s' \<equiv> storage_metadata_write f t m'
     (s\<lparr>logical_blocks := ((f, t, i), q) # AList.delete (f, t, i) (logical_blocks s),
       bitmap := if p \<noteq> 0 then (bitmap s)[nat p := False] else bitmap s\<rparr>)"
  shows "commit_inv md5 f t s0 (Suc i) (m', s')"
proof -
  note ok = commit_invD(1)[OF inv] and m = commit_invD(2)[OF inv]
    and snd = commit_invD(3)[OF inv] and fr = commit_invD(4)[OF inv]
  let ?B = "if p \<noteq> 0 then (bitmap s)[nat p := False] else bitmap s"
  note pr = fs_ok_block_range[OF ok m i, folded p_def]
  have ph: "physical_blocks s p = Some (block_content (physical_blocks s) (blocks m ! i))"
    unfolding p_def by (rule block_content_ok[OF ok m i])
  have qn: "q < num_blocks s" using fs_okD(7)[OF ok, of q] c by simp
  have bq: "block_content (physical_blocks s) (itoa q) = c"
    using q c by (simp add: block_content_def)
  have "c = block_content (physical_blocks s) (blocks m ! i)"
    using nc c ph unfolding no_collision_def h_def by blast
  with bq have fv: "file_view (physical_blocks s) m' = file_view (physical_blocks s) m"
    unfolding m'_def by (intro file_view_relink) simp
  have lB: "length ?B = length (bitmap s)" by simp
  note re = relink_ok[OF ok m i q(2) qn lB, folded m'_def, folded s'_def]
  have m1: "metas s' (f, t) = Some m'" using re(1) by simp
  have fields: "physical_blocks s' = physical_blocks s" "config_hash_index s' = config_hash_index s"
    "locks_index s' = locks_index s" "BLOCK_SIZE s' = BLOCK_SIZE s" "FS_SIZE s' = FS_SIZE s"
    "logical_blocks s' = ((f, t, i), q) # AList.delete (f, t, i) (logical_blocks s)"
    by (simp_all add: s'_def)
  have "abs_fs s' = (abs_fs s)((f, t) \<mapsto> file_view (physical_blocks s) m)"
    unfolding abs_fs_def re(1) fields(1) abs_view_upd fv ..
  also have "\<dots> = abs_fs s" using abs_fs_Some[OF m] by (auto simp: fun_eq_iff)
  finally have r4: "commit_frame s0 s'" using fr fields by (simp add: commit_frame_def)
  have r3: "idx_sound md5 s'" using snd by (simp add: idx_sound_def fields)
  have bu: "block_used s' u \<longleftrightarrow> block_used s u \<and> (p = 0 \<or> u \<noteq> p)" for u
  proof -
    have "p < int (length (bitmap s))" using pr fs_okD(12)[OF ok] by simp
    then show ?thesis
      using block_used_clear[OF pr(1), of "s" u] by (simp add: s'_def block_used_def)
  qed
  show ?thesis
  proof (rule commit_invI[OF re(2) m1 r3 r4])
    assume pre: "commit_pre md5 f t s0"
    note safe = commit_invD(5)[OF inv pre] and used = commit_invD(6)[OF inv pre]
      and cs = commit_invD(7)[OF inv pre]
    have sole: "p = 0 \<or> occurs (logical_blocks s) p \<le> 1"
      unfolding p_def by (rule commit_safe_replaced[OF cs i idx[unfolded h_def] q(2)])
        (use pr q in \<open>simp_all add: p_def\<close>)
    have uq: "block_used s q" using used[unfolded idx_used_def, rule_format, OF idx] q(2) by (simp add: atoi_block_name)
    have "alloc_safe (s\<lparr>logical_blocks := ((f, t, i), q) # AList.delete (f, t, i) (logical_blocks s),
        bitmap := ?B\<rparr>)"
      using relink_alloc_safe[OF ok m i safe uq] q(1) sole unfolding p_def by blast
    then show "alloc_safe s'" by (simp add: s'_def alloc_safe_def)
    have "atoi (drop 5 name) \<noteq> p" if ix: "config_hash_index s h' = Some name" for h' name
    proof
      assume a: "atoi (drop 5 name) = p"
      obtain p' c' where e: "name = block_name p'" "atoi (drop 5 name) = p'"
        "physical_blocks s p' = Some c'" "md5 c' = h'"
        using idx_soundE[OF snd ix] by metis
      then have "h' = h" using a ph by (simp add: h_def)
      then have "name = block_name q" using ix idx by simp
      then show False using a q atoi_block_name[of q] by simp
    qed
    then show "idx_used s'" using used unfolding idx_used_def fields bu by blast
    show "commit_safe md5 s' m' (Suc i)"
      unfolding m'_def
      by (rule commit_safe_relink[OF ok m i cs _ fields(6,1,2)]) (use bq c idx in simp)
  qed
qed

lemma commit_step_ok:
  assumes inv: "commit_inv md5 f t s0 i (m, s)" and i: "i < length (blocks m)"
    and nc: "no_collision md5 s0"
  shows "\<exists>m' s'. commit_step md5 f t i (m, s) = Inr (m', s') \<and>
           commit_inv md5 f t s0 (Suc i) (m', s') \<and> length (blocks m') = length (blocks m)"
proof -
  note ok = commit_invD(1)[OF inv] and m = commit_invD(2)[OF inv]
    and snd = commit_invD(3)[OF inv] and fr = commit_invD(4)[OF inv]
  let ?h = "md5 (block_content (physical_blocks s) (blocks m ! i))"
  show ?thesis
  proof (cases "config_hash_index s ?h")
    case None
    then show ?thesis
      using commit_step_new[where ?md5.0 = md5, OF ok m i None] commit_inv_new[OF inv i None] by blast
  next
    case (Some name)
    from idx_soundE[OF snd Some] obtain q c where q: "name = block_name q" "0 \<le> q"
      "atoi (drop 5 name) = q" "physical_blocks s q = Some c" "md5 c = ?h" by metis
    show ?thesis
    proof (cases "q = atoi (blocks m ! i)")
      case True
      then show ?thesis
        using commit_step_same[where ?md5.0 = md5, OF ok m i Some] commit_inv_same[OF inv] q(3) by blast
    next
      case False
      have "no_collision md5 s" using nc fr by (simp add: no_collision_def commit_frame_def)
      note cd = commit_inv_dedup[OF inv i this Some[unfolded q(1)] False q(2,4,5)]
      have "q < num_blocks s" using fs_okD(7)[OF ok, of q] q(4) by simp
      from commit_step_dedup[where ?md5.0 = md5, OF ok m i Some q(3) False q(2) this] cd
      show ?thesis by (intro exI conjI) (assumption+, simp)
    qed
  qed
qed

section \<open>The operation\<close>

lemma commit_loop_ok:
  assumes ok: "fs_ok (metas s) s" and m: "metas s (f, t) = Some m"
    and snd: "idx_sound md5 s" and nc: "no_collision md5 s"
  shows "\<exists>m' s'. foldE (commit_step md5 f t) [0..<length (blocks m)] (m, s) = Inr (m', s') \<and>
           commit_inv md5 f t s (length (blocks m)) (m', s')"
proof -
  let ?P = "\<lambda>k (m', s'). commit_inv md5 f t s k (m', s') \<and> length (blocks m') = length (blocks m)"
  have "\<exists>r. foldE (commit_step md5 f t) [0..<length (blocks m)] (m, s) = Inr r \<and>
      ?P (length (blocks m)) r"
  proof (rule foldE_upt_invariant[where P = ?P])
    have "commit_inv md5 f t s 0 (m, s)"
      by (rule commit_invI[OF ok m snd]) (use m in \<open>simp_all add: commit_pre_def\<close>)
    then show "?P 0 (m, s)" by simp
  next
    fix i r assume i: "i < length (blocks m)" and P: "?P i r"
    obtain m1 s1 where r: "r = (m1, s1)" by force
    with P i have "commit_inv md5 f t s i (m1, s1)" "i < length (blocks m1)" by simp_all
    from commit_step_ok[OF this nc] P r
    show "\<exists>r'. commit_step md5 f t i r = Inr r' \<and> ?P (Suc i) r'" by auto
  qed simp
  then show ?thesis by auto
qed

lemma storage_commit_ok:
  assumes wf: "fs_wf s" and snd: "idx_sound md5 s" and nc: "no_collision md5 s"
  shows "\<exists>r s'. storage_commit md5 f t s = Inr (r, s') \<and> fs_wf s' \<and> idx_sound md5 s' \<and>
           (commit_pre md5 f t s \<longrightarrow> alloc_safe s' \<and> idx_used s') \<and>
           (r, abs_fs s') = spec_commit (f, t) (abs_fs s)"
proof (cases "metas s (f, t)")
  case None
  then have "storage_commit md5 f t s = Inr (ERR_INEXISTENCIA, s)"
    using wf by (simp add: storage_commit_def wait_ok metas_read)
  then show ?thesis
    using None wf snd by (simp add: spec_commit_def abs_fs_absent commit_pre_def)
next
  case (Some m)
  note ok = fs_wfD(1)[OF wf]
  let ?h = "held f t s"
  have hh: "fs_ok (metas ?h) ?h" "metas ?h (f, t) = Some m" "idx_sound md5 ?h" "no_collision md5 ?h"
    using ok Some snd nc by (simp_all add: idx_sound_def no_collision_def)
  from commit_loop_ok[OF hh] obtain m' s1 where
    L: "foldE (commit_step md5 f t) [0..<length (blocks m)] (m, ?h) = Inr (m', s1)"
    and inv: "commit_inv md5 f t ?h (length (blocks m)) (m', s1)" by blast
  note fr = commit_invD(4)[OF inv, unfolded commit_frame_def]
  have m1: "metas s1 (f, t) = Some m'" by (rule commit_invD(2)[OF inv])
  then have upd: "(metas s1)((f, t) \<mapsto> m') = metas s1" by (auto simp: fun_eq_iff)
  have bl: "blocks (m'\<lparr>estado := COMMITED\<rparr>) = blocks m'" by simp
  have lk: "locks_index s1 = locks_index ?h" using fr by simp
  have ok1: "fs_ok ((metas s1)((f, t) \<mapsto> m')) s1"
    unfolding upd by (rule commit_invD(1)[OF inv])
  from finish_write[OF wf ok1 refl bl lk] obtain s' where
    fin: "storage_signal f t (storage_metadata_write f t (m'\<lparr>estado := COMMITED\<rparr>) s1) = s'"
      "fs_wf s'" "metas s' = (metas s1)((f, t) \<mapsto> m'\<lparr>estado := COMMITED\<rparr>)"
      "physical_blocks s' = physical_blocks s1" "config_hash_index s' = config_hash_index s1"
      "block_used s' = block_used s1" "alloc_safe s1 \<longrightarrow> alloc_safe s'" by auto
  have run: "storage_commit md5 f t s = Inr (OP_EXITOSA, s')"
    using L fin(1) Some by (simp add: storage_commit_def wait_ok[OF wf] metas_read)
  have ab: "abs_fs s1 = abs_fs s" using fr by simp
  then have fv: "file_view (physical_blocks s) m' = file_view (physical_blocks s) m"
    using abs_fs_Some[OF m1] abs_fs_Some[OF Some] fr by simp
  have fv2: "file_view (physical_blocks s) (m'\<lparr>estado := COMMITED\<rparr>) =
      (file_view (physical_blocks s) m)\<lparr>a_estado := COMMITED\<rparr>"
    unfolding fv[symmetric] by (simp add: file_view_def)
  have "abs_fs s' = (abs_fs s1)((f, t) \<mapsto> file_view (physical_blocks s) (m'\<lparr>estado := COMMITED\<rparr>))"
    unfolding abs_fs_def fin(3,4) abs_view_upd using fr by simp
  then have ab': "(OP_EXITOSA, abs_fs s') = spec_commit (f, t) (abs_fs s)"
    unfolding ab fv2 using abs_fs_Some[OF Some] by (simp add: spec_commit_def)
  have snd': "idx_sound md5 s'"
    using commit_invD(3)[OF inv] by (simp add: idx_sound_def fin(4,5))
  have "alloc_safe s' \<and> idx_used s'" if "commit_pre md5 f t s"
  proof -
    have "commit_pre md5 f t ?h"
      using that Some by (simp add: commit_pre_def idx_used_def commit_safe_def)
    from commit_invD(5,6)[OF inv this] fin(7) show ?thesis by (simp add: idx_used_def fin(5,6))
  qed
  with run fin(2) snd' ab' show ?thesis by blast
qed

end
