(* ===== verification/Storage_Tags.thy ===== *)
theory Storage_Tags
  imports Storage_Commit
begin

text \<open>
  TAG and DELETE. TAG makes a second File:Tag over the same physical blocks, so its view is a
  snapshot of the origin's; DELETE removes one File:Tag and gives back the blocks nothing else
  names.
\<close>

section \<open>TAG\<close>

text \<open>Linking one more block at the end of a record, as the loops of TRUNCATE and TAG do.\<close>

lemma link_next_ok:
  assumes ok: "fs_ok M s" and m: "M (f, t) = Some m"
    and b: "0 \<le> atoi b" "atoi b < num_blocks s"
  defines "s' \<equiv> s\<lparr>logical_blocks := ((f, t, length (blocks m)), atoi b) # logical_blocks s\<rparr>"
  shows "\<exists>w. blk_wait (atoi b) s = Inr w \<and>
           (\<exists>u. link_block (atoi b) (f, t, length (blocks m)) w = (0, u) \<and> blk_post (atoi b) u = s')"
    and "fs_ok (M((f, t) \<mapsto> m\<lparr>blocks := blocks m @ [b]\<rparr>)) s'"
proof -
  note d = fs_okD(1)[OF ok] and tr = fs_okD(2)[OF ok] and mu = fs_okD(3)[OF ok]
  let ?k = "(f, t, length (blocks m))" and ?p = "atoi b"
  have free: "map_of (logical_blocks s) ?k = None"
    using m by (simp add: tree_okD(2)[OF tr] entry_of_def)
  let ?w = "s\<lparr>blk_mutex_list := (blk_mutex_list s)[nat ?p := 0]\<rparr>"
  let ?u = "?w\<lparr>logical_blocks := (?k, ?p) # logical_blocks s\<rparr>"
  have w: "blk_wait ?p s = Inr ?w" by (rule blk_wait_ok[OF mu b])
  have l: "link_block ?p ?k ?w = (0, ?u)"
    using link_block_ok[of M ?w f t m "length (blocks m)" ?p] tr d m free b by simp
  have p: "blk_post ?p ?u = s'"
    using blk_post_held[OF mu b, of ?u] by (simp add: s'_def)
  show "\<exists>w. blk_wait ?p s = Inr w \<and> (\<exists>u. link_block ?p ?k w = (0, u) \<and> blk_post ?p u = s')"
    using w l p by blast
  have "tree_ok (M((f, t) \<mapsto> m\<lparr>blocks := blocks m @ [b]\<rparr>)) s'"
    unfolding s'_def
  proof (rule tree_ok_replace[OF tr])
    show "map_of ((?k, ?p) # logical_blocks s) = entry_of (M((f, t) \<mapsto> m\<lparr>blocks := blocks m @ [b]\<rparr>))"
      unfolding entry_of_append[where M = M and f = f and t = t, OF m]
      by (simp add: tree_okD(2)[OF tr])
    show "distinct (map fst ((?k, ?p) # logical_blocks s))"
      using free tree_okD(1)[OF tr] by (simp add: map_of_eq_None_iff)
  qed (use m b tree_ok_blocks[OF tr m] in auto)
  with d mu show "fs_ok (M((f, t) \<mapsto> m\<lparr>blocks := blocks m @ [b]\<rparr>)) s'"
    by (simp add: fs_ok_def s'_def)
qed

lemma tag_loop_ok:
  assumes "fs_ok M s" and "M (f, t) = Some m"
    and "\<And>b. b \<in> set bs \<Longrightarrow> 0 \<le> atoi b \<and> atoi b < num_blocks s"
  shows "\<exists>L. tag_loop f t bs (length (blocks m)) s = Inr (OP_EXITOSA, s\<lparr>logical_blocks := L\<rparr>) \<and>
           fs_ok (M((f, t) \<mapsto> m\<lparr>blocks := blocks m @ bs\<rparr>)) (s\<lparr>logical_blocks := L\<rparr>) \<and>
           (alloc_safe s \<and> (\<forall>b \<in> set bs. block_used s (atoi b)) \<longrightarrow>
            alloc_safe (s\<lparr>logical_blocks := L\<rparr>))"
  using assms
proof (induction bs arbitrary: M m s)
  case Nil
  have "M((f, t) \<mapsto> m) = M" using Nil.prems(2) by (auto simp: fun_eq_iff)
  then show ?case using Nil.prems(1) by (intro exI[of _ "logical_blocks s"]) simp
next
  case (Cons b bs)
  let ?s = "s\<lparr>logical_blocks := ((f, t, length (blocks m)), atoi b) # logical_blocks s\<rparr>"
  let ?m = "m\<lparr>blocks := blocks m @ [b]\<rparr>"
  have b: "0 \<le> atoi b" "atoi b < num_blocks s" using Cons.prems(3)[of b] by simp_all
  note ln = link_next_ok[OF Cons.prems(1,2) b]
  have bs: "0 \<le> atoi c \<and> atoi c < num_blocks ?s" if "c \<in> set bs" for c
    using Cons.prems(3)[of c] that by simp
  have M1: "(M((f, t) \<mapsto> ?m)) (f, t) = Some ?m" by simp
  note ih = Cons.IH[OF ln(2) M1, unfolded fun_upd_upd]
  have "\<exists>L. tag_loop f t bs (Suc (length (blocks m))) ?s = Inr (OP_EXITOSA, s\<lparr>logical_blocks := L\<rparr>) \<and>
      fs_ok (M((f, t) \<mapsto> m\<lparr>blocks := blocks m @ b # bs\<rparr>)) (s\<lparr>logical_blocks := L\<rparr>) \<and>
      (alloc_safe ?s \<and> (\<forall>b \<in> set bs. block_used s (atoi b)) \<longrightarrow> alloc_safe (s\<lparr>logical_blocks := L\<rparr>))"
    using ih bs by (simp del: fun_upd_apply)
  then obtain L where
    L: "tag_loop f t bs (Suc (length (blocks m))) ?s = Inr (OP_EXITOSA, s\<lparr>logical_blocks := L\<rparr>)"
      "fs_ok (M((f, t) \<mapsto> m\<lparr>blocks := blocks m @ b # bs\<rparr>)) (s\<lparr>logical_blocks := L\<rparr>)"
      "alloc_safe ?s \<and> (\<forall>b \<in> set bs. block_used s (atoi b)) \<longrightarrow> alloc_safe (s\<lparr>logical_blocks := L\<rparr>)"
    by blast
  from ln(1) L(1) have "tag_loop f t (b # bs) (length (blocks m)) s =
      Inr (OP_EXITOSA, s\<lparr>logical_blocks := L\<rparr>)" by (auto simp: Let_def)
  moreover have "alloc_safe ?s" if "alloc_safe s" "block_used s (atoi b)"
    by (rule alloc_safe_link[OF that])
  ultimately show ?case using L(2,3) by (intro exI[of _ L]) (simp del: tag_loop.simps fun_upd_apply)
qed

lemma tag_loop_from_empty:
  assumes "fs_ok (M((f, t) \<mapsto> m\<lparr>blocks := []\<rparr>)) s"
    and "\<And>b. b \<in> set (blocks m) \<Longrightarrow> 0 \<le> atoi b \<and> atoi b < num_blocks s"
  shows "\<exists>L. tag_loop f t (blocks m) 0 s = Inr (OP_EXITOSA, s\<lparr>logical_blocks := L\<rparr>) \<and>
           fs_ok (M((f, t) \<mapsto> m)) (s\<lparr>logical_blocks := L\<rparr>) \<and>
           (alloc_safe s \<and> (\<forall>b \<in> set (blocks m). block_used s (atoi b)) \<longrightarrow>
            alloc_safe (s\<lparr>logical_blocks := L\<rparr>))"
  using tag_loop_ok[OF assms(1) fun_upd_same, of "blocks m", unfolded fun_upd_upd] assms(2)
  by (simp del: fun_upd_apply)

text \<open>
  TAG of an existing origin onto a fresh name: the new File:Tag reads as the origin, in state
  WORK_IN_PROGRESS; the bitmap, the contents on disk and the index are not touched.
\<close>

lemma storage_tag_ok:
  assumes wf: "fs_wf s"
  shows "\<exists>r s'. storage_tag fo to fn tn s = Inr (r, s') \<and> fs_wf s' \<and>
           (alloc_safe s \<longrightarrow> alloc_safe s') \<and>
           (r, abs_fs s') = spec_tag (fo, to) (fn, tn) (abs_fs s) \<and>
           config_hash_index s' = config_hash_index s \<and> physical_blocks s' = physical_blocks s \<and>
           block_used s' = block_used s \<and> BLOCK_SIZE s' = BLOCK_SIZE s \<and>
           num_blocks s' = num_blocks s"
proof -
  from storage_create_ok[OF wf, of fn tn] obtain r s1 where
    cr: "storage_create fn tn s = Inr (r, s1)" and wf1: "fs_wf s1"
    and safe: "alloc_safe s \<longrightarrow> alloc_safe s1"
    and ab: "(r, abs_fs s1) = spec_create (fn, tn) (abs_fs s)"
    and fr: "config_hash_index s1 = config_hash_index s" "physical_blocks s1 = physical_blocks s"
      "block_used s1 = block_used s" "BLOCK_SIZE s1 = BLOCK_SIZE s" "num_blocks s1 = num_blocks s"
    by blast
  show ?thesis
  proof (cases "r = OP_EXITOSA")
    case False
    then have "storage_tag fo to fn tn s = Inr (r, s1)" using cr by (simp add: storage_tag_def)
    moreover have "(r, abs_fs s1) = spec_tag (fo, to) (fn, tn) (abs_fs s)"
      using ab[symmetric] False by (simp add: spec_tag_def)
    ultimately show ?thesis using wf1 safe fr by blast
  next
    case True
    have spec: "spec_tag (fo, to) (fn, tn) (abs_fs s) = (case abs_fs s1 (fo, to) of
        None \<Rightarrow> (ERR_INEXISTENCIA, abs_fs s1)
      | Some a \<Rightarrow> (OP_EXITOSA, (abs_fs s1)((fn, tn) \<mapsto> a\<lparr>a_estado := WORK_IN_PROGRESS\<rparr>)))"
      using ab[symmetric] True by (simp add: spec_tag_def)
    show ?thesis
    proof (cases "metas s1 (fo, to)")
      case None
      then have "storage_tag fo to fn tn s = Inr (ERR_INEXISTENCIA, s1)"
        using cr True wf1 by (simp add: storage_tag_def wait_ok metas_read)
      then show ?thesis using wf1 safe fr None by (simp add: spec abs_fs_absent)
    next
      case (Some m)
      let ?h = "held fn tn s1" and ?k = "(fn, tn)"
      let ?m = "m\<lparr>estado := WORK_IN_PROGRESS\<rparr>"
      let ?w = "storage_metadata_write fn tn ?m ?h"
      note ok1 = fs_wfD(1)[OF wf1]
      from ab True have "abs_fs s1 ?k = Some \<lparr>a_tamanio = 0, a_estado = WORK_IN_PROGRESS, a_blocks = []\<rparr>"
        by (simp add: spec_create_def split: if_splits)
      then obtain m0 where m0: "metas s1 ?k = Some m0" "blocks m0 = []"
        by (auto simp: abs_fs_def abs_view_def file_view_def)
      then have d: "ft_dirs ?h ?k \<noteq> None" using fs_okD(10)[OF ok1, of ?k] by (simp add: held_def)
      have mw: "metas ?w = (metas s1)(?k \<mapsto> ?m)" using metas_write[OF d] by simp
      have "fs_ok (metas s1) ?w" by (rule fs_ok_write) (use ok1 in simp)
      then have okw: "fs_ok ((metas s1)(?k \<mapsto> ?m\<lparr>blocks := []\<rparr>)) ?w"
        using fs_ok_same_blocks[where M = "metas s1", OF _ m0(1)] m0 by simp
      have rng: "0 \<le> atoi b \<and> atoi b < num_blocks ?w" if "b \<in> set (blocks m)" for b
        using tree_ok_blocks[OF fs_okD(2)[OF ok1] Some that] by (simp add: num_blocks_def held_def)
      from tag_loop_from_empty[OF okw] rng obtain L where
        L: "tag_loop fn tn (blocks m) 0 ?w = Inr (OP_EXITOSA, ?w\<lparr>logical_blocks := L\<rparr>)"
        and okL: "fs_ok ((metas s1)(?k \<mapsto> ?m)) (?w\<lparr>logical_blocks := L\<rparr>)"
        and safeL: "alloc_safe ?w \<and> (\<forall>b \<in> set (blocks m). block_used ?w (atoi b)) \<longrightarrow>
          alloc_safe (?w\<lparr>logical_blocks := L\<rparr>)" by (simp del: fun_upd_apply) blast
      let ?s = "?w\<lparr>logical_blocks := L, locks_index := locks_index s1\<rparr>"
      have sg: "storage_signal fn tn (?w\<lparr>logical_blocks := L\<rparr>) = ?s"
        by (rule signal_ok[OF wf1, THEN trans]) simp_all
      have run: "storage_tag fo to fn tn s = Inr (OP_EXITOSA, ?s)"
        using cr True wf1 Some L sg by (simp add: storage_tag_def wait_ok metas_read)
      have ms: "metas ?s = (metas s1)(?k \<mapsto> ?m)" using mw by simp
      have "fs_wf ?s" using okL fs_wfD(2)[OF wf1] unfolding fs_wf_def ms by simp
      moreover have "alloc_safe ?s" if "alloc_safe s"
      proof -
        have s1: "alloc_safe s1" using safe that by blast
        have "block_used s1 (atoi b)" if bm: "b \<in> set (blocks m)" for b
        proof -
          obtain i where i: "i < length (blocks m)" "b = blocks m ! i"
            using bm by (auto simp: in_set_conv_nth)
          have "map_of (logical_blocks s1) (fo, to, i) = Some (atoi b)"
            using fs_okD(6)[OF ok1] entry_of_at[where M = "metas s1", OF Some i(1)] i(2) by simp
          with s1 show ?thesis by (auto simp: alloc_safe_def)
        qed
        moreover have "alloc_safe ?w" using s1 by (simp add: alloc_safe_def)
        ultimately show ?thesis using safeL by simp
      qed
      moreover have "abs_fs ?s = (abs_fs s1)(?k \<mapsto> (file_view (physical_blocks s1) m)\<lparr>a_estado := WORK_IN_PROGRESS\<rparr>)"
        unfolding abs_fs_def ms abs_view_upd by (simp add: file_view_def)
      ultimately show ?thesis
        using run fr Some by (intro exI[of _ OP_EXITOSA] exI[of _ ?s]) (simp add: spec abs_fs_Some)
    qed
  qed
qed

section \<open>DELETE\<close>

lemma remove_hash_eq:
  "remove_hash h s = s\<lparr>config_hash_index := (config_hash_index s)(h := None)\<rparr>"
  by (cases "config_hash_index s h") (simp_all add: remove_hash_def hash_is_loaded_def fun_upd_idem)

text \<open>
  After the first \<open>k\<close> blocks of (f, t) have been released: their entries are gone, the
  others are as they were.
\<close>

definition entries_from :: "(ft_key \<rightharpoonup> t_metadata_file) \<Rightarrow> string \<Rightarrow> string \<Rightarrow> nat \<Rightarrow> log_key \<Rightarrow> int option" where
  "entries_from M f t k key =
     (case key of (f', t', i) \<Rightarrow>
        if f' = f \<and> t' = t \<and> i < k then None else entry_of M key)"

lemma entries_from_0 [simp]: "entries_from M f t 0 = entry_of M"
  by (auto simp: entries_from_def fun_eq_iff)

lemma entries_from_Suc: "(entries_from M f t k)((f, t, k) := None) = entries_from M f t (Suc k)"
  by (auto simp: entries_from_def fun_eq_iff split: prod.splits)

lemma entries_from_all:
  "M (f, t) = Some m \<Longrightarrow> entries_from M f t (length (blocks m)) = entry_of (M((f, t) := None))"
  by (auto simp: entries_from_def entry_of_def fun_eq_iff split: prod.splits option.splits)

definition del_disk :: "(ft_key \<rightharpoonup> t_metadata_file) \<Rightarrow> string \<Rightarrow> string \<Rightarrow> nat \<Rightarrow> storage \<Rightarrow> bool" where
  "del_disk M f t k s \<longleftrightarrow>
     disk_ok s \<and> mutex_ok s \<and> distinct (map fst (logical_blocks s)) \<and>
     map_of (logical_blocks s) = entries_from M f t k"

definition del_frame :: "(byte list \<Rightarrow> string) \<Rightarrow> storage \<Rightarrow> storage \<Rightarrow> bool" where
  "del_frame md5 s s' \<longleftrightarrow>
     ft_dirs s' = ft_dirs s \<and> physical_blocks s' = physical_blocks s \<and>
     locks_index s' = locks_index s \<and> BLOCK_SIZE s' = BLOCK_SIZE s \<and> FS_SIZE s' = FS_SIZE s \<and>
     (alloc_safe s \<longrightarrow> alloc_safe s') \<and> (idx_sound md5 s \<longrightarrow> idx_sound md5 s') \<and>
     (idx_sound md5 s \<and> idx_used s \<longrightarrow> idx_used s')"

lemma del_frame_refl [simp]: "del_frame md5 s s"
  by (simp add: del_frame_def)

lemma del_frame_trans: "del_frame md5 s1 s2 \<Longrightarrow> del_frame md5 s2 s3 \<Longrightarrow> del_frame md5 s1 s3"
  unfolding del_frame_def by simp

lemma disk_ok_index:
  assumes "disk_ok s" and "length B = length (bitmap s)"
  shows "disk_ok (s\<lparr>config_hash_index := (config_hash_index s)(h := None), logical_blocks := L, bitmap := B\<rparr>)"
  using assms unfolding disk_ok_def num_blocks_def zero_block_def by (auto split: if_splits)

text \<open>Releasing one block, by the number of entries that still name it.\<close>

lemma delete_step_eq:
  fixes md5 :: "byte list \<Rightarrow> string"
  assumes del: "del_disk M f t i s" and i: "i < length (blocks m)"
    and m: "M (f, t) = Some m"
    and p: "p = atoi (blocks m ! i)" "0 \<le> p" "p < num_blocks s"
    and c: "physical_blocks s p = Some c"
    and L: "L = AList.delete (f, t, i) (logical_blocks s)"
  shows "delete_step md5 f t m i s =
    Inr (if p \<noteq> 0 \<and> occurs L p = 0
         then s\<lparr>config_hash_index := (config_hash_index s)(md5 c := None), logical_blocks := L,
                bitmap := (bitmap s)[nat p := False]\<rparr>
         else s\<lparr>logical_blocks := L\<rparr>)"
proof -
  from del have d: "disk_ok s" and mu: "mutex_ok s"
    and mo: "map_of (logical_blocks s) = entries_from M f t i"
    by (simp_all add: del_disk_def)
  let ?w = "s\<lparr>blk_mutex_list := (blk_mutex_list s)[nat p := 0]\<rparr>"
  have at: "block_at m (int i) = Inr p" using i p by (simp add: block_at_def)
  have mk: "map_of (logical_blocks s) (f, t, i) = Some p"
    using mo entry_of_at[where M = M, OF m i] p by (simp add: entries_from_def)
  have len: "length c = nat (BLOCK_SIZE s)" "0 < BLOCK_SIZE s"
    using d c unfolding disk_ok_def by blast+
  have h: "get_hash_from_block md5 f t i ?w = Inr (md5 c)"
    using mk c len by (simp add: get_hash_from_block_def get_hash_from_content_def)
  have u: "unlink_block (f, t, i) ?w = ?w\<lparr>logical_blocks := L\<rparr>" by (simp add: unlink_block_def L)
  have st: "stat_nlink p (?w\<lparr>logical_blocks := L\<rparr>) = Inr (1 + occurs L p)"
    using stat_nlink_ok[of "?w\<lparr>logical_blocks := L\<rparr>" p] d p by simp
  have post: "blk_post p (?w\<lparr>logical_blocks := L\<rparr>) = s\<lparr>logical_blocks := L\<rparr>"
    by (subst blk_post_held[OF mu p(2,3)]) simp_all
  have nb: "p < int (length (bitmap s))" using d p unfolding disk_ok_def by linarith
  have fr: "mark_block_free p (remove_hash (md5 c) (?w\<lparr>logical_blocks := L\<rparr>)) =
      Inr (?w\<lparr>config_hash_index := (config_hash_index s)(md5 c := None), logical_blocks := L,
              bitmap := (bitmap s)[nat p := False]\<rparr>)"
    using p nb by (simp add: mark_block_free_def remove_hash_eq)
  have post2: "blk_post p (?w\<lparr>config_hash_index := (config_hash_index s)(md5 c := None),
        logical_blocks := L, bitmap := (bitmap s)[nat p := False]\<rparr>) =
      s\<lparr>config_hash_index := (config_hash_index s)(md5 c := None), logical_blocks := L,
        bitmap := (bitmap s)[nat p := False]\<rparr>"
    by (subst blk_post_held[OF mu p(2,3)]) simp_all
  have w: "blk_wait p s = Inr ?w" by (rule blk_wait_ok[OF mu p(2,3)])
  show ?thesis
  proof (cases "p = 0")
    case True
    then show ?thesis using at w h u post unfolding delete_step_def Let_def by simp
  next
    case False
    show ?thesis
    proof (cases "occurs L p = 0")
      case o: True
      then show ?thesis
        using False at w h u st fr post2 unfolding delete_step_def Let_def by simp
    next
      case o: False
      then show ?thesis
        using False at w h u st post unfolding delete_step_def Let_def by simp
    qed
  qed
qed

lemma idx_sound_delete: "idx_sound md5 s \<Longrightarrow> physical_blocks s' = physical_blocks s \<Longrightarrow>
   config_hash_index s' = (config_hash_index s)(h := None) \<Longrightarrow> idx_sound md5 s'"
  by (auto simp: idx_sound_def split: if_splits)

text \<open>Under a sound index the block freed was indexed, if at all, under its own hash.\<close>

lemma idx_used_free:
  assumes snd: "idx_sound md5 s" and used: "idx_used s" and c: "physical_blocks s p = Some c"
    and p: "0 \<le> p"
    and s': "config_hash_index s' = (config_hash_index s)(md5 c := None)"
      "bitmap s' = (bitmap s)[nat p := False]"
  shows "idx_used s'"
  unfolding idx_used_def
proof (intro allI impI)
  fix h name assume "config_hash_index s' h = Some name"
  then have ix: "h \<noteq> md5 c" "config_hash_index s h = Some name"
    using s' by (auto split: if_splits)
  obtain q c' where q: "atoi (drop 5 name) = q" "physical_blocks s q = Some c'" "md5 c' = h"
    using idx_soundE[OF snd ix(2)] by metis
  then have "q \<noteq> p" using c ix(1) by auto
  moreover have "block_used s q" using used[unfolded idx_used_def, rule_format, OF ix(2)] q(1) by simp
  moreover have "block_used s' q \<longleftrightarrow> block_used (s\<lparr>bitmap := (bitmap s)[nat p := False]\<rparr>) q"
    using s' by (simp add: block_used_def)
  ultimately show "block_used s' (atoi (drop 5 name))"
    using block_used_clear[OF p, of s q] q(1) by simp
qed

lemma delete_step_ok:
  assumes del: "del_disk M f t i s" and i: "i < length (blocks m)" and m: "M (f, t) = Some m"
    and rng: "0 \<le> atoi (blocks m ! i)" "atoi (blocks m ! i) < num_blocks s"
  shows "\<exists>s'. delete_step md5 f t m i s = Inr s' \<and> del_disk M f t (Suc i) s' \<and> del_frame md5 s s'"
proof -
  let ?p = "atoi (blocks m ! i)" and ?k = "(f, t, i)"
  define L where "L = AList.delete ?k (logical_blocks s)"
  from del have d: "disk_ok s" and mu: "mutex_ok s" and di: "distinct (map fst (logical_blocks s))"
    and mo: "map_of (logical_blocks s) = entries_from M f t i"
    by (simp_all add: del_disk_def)
  obtain c where c: "physical_blocks s ?p = Some c"
    using d rng unfolding disk_ok_def by blast
  note run = delete_step_eq[where ?md5.0 = md5, OF del i m refl rng c L_def]
  have mL: "map_of L = entries_from M f t (Suc i)"
    unfolding L_def map_of_delete mo by (rule entries_from_Suc)
  have dL: "distinct (map fst L)" using di by (simp add: L_def)
  show ?thesis
  proof (cases "?p \<noteq> 0 \<and> occurs L ?p = 0")
    case True
    let ?s = "s\<lparr>config_hash_index := (config_hash_index s)(md5 c := None), logical_blocks := L,
                bitmap := (bitmap s)[nat ?p := False]\<rparr>"
    have "mutex_ok ?s" using mu by (simp add: mutex_ok_def num_blocks_def)
    moreover have "disk_ok ?s" by (rule disk_ok_index[OF d]) simp
    ultimately have dd: "del_disk M f t (Suc i) ?s" using mL dL by (simp add: del_disk_def)
    have "alloc_safe ?s" if "alloc_safe s"
    proof -
      have "alloc_safe (s\<lparr>logical_blocks := L, bitmap := (bitmap s)[nat ?p := False]\<rparr>)"
        by (rule alloc_safe_unlink[OF that di L_def _ rng(1)]) (use True in auto)
      then show ?thesis by (simp add: alloc_safe_def block_used_def)
    qed
    moreover have "idx_sound md5 ?s" if "idx_sound md5 s"
      by (rule idx_sound_delete[OF that]) simp_all
    moreover have "idx_used ?s" if "idx_sound md5 s \<and> idx_used s"
      by (rule idx_used_free[OF that[THEN conjunct1] that[THEN conjunct2] c rng(1)]) simp_all
    ultimately have "del_frame md5 s ?s" unfolding del_frame_def by simp
    with run True dd show ?thesis by (intro exI[of _ ?s]) simp
  next
    case False
    let ?s = "s\<lparr>logical_blocks := L\<rparr>"
    have "del_disk M f t (Suc i) ?s" using mL dL d mu by (simp add: del_disk_def)
    moreover have "del_frame md5 s ?s"
      using alloc_safe_delete[of s ?k] by (simp add: del_frame_def idx_sound_def idx_used_def L_def)
    ultimately show ?thesis using run False by (intro exI[of _ ?s]) simp
  qed
qed

lemma delete_loop_ok:
  assumes ok: "fs_ok M s" and m: "M (f, t) = Some m"
  shows "\<exists>s'. foldE (delete_step md5 f t m) [0..<length (blocks m)] s = Inr s' \<and>
           del_disk M f t (length (blocks m)) s' \<and> del_frame md5 s s'"
proof (rule foldE_upt_invariant[where P = "\<lambda>k s'. del_disk M f t k s' \<and> del_frame md5 s s'"])
  note tr = fs_okD(2)[OF ok]
  show "del_disk M f t 0 s \<and> del_frame md5 s s"
    using fs_okD(1,3,5)[OF ok] tree_okD(2)[OF tr] by (simp add: del_disk_def)
next
  fix i s1 assume i: "i < length (blocks m)" and P: "del_disk M f t i s1 \<and> del_frame md5 s s1"
  have "num_blocks s1 = num_blocks s" using P by (simp add: del_frame_def num_blocks_def)
  with fs_ok_block_range[OF ok m i] P delete_step_ok[of M f t i s1 m md5, OF _ i m]
  show "\<exists>s'. delete_step md5 f t m i s1 = Inr s' \<and> del_disk M f t (Suc i) s' \<and> del_frame md5 s s'"
    using del_frame_trans by metis
qed simp

lemma remove_ft_dir_empty:
  assumes "ft_dirs s (f, t) \<noteq> None" and "\<And>i. map_of (logical_blocks s) (f, t, i) = None"
  shows "remove_ft_dir f t s = s\<lparr>ft_dirs := (ft_dirs s)((f, t) := None)\<rparr>"
proof -
  have "\<not> (fst (fst e) = f \<and> fst (snd (fst e)) = t)" if "e \<in> set (logical_blocks s)" for e
    using that assms(2)[of "snd (snd (fst e))"] by (auto simp: map_of_eq_None_iff image_iff)
  then have "filter (\<lambda>e. case fst e of (f', t', i) \<Rightarrow> f' = f \<and> t' = t) (logical_blocks s) = []"
    by (fastforce simp: filter_empty_conv)
  with assms(1) show ?thesis by (auto simp: remove_ft_dir_def Let_def)
qed

text \<open>DELETE in its three refusing branches leaves the state exactly as it was.\<close>

lemma delete_refused:
  assumes wf: "fs_wf s"
    and "(string_equals_ignore_case f ''initial_file'' \<and> string_equals_ignore_case t ''BASE'')
         \<or> metas s (f, t) = None"
  shows "storage_delete md5 f t s = Inr (fst (spec_delete (f, t) (abs_fs s)), s) \<and>
         snd (spec_delete (f, t) (abs_fs s)) = abs_fs s"
  using assms
  by (auto simp: storage_delete_def spec_delete_def wait_ok metas_read abs_fs_absent split: option.splits)

lemma storage_delete_ok:
  assumes wf: "fs_wf s"
  shows "\<exists>r s'. storage_delete md5 f t s = Inr (r, s') \<and> fs_wf s' \<and>
           (alloc_safe s \<longrightarrow> alloc_safe s') \<and> (idx_sound md5 s \<longrightarrow> idx_sound md5 s') \<and>
           (idx_sound md5 s \<and> idx_used s \<longrightarrow> idx_used s') \<and>
           (r, abs_fs s') = spec_delete (f, t) (abs_fs s)"
proof (cases "(string_equals_ignore_case f ''initial_file'' \<and> string_equals_ignore_case t ''BASE'')
         \<or> metas s (f, t) = None")
  case True
  from delete_refused[OF wf True, of md5] wf show ?thesis by (metis prod.collapse)
next
  case False
  then obtain m where m: "metas s (f, t) = Some m" by auto
  note ok = fs_wfD(1)[OF wf]
  let ?k = "(f, t)" and ?h = "held f t s" and ?M = "(metas s)((f, t) := None)"
  have okh: "fs_ok (metas s) ?h" using ok by simp
  from delete_loop_ok[OF okh m, of md5] obtain s1 where
    L: "foldE (delete_step md5 f t m) [0..<length (blocks m)] ?h = Inr s1"
    and dd: "del_disk (metas s) f t (length (blocks m)) s1" and fr: "del_frame md5 ?h s1" by blast
  from dd have d: "disk_ok s1" and mu: "mutex_ok s1" and di: "distinct (map fst (logical_blocks s1))"
    and mo: "map_of (logical_blocks s1) = entry_of ?M"
    using entries_from_all[where M = "metas s", OF m] by (simp_all add: del_disk_def)
  have ft: "ft_dirs s1 = ft_dirs s" using fr by (simp add: del_frame_def held_def)
  let ?s2 = "s1\<lparr>ft_dirs := (ft_dirs s)(?k := None)\<rparr>"
  have rm: "remove_ft_dir f t s1 = ?s2"
    using remove_ft_dir_empty[of s1 f t] mo ft fs_okD(10)[OF ok, of ?k] m
    by (simp add: entry_of_def)
  have me: "metas ?s2 = ?M"
    by (auto simp: metas_def storage_metadata_read_def fun_eq_iff ft held_def)
  let ?s = "storage_signal f t (remove_lock f t ?s2)"
  obtain x where x: "?s = ?s2\<lparr>locks_index := x\<rparr>"
    using storage_signal_only[of f t "remove_lock f t ?s2"] remove_lock_only[of f t ?s2]
    by (metis (no_types) storage.update_convs(6) storage.surjective)
  have run: "storage_delete md5 f t s = Inr (OP_EXITOSA, ?s)"
    using False L m rm by (simp add: storage_delete_def wait_ok[OF wf] metas_read)
  have "index_idle (locks_index ?s)"
    by (rule remove_held_signal[OF fs_wfD(2)[OF wf]]) (use fr in \<open>simp add: del_frame_def held_def\<close>)
  then have idle: "index_idle x" unfolding x by simp
  have "tree_ok ?M ?s2"
    using d di mo fs_okD(2)[OF ok] fr unfolding tree_ok_def
    by (simp add: del_frame_def num_blocks_def) (simp add: held_def split: if_splits)
  moreover have "disk_ok ?s2" "mutex_ok ?s2"
    using d mu by (simp_all add: disk_ok_def mutex_ok_def num_blocks_def zero_block_def)
  ultimately have "fs_ok ?M ?s2" by (simp add: fs_ok_def)
  then have wf': "fs_wf ?s" using idle me unfolding x fs_wf_def by simp
  have "abs_fs ?s = (abs_fs s)(?k := None)"
    using fr unfolding x abs_fs_def
    by (simp add: me del_frame_def) (simp add: abs_view_def fun_eq_iff)
  then have ab: "(OP_EXITOSA, abs_fs ?s) = spec_delete ?k (abs_fs s)"
    using False m abs_fs_Some[OF m] by (auto simp: spec_delete_def)
  have h: "idx_sound md5 ?h = idx_sound md5 s" "idx_used ?h = idx_used s"
    by (simp_all add: idx_sound_def idx_used_def)
  have "alloc_safe ?s = alloc_safe s1" "idx_sound md5 ?s = idx_sound md5 s1" "idx_used ?s = idx_used s1"
    unfolding x by (simp_all add: idx_sound_def idx_used_def)
  with run wf' ab fr h show ?thesis unfolding del_frame_def by (intro exI[of _ OP_EXITOSA] exI[of _ ?s]) simp
qed

end
