(* ===== verification/Storage_Start.thy ===== *)
theory Storage_Start
  imports Storage_Tags
begin

text \<open>
  Starting the storage (\<open>storage/src/storage_init.c\<close>, \<open>storage/src/storage_fresh_start.c\<close> and
  \<open>init_locks_index\<close>): what a fresh start leaves on disk satisfies the invariants the
  operations rely on, and a restart keeps the contents. \<open>superblock\<close> is what
  \<open>superblock.config\<close> holds, \<open>None\<close> when there is no such file; sizes in the configuration
  are those of \<open>storage.config\<close>.
\<close>

section \<open>The start\<close>

text \<open>
  The directories are emptied, then every structure is written anew. A bitmap of no bytes
  cannot be mapped: the function returns there.
\<close>

definition storage_fresh_start :: "(int \<times> int) option \<Rightarrow> storage \<Rightarrow> fault + storage" where
  "storage_fresh_start superblock s =
     (let s = s\<lparr>file_dirs := {}, ft_dirs := Map.empty, logical_blocks := [], physical_blocks := Map.empty\<rparr>;
          s = (case superblock of None \<Rightarrow> s | Some (fs, bs) \<Rightarrow> s\<lparr>FS_SIZE := fs, BLOCK_SIZE := bs\<rparr>);
          s = s\<lparr>config_hash_index := Map.empty\<rparr>
      in if BLOCK_SIZE s = 0 then Inl DivByZero
         else
           let blocks_count = c_div (FS_SIZE s) (BLOCK_SIZE s);
               bitmap_bytes = bitmap_size blocks_count
           in if bitmap_bytes \<le> 0 then Inr s
              else
                let s = s\<lparr>bitmap := replicate (nat (8 * bitmap_bytes)) False,
                          physical_blocks := (\<lambda>p. if 0 \<le> p \<and> p < blocks_count
                            then Some (replicate (nat (BLOCK_SIZE s)) (char_byte (CHR ''0''))) else None),
                          file_dirs := {''initial_file''},
                          ft_dirs := [(''initial_file'', ''BASE'') \<mapsto>
                            \<lparr>metadata_config = None, logical_dir = True\<rparr>]\<rparr>;
                    (r, s) = link_block 0 (''initial_file'', ''BASE'', 0) s
                in bindE (mark_block_used 0 s) (\<lambda>s.
                     Inr (storage_metadata_write ''initial_file'' ''BASE''
                            \<lparr>tamanio = 0, blocks = [''0''], estado = ''WORK_IN_PROGRESS''\<rparr> s)))"

text \<open>
  \<open>get_in\<close> lists the entries of one type of a directory that could be opened, but asks for the type of each name
  under the mount point itself, where \<open>files\<close> and \<open>physical_blocks\<close> are directories and the
  bitmap and the two configurations are regular files.
\<close>

datatype tipo_entrada = S_IFDIR | S_IFREG

definition tipo_en_montaje :: "string \<Rightarrow> tipo_entrada option" where
  "tipo_en_montaje nombre =
     (if nombre = ''files'' \<or> nombre = ''physical_blocks'' then Some S_IFDIR
      else if nombre = ''bitmap.bin'' \<or> nombre = ''superblock.config'' \<or> nombre = ''blocks_hash_index.config''
      then Some S_IFREG
      else None)"

definition get_in :: "string set \<Rightarrow> tipo_entrada \<Rightarrow> string set" where
  "get_in entradas tipo = Set.filter (\<lambda>nombre. tipo_en_montaje nombre = Some tipo) entradas"

lemma get_in_dir: "get_in entradas S_IFDIR = {} \<longleftrightarrow> ''files'' \<notin> entradas \<and> ''physical_blocks'' \<notin> entradas"
proof -
  have "tipo_en_montaje n = Some S_IFDIR \<longleftrightarrow> n \<in> {''files'', ''physical_blocks''}" for n
    unfolding tipo_en_montaje_def by simp
  then have "get_in entradas S_IFDIR = entradas \<inter> {''files'', ''physical_blocks''}"
    by (simp only: get_in_def Set.filter_eq Int_def)
  then show ?thesis by (simp only: Int_insert_right Int_empty_right) simp
qed

text \<open>
  So \<open>init_locks_index\<close> finds no File. A File named as one of the two directories is found, and
  its name, which points into the directory stream, is freed.
\<close>

definition init_locks_index :: "storage \<Rightarrow> fault + storage" where
  "init_locks_index s =
     (if get_in (file_dirs s) S_IFDIR \<noteq> {} then Inl Indeterminate
      else if BLOCK_SIZE s = 0 then Inl DivByZero
      else Inr (s\<lparr>locks_index := [],
                  blk_mutex_list := replicate (nat (c_div (FS_SIZE s) (BLOCK_SIZE s))) 1\<rparr>))"

definition storage_init ::
    "(byte list \<Rightarrow> string) \<Rightarrow> string \<Rightarrow> int \<Rightarrow> int \<Rightarrow> (int \<times> int) option \<Rightarrow> storage \<Rightarrow> fault + storage" where
  "storage_init md5 fresh fs bs superblock s =
     (let s = s\<lparr>FS_SIZE := fs, BLOCK_SIZE := bs, CANT_WORKERS := 0\<rparr>
      in bindE (if string_equals_ignore_case fresh ''TRUE'' then storage_fresh_start superblock s
                else case superblock of
                       None \<Rightarrow> Inl ExitFailure
                     | Some (fs, bs) \<Rightarrow> Inr (s\<lparr>FS_SIZE := fs, BLOCK_SIZE := bs\<rparr>)) (\<lambda>s.
         bindE (get_hash_from_content md5 (replicate (nat (BLOCK_SIZE s)) (char_byte (CHR ''0''))) s) (\<lambda>h.
         let s = load_hash_in_index h 0 s
         in if BLOCK_SIZE s = 0 then Inl DivByZero
            else
              let (r, s) = bitmap_init (Some (bitmap s)) (c_div (FS_SIZE s) (BLOCK_SIZE s)) s
              in if r < 0 then Inl ExitFailure else init_locks_index s)))"

section \<open>The empty file system\<close>

lemma mkdirs_metas:
  "metas (s\<lparr>ft_dirs := [k \<mapsto> \<lparr>metadata_config = Some m, logical_dir = True\<rparr>]\<rparr>) = [k \<mapsto> m]"
  by (auto simp: metas_def storage_metadata_read_def fun_eq_iff)

definition empty_meta :: t_metadata_file where
  "empty_meta = \<lparr>tamanio = 0, blocks = [''0''], estado = ''WORK_IN_PROGRESS''\<rparr>"

text \<open>The state a fresh start followed by the rest of \<open>init\<close> ends in.\<close>

definition fresh_state :: "(byte list \<Rightarrow> string) \<Rightarrow> int \<Rightarrow> int \<Rightarrow> storage" where
  "fresh_state md5 fs bs =
     (let zero = replicate (nat bs) (char_byte (CHR ''0'')); n = fs div bs
      in \<lparr>BLOCK_SIZE = bs, FS_SIZE = fs, CANT_WORKERS = 0,
          bitmap = True # replicate (nat (8 * bitmap_size n) - 1) False,
          config_hash_index = [md5 zero \<mapsto> block_name 0], locks_index = [],
          blk_mutex_list = replicate (nat n) 1, file_dirs = {''initial_file''},
          ft_dirs = [(''initial_file'', ''BASE'') \<mapsto>
            \<lparr>metadata_config = Some empty_meta, logical_dir = True\<rparr>],
          logical_blocks = [((''initial_file'', ''BASE'', 0), 0)],
          physical_blocks = (\<lambda>p. if 0 \<le> p \<and> p < n then Some zero else None)\<rparr>)"

lemma blocks_positive: "0 < bs \<Longrightarrow> bs \<le> fs \<Longrightarrow> 0 < fs div bs" for fs bs :: int
  by (simp add: pos_imp_zdiv_pos_iff)

lemma bitmap_size_covers:
  assumes "0 < n"
  shows "0 < bitmap_size n" and "n \<le> 8 * bitmap_size n"
proof -
  have "0 \<le> n mod 8" "n mod 8 < 8" by simp_all
  then have "n \<le> 8 * bitmap_size n" using bitmap_size_bits[of n] assms by (auto split: if_splits)
  then show "0 < bitmap_size n" "n \<le> 8 * bitmap_size n" using assms by linarith+
qed

lemma storage_init_fresh:
  assumes bs: "0 < bs" "bs \<le> fs" and fresh: "string_equals_ignore_case fresh ''TRUE''"
  shows "storage_init md5 fresh fs bs None s = Inr (fresh_state md5 fs bs)"
proof -
  let ?n = "fs div bs"
  have n: "0 < ?n" by (rule blocks_positive[OF bs])
  have c: "c_div fs bs = ?n" using bs by (simp add: c_div_pos)
  have b: "0 < bitmap_size ?n" by (rule bitmap_size_covers(1)[OF n])
  then obtain k where k: "nat (8 * bitmap_size ?n) = Suc k" by (cases "nat (8 * bitmap_size ?n)") auto
  show ?thesis
    using bs n b fresh k
    by (cases s) (simp add: Let_def storage_init_def storage_fresh_start_def c link_block_def mark_block_used_def
        storage_metadata_write_def get_hash_from_content_def load_hash_in_index_def remove_hash_def
        hash_is_loaded_def init_locks_index_def get_in_dir fresh_state_def empty_meta_def bitmap_init_def
        cong del: if_weak_cong)
qed

lemma num_blocks_fresh: "0 < bs \<Longrightarrow> bs \<le> fs \<Longrightarrow> num_blocks (fresh_state md5 fs bs) = fs div bs"
  by (simp add: num_blocks_def fresh_state_def Let_def c_div_pos)

lemma metas_fresh: "metas (fresh_state md5 fs bs) = [(''initial_file'', ''BASE'') \<mapsto> empty_meta]"
  by (auto simp: metas_def storage_metadata_read_def fresh_state_def Let_def fun_eq_iff)

lemma fresh_state_ok:
  assumes bs: "0 < bs" "bs \<le> fs"
  shows "fs_wf (fresh_state md5 fs bs)" and "alloc_safe (fresh_state md5 fs bs)"
    and "idx_sound md5 (fresh_state md5 fs bs)" and "idx_used (fresh_state md5 fs bs)"
    and "no_collision md5 (fresh_state md5 fs bs)"
proof -
  let ?s = "fresh_state md5 fs bs"
  note n = blocks_positive[OF bs]
  note nb = num_blocks_fresh[OF bs, of md5]
  have used: "block_used ?s 0" by (simp add: block_used_def fresh_state_def Let_def)
  have "disk_ok ?s"
    unfolding disk_ok_def nb zero_block_def
    using bs n bitmap_size_covers[OF n]
    by (auto simp: fresh_state_def Let_def split: if_splits)
  moreover have "tree_ok (metas ?s) ?s"
    unfolding tree_ok_def metas_fresh nb
    using n by (auto simp: fresh_state_def Let_def entry_of_def empty_meta_def split: if_splits)
  ultimately show "fs_wf ?s"
    unfolding fs_wf_def fs_ok_def mutex_ok_def nb
    by (simp add: fresh_state_def Let_def index_idle_def)
  show "alloc_safe ?s"
    unfolding alloc_safe_def using used by (auto simp: fresh_state_def Let_def split: if_splits)
  show "idx_sound md5 ?s"
    using n by (auto simp: idx_sound_def fresh_state_def Let_def split: if_splits intro!: exI[of _ 0])
  show "idx_used ?s"
    unfolding idx_used_def using used by (auto simp: fresh_state_def Let_def atoi_block_name split: if_splits)
  show "no_collision md5 ?s"
    by (auto simp: no_collision_def fresh_state_def Let_def split: if_splits)
qed

section \<open>Restart\<close>

text \<open>
  A restart on the mount point of a well-formed state: memory is lost, the disk is as it was.
\<close>

lemma storage_init_restart:
  assumes wf: "fs_wf s" and "\<not> string_equals_ignore_case fresh ''TRUE''"
    and "superblock = Some (FS_SIZE s, BLOCK_SIZE s)"
    and "''files'' \<notin> file_dirs s" and "''physical_blocks'' \<notin> file_dirs s"
  shows "storage_init md5 fresh fs bs superblock (s\<lparr>locks_index := l, blk_mutex_list := b\<rparr>) =
    Inr ((load_hash_in_index (md5 (zero_block s)) 0 s)\<lparr>locks_index := [], CANT_WORKERS := 0,
      bitmap := take (nat (8 * bitmap_size (num_blocks s))) (bitmap s)\<rparr>)"
proof -
  have d: "disk_ok s" "blk_mutex_list s = replicate (nat (num_blocks s)) 1"
    using wf by (simp_all add: fs_wf_def fs_ok_def mutex_ok_def)
  then have "0 < BLOCK_SIZE s" "0 < bitmap_size (c_div (FS_SIZE s) (BLOCK_SIZE s))"
    using bitmap_size_covers(1)[OF num_blocks_pos[OF d(1)]] by (simp_all add: disk_ok_def num_blocks_def)
  with assms d show ?thesis
    by (cases s) (auto simp: storage_init_def Let_def get_hash_from_content_def zero_block_def
        load_hash_in_index_def remove_hash_def hash_is_loaded_def init_locks_index_def get_in_dir num_blocks_def
        bitmap_init_def)
qed

text \<open>Only the index changes on disk.\<close>

lemma restart_state:
  fixes h :: string
  assumes "fs_wf s"
  defines "s' \<equiv> (load_hash_in_index h 0 s)\<lparr>locks_index := [], CANT_WORKERS := 0,
    bitmap := take (nat (8 * bitmap_size (num_blocks s))) (bitmap s)\<rparr>"
  shows "abs_fs s' = abs_fs s" and "fs_wf s'" and "block_asocied_to h s' = Some (block_name 0)"
    and "get_lock_of f t s' = None"
proof -
  have "load_hash_in_index h 0 s = s\<lparr>config_hash_index := (config_hash_index s)(h \<mapsto> block_name 0)\<rparr>"
    by (auto simp: load_hash_in_index_def remove_hash_def Let_def)
  then have s': "s' = s\<lparr>config_hash_index := (config_hash_index s)(h \<mapsto> block_name 0),
      locks_index := [], CANT_WORKERS := 0,
      bitmap := take (nat (8 * bitmap_size (num_blocks s))) (bitmap s)\<rparr>"
    by (simp add: s'_def)
  have m: "metas s' = metas s"
    by (simp add: s' metas_def storage_metadata_read_def fun_eq_iff)
  have n: "num_blocks s' = num_blocks s" "zero_block s' = zero_block s"
    by (simp_all add: s' num_blocks_def zero_block_def)
  have ok: "disk_ok s" "tree_ok (metas s) s" "mutex_ok s"
    using assms(1) by (simp_all add: fs_wf_def fs_ok_def)
  show "abs_fs s' = abs_fs s" unfolding abs_fs_def m by (simp add: s')
  have "disk_ok s'"
    using ok(1) num_blocks_pos[OF ok(1)] bitmap_size_covers(2)[OF num_blocks_pos[OF ok(1)]]
    unfolding disk_ok_def n by (auto simp: s')
  moreover have "tree_ok (metas s') s'" using ok(2) unfolding tree_ok_def m n by (simp add: s')
  moreover have "mutex_ok s'" using ok(3) unfolding mutex_ok_def n by (simp add: s')
  ultimately show "fs_wf s'" by (simp add: fs_wf_def fs_ok_def index_idle_def) (simp add: s')
  show "block_asocied_to h s' = Some (block_name 0)"
    by (simp add: s' block_asocied_to_def hash_is_loaded_def)
  show "get_lock_of f t s' = None" by (simp add: s' get_lock_of_def)
qed

end
