(* ===== verification/Storage_Handler.thy ===== *)
theory Storage_Handler
  imports Storage_Start
begin

text \<open>
  The storage's side of the conversation with a worker: \<open>desglozar_instruccion\<close>, which takes
  an instruction's packet apart, and one round of \<open>storage_worker_handler\<close>, which answers a
  packet. \<open>anda\<close> says whether a \<open>send\<close> worked.
\<close>

section \<open>Instructions\<close>

definition desglozar_instruccion ::
    "(byte list \<Rightarrow> string) \<Rightarrow> byte list list \<Rightarrow> storage \<Rightarrow> fault + (rta_storage \<times> storage)" where
  "desglozar_instruccion md5 pkg s =
     bindE (item_int32 pkg 0) (\<lambda>c.
       case copi_of c of
         Some CREATE \<Rightarrow>
           bindE (item_str pkg 1) (\<lambda>f. bindE (item_str pkg 2) (\<lambda>t. storage_create f t s))
       | Some COMMIT \<Rightarrow>
           bindE (item_str pkg 1) (\<lambda>f. bindE (item_str pkg 2) (\<lambda>t. storage_commit md5 f t s))
       | Some DELETE \<Rightarrow>
           bindE (item_str pkg 1) (\<lambda>f. bindE (item_str pkg 2) (\<lambda>t. storage_delete md5 f t s))
       | Some TRUNCATE \<Rightarrow>
           bindE (item_str pkg 1) (\<lambda>f. bindE (item_str pkg 2) (\<lambda>t.
           bindE (item_int32 pkg 4) (\<lambda>n. storage_truncate f t (sint n) s)))
       | Some TAG \<Rightarrow>
           bindE (item_str pkg 1) (\<lambda>f. bindE (item_str pkg 2) (\<lambda>t.
           bindE (item_str pkg 4) (\<lambda>f2. bindE (item_str pkg 5) (\<lambda>t2. storage_tag f t f2 t2 s))))
       | _ \<Rightarrow> Inr (NOT_DEF_ERR, s))"

section \<open>Answering a worker\<close>

text \<open>
  What is sent, whether the thread goes on, and the new state. A page that could not be read
  is sent from memory \<open>malloc\<close> never set.
\<close>

definition responder_rta :: "bool \<Rightarrow> rta_storage \<times> storage \<Rightarrow> envio option \<times> bool \<times> storage" where
  "responder_rta anda rs =
     (case rs of (r, s) \<Rightarrow> if anda then (Some (Crudo (int_bytes (rta_val r))), True, s) else (None, False, s))"

definition storage_worker_handler ::
    "(byte list \<Rightarrow> string) \<Rightarrow> op_code \<Rightarrow> byte list list \<Rightarrow> bool \<Rightarrow> storage
     \<Rightarrow> fault + (envio option \<times> bool \<times> storage)" where
  "storage_worker_handler md5 opcode pkg anda s =
     (case opcode of
        HANDSHAKE_WORKER_STORAGE \<Rightarrow>
          bindE (item_str pkg 0) (\<lambda>id_worker.
            Inr (Some (Crudo (int_bytes (word_of_int (BLOCK_SIZE s)))), True,
                 s\<lparr>CANT_WORKERS := CANT_WORKERS s + 1\<rparr>))
      | INFO_FILE_TAG_STORAGE \<Rightarrow>
          bindE (item_str pkg 0) (\<lambda>f. bindE (item_str pkg 1) (\<lambda>t.
            let sz = (case storage_metadata_read f t s of None \<Rightarrow> - 1 | Some m \<Rightarrow> tamanio m)
            in Inr (Some (Paquete INFO_FILE_TAG_WORKER [int_bytes (word_of_int sz)]), True, s)))
      | INSTRUCCION_STORAGE \<Rightarrow>
          bindE (desglozar_instruccion md5 pkg s) (\<lambda>rs. Inr (responder_rta anda rs))
      | MODIFICACIONES_STORAGE \<Rightarrow>
          bindE (item_str pkg 0) (\<lambda>f. bindE (item_str pkg 1) (\<lambda>t.
          bindE (item_int32 pkg 2) (\<lambda>nro_pagina. bindE (item pkg 3) (\<lambda>contenido.
          bindE (storage_write f t (sint nro_pagina) contenido s) (\<lambda>rs. Inr (responder_rta anda rs))))))
      | SOLICITUD_STORAGE \<Rightarrow>
          bindE (item_str pkg 0) (\<lambda>f. bindE (item_str pkg 1) (\<lambda>t.
          bindE (item_int32 pkg 2) (\<lambda>nro_pagina.
          bindE (storage_read f t (sint nro_pagina) s) (\<lambda>((r, contenido), s).
            case contenido of
              None \<Rightarrow> Inl Indeterminate
            | Some c \<Rightarrow> Inr (Some (Paquete PAGINA_WORKER [int_bytes (rta_val r), c]), True, s)))))
      | DESCONEXION \<Rightarrow> Inr (None, False, s\<lparr>CANT_WORKERS := CANT_WORKERS s - 1\<rparr>)
      | _ \<Rightarrow> Inr (None, True, s))"

end
