(* ===== verification/Conexiones.thy ===== *)
theory Conexiones
  imports Query_Control Master_Handlers Storage_Handler
begin

text \<open>
  Coming and going, down to the bytes in the socket: the Query Control's \<open>main\<close>, what the
  master's network handler does with a new connection, and the notices of disconnection that
  the modules send when they exit. A closed or failed socket is a peer that sends nothing.
\<close>

section \<open>The Query Control's main\<close>

text \<open>The packet of the handshake: the query's file and its priority, as they were typed.\<close>

definition query_handshake :: "string list \<Rightarrow> fault + byte list" where
  "query_handshake argv =
     (if length argv < 4 then Inl ExitFailure
      else
        bindE (armar_paquete (op_code_val HANDSHAKE_QUERY_MASTER) [cstr (argv ! 2), cstr (argv ! 3)])
          (\<lambda>p. Inr (serializar_paquete p)))"

text \<open>The bytes received as acknowledgement are not looked at; the rest is the loop.\<close>

definition query_control_main ::
    "string list \<Rightarrow> byte list \<Rightarrow> (op_code \<times> byte list list) list \<Rightarrow> fault + aviso list" where
  "query_control_main argv ack ps =
     bindE (query_handshake argv) (\<lambda>enviado. if ack = [] then Inl ExitFailure else recibir_mensaje ps)"

section \<open>A new connection in the master\<close>

definition master_network_handler :: "insercion \<Rightarrow> int \<Rightarrow> byte list \<Rightarrow> master \<Rightarrow> fault + master" where
  "master_network_handler ins connection_socket recibido m =
     bindE (recv_package recibido) (\<lambda>(package, _).
     bindE (get_opcode package) (\<lambda>(opcode, items).
       case op_code_of opcode of
         Some HANDSHAKE_QUERY_MASTER \<Rightarrow> handshake_query ins connection_socket items m
       | Some HANDSHAKE_WORKER_MASTER \<Rightarrow> handshake_worker connection_socket items m
       | _ \<Rightarrow> Inr m))"

section \<open>Leaving\<close>

text \<open>What each socket is sent at exit; a socket that was never opened is -1.\<close>

definition aviso_desconexion :: "byte list" where
  "aviso_desconexion = serializar_paquete (crear_paquete (op_code_val DESCONEXION))"

definition notificar_modulos :: "int \<Rightarrow> int \<Rightarrow> (int \<times> byte list) list" where
  "notificar_modulos storage_socket master_socket =
     (if storage_socket \<noteq> - 1 then [(storage_socket, aviso_desconexion)] else []) @
     (if master_socket \<noteq> - 1 then [(master_socket, aviso_desconexion)] else [])"

definition notificar_master :: "int \<Rightarrow> (int \<times> byte list) list" where
  "notificar_master socket_master = (if socket_master \<noteq> - 1 then [(socket_master, aviso_desconexion)] else [])"

section \<open>Properties\<close>

lemma handshake_bytes:
  assumes "4 \<le> length argv" and "items_fit [cstr (argv ! 2), cstr (argv ! 3)]"
  shows "query_handshake argv = Inr (serializar_paquete
      (paquete_con (op_code_val HANDSHAKE_QUERY_MASTER) [cstr (argv ! 2), cstr (argv ! 3)]))"
  using assms by (simp add: query_handshake_def armar_paquete_eq)

lemma cstr_no_vacio [simp]: "cstr s \<noteq> []"
  by (simp add: cstr_def)



text \<open>
  A notice of disconnection is read as its code and no items; the storage counts a worker less
  and ends the conversation, and nothing else of it changes.
\<close>

lemma desconexion_leida: "recv_package (aviso_desconexion @ rest) = Inr ([int_bytes (op_code_val DESCONEXION)], rest)"
  using recv_package_con[of "[]" "op_code_val DESCONEXION" rest]
  by (simp add: aviso_desconexion_def crear_paquete_con items_fit_def)

lemma worker_se_va:
  assumes "(s, bs) \<in> set (notificar_modulos storage_socket master_socket)"
  shows "\<exists>items. recv_package bs = Inr (int_bytes (op_code_val DESCONEXION) # items, []) \<and>
           storage_worker_handler md5 DESCONEXION items anda st =
             Inr (None, False, st\<lparr>CANT_WORKERS := CANT_WORKERS st - 1\<rparr>)"
proof -
  have "bs = aviso_desconexion" using assms by (auto simp: notificar_modulos_def split: if_split_asm)
  then show ?thesis using desconexion_leida[of "[]"] by (simp add: storage_worker_handler_def)
qed

text \<open>
  A connection that could not be accepted, or whose peer leaves before it says anything, ends
  the master: \<open>recibir_paquete\<close> exits on it.
\<close>

lemma silent_peer_ends_master: "master_network_handler ins s [] m = Inl ExitFailure"
  by (simp add: master_network_handler_def recv_package_def recibir_paquete_def recv_all_def)

end
