(* ===== verification/Lock_Protocol.thy ===== *)
theory Lock_Protocol
  imports Storage_Locks
begin

text \<open>
  The lock functions of \<open>storage_locks.c\<close> as the threads of the storage interleave them. A lock
  is an object reached through the index and through the pointer a waiting thread keeps, so
  the locks live in a heap; the two levels of the index are one map from File:Tag to pointer.
  What runs under \<open>sem_locks_index\<close> is one step; outside it are the \<open>sem_wait\<close> on the lock and
  the decrement of its count, which reads and then writes.
\<close>

section \<open>Threads and steps\<close>

text \<open>
  Where a thread stands: outside; waiting on the semaphore of a lock; holding it with the count
  still to be lowered, before and after reading it; in the body of an operation, with the lock
  it took, if it found one.
\<close>

datatype 'k lugar =
    Fuera
  | Espera 'k nat
  | Tiene 'k nat
  | Resta 'k nat int
  | Dentro 'k "nat option"

record 'k protocolo =
  indice :: "'k \<rightharpoonup> nat"
  cerrojos :: "nat \<rightharpoonup> t_lock"
  prox_lock :: nat
  hilos :: "'k lugar list"

definition ir :: "nat \<Rightarrow> 'k lugar \<Rightarrow> 'k protocolo \<Rightarrow> 'k protocolo" where
  "ir i l s = s\<lparr>hilos := (hilos s)[i := l]\<rparr>"

definition poner_lock :: "nat \<Rightarrow> t_lock \<Rightarrow> 'k protocolo \<Rightarrow> 'k protocolo" where
  "poner_lock p l s = s\<lparr>cerrojos := (cerrojos s)(p \<mapsto> l)\<rparr>"

definition destruir_lock :: "'k \<Rightarrow> nat \<Rightarrow> 'k protocolo \<Rightarrow> 'k protocolo" where
  "destruir_lock k p s = s\<lparr>indice := (indice s)(k := None), cerrojos := (cerrojos s)(p := None)\<rparr>"

text \<open>\<open>storage_wait\<close>, up to the release of \<open>sem_locks_index\<close>.\<close>

definition wait_registra :: "nat \<Rightarrow> 'k \<Rightarrow> 'k protocolo \<Rightarrow> fault + 'k protocolo" where
  "wait_registra i k s =
     (case indice s k of
        None \<Rightarrow> Inr (ir i (Dentro k None) s)
      | Some p \<Rightarrow>
          bindE (deref (cerrojos s) p) (\<lambda>l. Inr (ir i (Espera k p) (poner_lock p (lock_register l) s))))"

text \<open>Its \<open>sem_wait\<close>, then the read and the write of \<open>lock->count_waiting--\<close>.\<close>

definition wait_toma :: "nat \<Rightarrow> 'k \<Rightarrow> nat \<Rightarrow> 'k protocolo \<Rightarrow> fault + 'k protocolo" where
  "wait_toma i k p s =
     bindE (deref (cerrojos s) p) (\<lambda>l.
     bindE (lock_acquire l) (\<lambda>l. Inr (ir i (Tiene k p) (poner_lock p l s))))"

definition wait_lee :: "nat \<Rightarrow> 'k \<Rightarrow> nat \<Rightarrow> 'k protocolo \<Rightarrow> fault + 'k protocolo" where
  "wait_lee i k p s =
     bindE (deref (cerrojos s) p) (\<lambda>l. Inr (ir i (Resta k p (count_waiting l)) s))"

definition wait_escribe :: "nat \<Rightarrow> 'k \<Rightarrow> nat \<Rightarrow> int \<Rightarrow> 'k protocolo \<Rightarrow> fault + 'k protocolo" where
  "wait_escribe i k p c s =
     bindE (deref (cerrojos s) p) (\<lambda>l.
       Inr (ir i (Dentro k (Some p)) (poner_lock p (l\<lparr>count_waiting := c - 1\<rparr>) s)))"

definition signal_hilo :: "nat \<Rightarrow> 'k \<Rightarrow> 'k protocolo \<Rightarrow> fault + 'k protocolo" where
  "signal_hilo i k s =
     (case indice s k of
        None \<Rightarrow> Inr (ir i Fuera s)
      | Some p \<Rightarrow>
          bindE (deref (cerrojos s) p) (\<lambda>l.
            if \<not> lock_delete l \<or> count_waiting l \<noteq> 0
            then Inr (ir i Fuera (poner_lock p (l\<lparr>sem_file_tag := Suc (sem_file_tag l)\<rparr>) s))
            else Inr (ir i Fuera (destruir_lock k p s))))"

definition remove_hilo :: "'k \<Rightarrow> 'k protocolo \<Rightarrow> fault + 'k protocolo" where
  "remove_hilo k s =
     (case indice s k of
        None \<Rightarrow> Inr s
      | Some p \<Rightarrow>
          bindE (deref (cerrojos s) p) (\<lambda>l.
            if count_waiting l \<noteq> 0 then Inr (poner_lock p (l\<lparr>lock_delete := True\<rparr>) s)
            else Inr (destruir_lock k p s)))"

definition add_hilo :: "'k \<Rightarrow> 'k protocolo \<Rightarrow> 'k protocolo" where
  "add_hilo k s =
     (if indice s k = None
      then s\<lparr>indice := (indice s)(k \<mapsto> prox_lock s),
             cerrojos := (cerrojos s)(prox_lock s \<mapsto> create_lock), prox_lock := Suc (prox_lock s)\<rparr>
      else s)"

text \<open>
  A thread starts an operation on a File:Tag, goes on, ends it, removes the lock in the body of
  a DELETE, or adds one in a CREATE.
\<close>

datatype 'k accion = Empieza 'k | Sigue | Termina | Borra | Crea 'k

fun paso_hilo :: "nat \<Rightarrow> 'k accion \<Rightarrow> 'k protocolo \<Rightarrow> fault + 'k protocolo" where
  "paso_hilo i a s =
     (if length (hilos s) \<le> i then Inl Blocked
      else case (a, hilos s ! i) of
        (Empieza k, Fuera) \<Rightarrow> wait_registra i k s
      | (Crea k, Fuera) \<Rightarrow> Inr (add_hilo k s)
      | (Sigue, Espera k p) \<Rightarrow> wait_toma i k p s
      | (Sigue, Tiene k p) \<Rightarrow> wait_lee i k p s
      | (Sigue, Resta k p c) \<Rightarrow> wait_escribe i k p c s
      | (Termina, Dentro k r) \<Rightarrow> signal_hilo i k s
      | (Borra, Dentro k r) \<Rightarrow> remove_hilo k s
      | _ \<Rightarrow> Inl Blocked)"

fun correr_hilos :: "(nat \<times> 'k accion) list \<Rightarrow> 'k protocolo \<Rightarrow> fault + 'k protocolo" where
  "correr_hilos [] s = Inr s"
| "correr_hilos ((i, a) # as) s = bindE (paso_hilo i a s) (correr_hilos as)"

text \<open>The locks of a start: one for each File:Tag of a list, and every thread outside.\<close>

definition protocolo_inicial :: "'k list \<Rightarrow> nat \<Rightarrow> 'k protocolo" where
  "protocolo_inicial ks n =
     fold add_hilo ks \<lparr>indice = Map.empty, cerrojos = Map.empty, prox_lock = 0, hilos = replicate n Fuera\<rparr>"

section \<open>Mutual exclusion\<close>

text \<open>A thread in the section of a File:Tag, and one that took a given lock.\<close>

fun en_seccion :: "'k \<Rightarrow> 'k lugar \<Rightarrow> bool" where
  "en_seccion k (Tiene k' p) = (k' = k)"
| "en_seccion k (Resta k' p c) = (k' = k)"
| "en_seccion k (Dentro k' r) = (k' = k)"
| "en_seccion k _ = False"

definition cuantos :: "('a \<Rightarrow> bool) \<Rightarrow> 'a list \<Rightarrow> nat" where
  "cuantos P xs = length (filter P xs)"

lemma cuantos_update:
  "i < length xs \<Longrightarrow>
   cuantos P (xs[i := x]) + (if P (xs ! i) then 1 else 0) = cuantos P xs + (if P x then 1 else 0)"
proof (induction xs arbitrary: i)
  case (Cons y xs)
  show ?case
  proof (cases i)
    case (Suc j)
    then show ?thesis using Cons.IH[of j] Cons.prems by (simp add: cuantos_def)
  qed (simp add: cuantos_def)
qed simp

lemma cuantos_two:
  assumes "i < length xs" and "j < length xs" and "i \<noteq> j" and "P (xs ! i)" and "P (xs ! j)"
  shows "2 \<le> cuantos P xs"
proof -
  have "cuantos P [xs ! a. a \<leftarrow> [0..<length xs]] = card {a. a < length xs \<and> P (xs ! a)}"
    by (simp add: map_nth cuantos_def length_filter_conv_card)
  then have c: "cuantos P xs = card {a. a < length xs \<and> P (xs ! a)}" by (simp add: map_nth)
  have "card {i, j} \<le> card {a. a < length xs \<and> P (xs ! a)}"
    by (rule card_mono) (use assms in auto)
  with c assms(3) show ?thesis by simp
qed

lemma cuantos_zero: "cuantos P xs = 0 \<longleftrightarrow> (\<forall>x \<in> set xs. \<not> P x)"
  by (simp add: cuantos_def filter_empty_conv)

text \<open>The File:Tag and the lock of the place of a thread.\<close>

fun puntero_de :: "'k lugar \<Rightarrow> ('k \<times> nat option) option" where
  "puntero_de Fuera = None"
| "puntero_de (Espera k p) = Some (k, Some p)"
| "puntero_de (Tiene k p) = Some (k, Some p)"
| "puntero_de (Resta k p c) = Some (k, Some p)"
| "puntero_de (Dentro k r) = Some (k, r)"

lemma en_seccion_puntero: "en_seccion k x \<Longrightarrow> \<exists>r. puntero_de x = Some (k, r)"
  by (cases x) auto

lemma puntero_None: "puntero_de x = Some (k, None) \<longleftrightarrow> x = Dentro k None"
  by (cases x) auto

text \<open>
  The invariant: every lock of the index exists, is not marked, and is free exactly when no
  thread is in its section; a thread's pointer is the one in the index.
\<close>

definition lock_libre :: "'k protocolo \<Rightarrow> 'k \<Rightarrow> nat \<Rightarrow> bool" where
  "lock_libre s k p \<longleftrightarrow>
     p < prox_lock s \<and>
     (\<exists>l. cerrojos s p = Some l \<and> \<not> lock_delete l \<and>
          sem_file_tag l + cuantos (en_seccion k) (hilos s) = 1)"

definition exclusion :: "'k protocolo \<Rightarrow> bool" where
  "exclusion s \<longleftrightarrow>
     (\<forall>k p. indice s k = Some p \<longrightarrow> lock_libre s k p) \<and>
     (\<forall>k k' p. indice s k = Some p \<longrightarrow> indice s k' = Some p \<longrightarrow> k = k') \<and>
     (\<forall>x \<in> set (hilos s). \<forall>k r. puntero_de x = Some (k, r) \<longrightarrow> indice s k = r)"

lemma exclusionD:
  assumes "exclusion s"
  shows "indice s k = Some p \<Longrightarrow> lock_libre s k p"
    and "indice s k = Some p \<Longrightarrow> indice s k' = Some p \<Longrightarrow> k = k'"
    and "x \<in> set (hilos s) \<Longrightarrow> puntero_de x = Some (k, r) \<Longrightarrow> indice s k = r"
  using assms by (auto simp: exclusion_def)

lemma cuantos_ir:
  assumes "i < length (hilos s)"
  shows "cuantos P (hilos (ir i x s)) + (if P (hilos s ! i) then 1 else 0) =
         cuantos P (hilos s) + (if P x then 1 else 0)"
  using cuantos_update[OF assms] by (simp add: ir_def)

text \<open>A move of one thread, with a change of the lock of its File:Tag, keeps the invariant.\<close>

lemma exclusion_mueve:
  assumes ex: "exclusion s" and i: "i < length (hilos s)" and k: "indice s k = Some p"
    and l: "cerrojos s p = Some l" and nd: "\<not> lock_delete l'"
    and x0: "puntero_de (hilos s ! i) \<in> {None, Some (k, Some p)}"
    and x: "puntero_de x \<in> {None, Some (k, Some p)}"
    and sem: "sem_file_tag l' + (if en_seccion k x then 1 else 0) =
              sem_file_tag l + (if en_seccion k (hilos s ! i) then 1 else 0)"
  shows "exclusion (ir i x (poner_lock p l' s))" (is "exclusion ?t")
proof -
  have hil: "hilos ?t = hilos (ir i x s)" and ind: "indice ?t = indice s"
    and prox: "prox_lock ?t = prox_lock s" and cer: "cerrojos ?t = (cerrojos s)(p \<mapsto> l')"
    by (simp_all add: ir_def poner_lock_def)
  have "lock_libre ?t k' p'" if k': "indice s k' = Some p'" for k' p'
  proof (cases "k' = k")
    case True
    then have p': "p' = p" using k k' by simp
    have "lock_libre s k p" by (rule exclusionD(1)[OF ex k])
    then show ?thesis
      using cuantos_ir[OF i, of "en_seccion k" x] sem nd l True p'
      by (auto simp: lock_libre_def hil prox cer)
  next
    case False
    then have "p' \<noteq> p" using exclusionD(2)[OF ex k' ] k by auto
    moreover have "\<not> en_seccion k' x" "\<not> en_seccion k' (hilos s ! i)"
      using en_seccion_puntero[of k'] x x0 False by fastforce+
    then have "cuantos (en_seccion k') (hilos ?t) = cuantos (en_seccion k') (hilos s)"
      using cuantos_ir[OF i, of "en_seccion k'" x] hil by simp
    moreover have "lock_libre s k' p'" by (rule exclusionD(1)[OF ex k'])
    ultimately show ?thesis by (auto simp: lock_libre_def prox cer)
  qed
  moreover have "\<forall>y \<in> set (hilos ?t). \<forall>k' r. puntero_de y = Some (k', r) \<longrightarrow> indice s k' = r"
    using exclusionD(3)[OF ex] x k set_update_subset_insert[of "hilos s" i x]
    by (auto simp: ir_def poner_lock_def)
  ultimately show ?thesis using exclusionD(2)[OF ex] unfolding exclusion_def ind by blast
qed

text \<open>A thread with no lock moves.\<close>

lemma exclusion_sin_lock:
  assumes ex: "exclusion s" and i: "i < length (hilos s)" and k: "indice s k = None"
    and x0: "puntero_de (hilos s ! i) \<in> {None, Some (k, None)}"
    and x: "puntero_de x \<in> {None, Some (k, None)}"
  shows "exclusion (ir i x s)" (is "exclusion ?t")
proof -
  have "lock_libre ?t k' p'" if k': "indice s k' = Some p'" for k' p'
  proof -
    have "k' \<noteq> k" using k k' by auto
    then have "\<not> en_seccion k' x" "\<not> en_seccion k' (hilos s ! i)"
      using en_seccion_puntero[of k'] x x0 by fastforce+
    then have "cuantos (en_seccion k') (hilos ?t) = cuantos (en_seccion k') (hilos s)"
      using cuantos_ir[OF i, of "en_seccion k'" x] by simp
    moreover have "lock_libre s k' p'" by (rule exclusionD(1)[OF ex k'])
    ultimately show ?thesis by (simp add: lock_libre_def ir_def)
  qed
  moreover have "\<forall>y \<in> set (hilos ?t). \<forall>k' r. puntero_de y = Some (k', r) \<longrightarrow> indice s k' = r"
    using exclusionD(3)[OF ex] x k set_update_subset_insert[of "hilos s" i x]
    by (auto simp: ir_def)
  ultimately show ?thesis using exclusionD(2)[OF ex] by (auto simp: exclusion_def ir_def)
qed

lemma exclusion_add:
  assumes ex: "exclusion s" and nd: "Dentro k None \<notin> set (hilos s)"
  shows "exclusion (add_hilo k s)"
proof (cases "indice s k")
  case None
  let ?t = "add_hilo k s"
  have t: "indice ?t = (indice s)(k \<mapsto> prox_lock s)" "hilos ?t = hilos s"
    "cerrojos ?t = (cerrojos s)(prox_lock s \<mapsto> create_lock)" "prox_lock ?t = Suc (prox_lock s)"
    using None by (simp_all add: add_hilo_def)
  have lt: "p < prox_lock s" if "indice s k' = Some p" for k' p
    using exclusionD(1)[OF ex that] by (simp add: lock_libre_def)
  have no: "puntero_de x \<noteq> Some (k, r)" if "x \<in> set (hilos s)" for x r
    using exclusionD(3)[OF ex that, of k r] None nd that by (auto simp: puntero_None)
  then have "cuantos (en_seccion k) (hilos s) = 0"
    using en_seccion_puntero by (fastforce simp: cuantos_zero)
  then have "lock_libre ?t k' p" if "indice ?t k' = Some p" for k' p
    using that lt exclusionD(1)[OF ex, of k' p]
    by (fastforce simp: lock_libre_def t create_lock_def split: if_splits)
  moreover have "k1 = k2" if "indice ?t k1 = Some p" "indice ?t k2 = Some p" for k1 k2 p
    using that lt exclusionD(2)[OF ex] by (fastforce simp: t split: if_splits)
  moreover have "indice ?t k' = r" if "x \<in> set (hilos s)" "puntero_de x = Some (k', r)" for x k' r
    using that no exclusionD(3)[OF ex that] by (auto simp: t)
  ultimately show ?thesis unfolding exclusion_def t(2) by blast
qed (use ex in \<open>simp add: add_hilo_def\<close>)

section \<open>Runs without removals\<close>

text \<open>
  The steps of runs in which no lock is removed, and no lock is added while a thread is in the
  body of an operation that found none.
\<close>

inductive paso_sin_borrar :: "'k protocolo \<Rightarrow> 'k protocolo \<Rightarrow> bool" where
  "paso_hilo i a s = Inr t \<Longrightarrow> a \<noteq> Borra \<Longrightarrow>
   (\<And>k. a = Crea k \<Longrightarrow> Dentro k None \<notin> set (hilos s)) \<Longrightarrow> paso_sin_borrar s t"

lemma add_hilo_hilos [simp]: "hilos (add_hilo k s) = hilos s"
  by (simp add: add_hilo_def)

lemma exclusion_inicial: "exclusion (protocolo_inicial ks n)"
proof -
  have "exclusion (fold add_hilo ks s) \<and> set (hilos (fold add_hilo ks s)) \<subseteq> {Fuera}"
    if "exclusion s" "set (hilos s) \<subseteq> {Fuera}" for s :: "'a protocolo"
    using that
  proof (induction ks arbitrary: s)
    case (Cons k ks)
    have "exclusion (add_hilo k s)" by (rule exclusion_add) (use Cons.prems in auto)
    then show ?case using Cons.IH[of "add_hilo k s"] Cons.prems by simp
  qed simp
  moreover have "exclusion \<lparr>indice = Map.empty, cerrojos = Map.empty, prox_lock = 0, hilos = replicate n Fuera\<rparr>"
    by (auto simp: exclusion_def)
  ultimately show ?thesis unfolding protocolo_inicial_def by fastforce
qed

lemma exclusion_paso:
  assumes ex: "exclusion s" and st: "paso_sin_borrar s t"
  shows "exclusion t"
proof -
  from st obtain i a where p: "paso_hilo i a s = Inr t" and nb: "a \<noteq> Borra"
    and cr: "\<And>k. a = Crea k \<Longrightarrow> Dentro k None \<notin> set (hilos s)"
    by (cases rule: paso_sin_borrar.cases) blast
  then have i: "i < length (hilos s)" by (auto split: if_splits)
  have lk: "\<exists>l. cerrojos s q = Some l \<and> \<not> lock_delete l" if "indice s k = Some q" for k q
    using exclusionD(1)[OF ex that] by (auto simp: lock_libre_def)
  have pt: "indice s k = r" if "puntero_de (hilos s ! i) = Some (k, r)" for k r
    using exclusionD(3)[OF ex _ that] i by simp
  note move = exclusion_mueve[OF ex i]
  show ?thesis
  proof (cases "hilos s ! i")
    case Fuera
    show ?thesis
    proof (cases a)
      case (Empieza k)
      show ?thesis
      proof (cases "indice s k")
        case None
        then show ?thesis
          using exclusion_sin_lock[OF ex i None, of "Dentro k None"] p i Fuera Empieza
          by (simp add: wait_registra_def)
      next
        case (Some q)
        then obtain l where l: "cerrojos s q = Some l" "\<not> lock_delete l" using lk by blast
        then have t: "t = ir i (Espera k q) (poner_lock q (lock_register l) s)"
          using p i Fuera Empieza Some by (simp add: wait_registra_def)
        show ?thesis
          unfolding t by (rule move[OF Some l(1)]) (use l(2) Fuera in \<open>simp_all add: lock_register_def\<close>)
      qed
    next
      case (Crea k)
      then show ?thesis using exclusion_add[OF ex cr] p i Fuera by simp
    qed (use p i Fuera nb in simp_all)
  next
    case (Espera k q)
    then have k: "indice s k = Some q" using pt by simp
    then obtain l where l: "cerrojos s q = Some l" "\<not> lock_delete l" using lk by blast
    then have t: "t = ir i (Tiene k q) (poner_lock q (l\<lparr>sem_file_tag := sem_file_tag l - 1\<rparr>) s)"
      and pos: "sem_file_tag l \<noteq> 0"
      using p i Espera by (auto simp: wait_toma_def lock_acquire_def split: accion.splits if_splits)
    show ?thesis
      unfolding t by (rule move[OF k l(1)]) (use l(2) pos Espera in simp_all)
  next
    case (Tiene k q)
    then have k: "indice s k = Some q" using pt by simp
    then obtain l where l: "cerrojos s q = Some l" "\<not> lock_delete l" using lk by blast
    then have "poner_lock q l s = s" by (simp add: poner_lock_def fun_upd_idem)
    moreover have "t = ir i (Resta k q (count_waiting l)) s"
      using p i Tiene l by (auto simp: wait_lee_def split: accion.splits)
    ultimately show ?thesis
      using move[OF k l(1,2), of "Resta k q (count_waiting l)"] Tiene by simp
  next
    case (Resta k q c)
    then have k: "indice s k = Some q" using pt by simp
    then obtain l where l: "cerrojos s q = Some l" "\<not> lock_delete l" using lk by blast
    then have t: "t = ir i (Dentro k (Some q)) (poner_lock q (l\<lparr>count_waiting := c - 1\<rparr>) s)"
      using p i Resta by (auto simp: wait_escribe_def split: accion.splits)
    show ?thesis
      unfolding t by (rule move[OF k l(1)]) (use l(2) Resta in simp_all)
  next
    case (Dentro k r)
    then have k: "indice s k = r" using pt by simp
    show ?thesis
    proof (cases r)
      case None
      then have t: "t = ir i Fuera s"
        using p i Dentro k nb by (auto simp: signal_hilo_def split: accion.splits)
      show ?thesis
        unfolding t by (rule exclusion_sin_lock[OF ex i, of k]) (use None k Dentro in simp_all)
    next
      case (Some q)
      then obtain l where l: "cerrojos s q = Some l" "\<not> lock_delete l" using lk k by blast
      then have t: "t = ir i Fuera (poner_lock q (l\<lparr>sem_file_tag := Suc (sem_file_tag l)\<rparr>) s)"
        using p i Dentro k Some nb by (auto simp: signal_hilo_def split: accion.splits)
      show ?thesis
        unfolding t by (rule move[OF _ l(1), of k]) (use l(2) Dentro Some k in simp_all)
    qed
  qed
qed

interpretation cerradura: invariant_system
  "\<lambda>s. \<exists>ks n. s = protocolo_inicial ks n" paso_sin_borrar exclusion
  by unfold_locales (auto intro: exclusion_inicial exclusion_paso)

text \<open>The lock of a File:Tag is taken exactly while a thread is in its section.\<close>

lemma exclusion_una:
  assumes ex: "exclusion s" and k: "indice s k = Some p" and ij: "i < length (hilos s)" "j < length (hilos s)"
    and en: "en_seccion k (hilos s ! i)" "en_seccion k (hilos s ! j)"
  shows "i = j"
proof (rule ccontr)
  assume "i \<noteq> j"
  then have "2 \<le> cuantos (en_seccion k) (hilos s)" using cuantos_two ij en by metis
  then show False using exclusionD(1)[OF ex k] by (auto simp: lock_libre_def)
qed

lemma exclusion_espera:
  assumes ex: "exclusion s" and i: "i < length (hilos s)" and e: "hilos s ! i = Espera k p"
  shows "(paso_hilo i Sigue s = Inl Blocked \<and> (\<exists>x \<in> set (hilos s). en_seccion k x)) \<or>
         ((\<exists>t. paso_hilo i Sigue s = Inr t) \<and> (\<forall>x \<in> set (hilos s). \<not> en_seccion k x))"
proof -
  have k: "indice s k = Some p" using exclusionD(3)[OF ex nth_mem[OF i], of k "Some p"] e by simp
  then obtain l where l: "cerrojos s p = Some l"
    "sem_file_tag l + cuantos (en_seccion k) (hilos s) = 1"
    using exclusionD(1)[OF ex] by (auto simp: lock_libre_def)
  then show ?thesis
    using i e cuantos_zero[of "en_seccion k" "hilos s"]
    by (cases "sem_file_tag l = 0") (auto simp: wait_toma_def lock_acquire_def)
qed

text \<open>
  C34: while no lock is removed, and none is added under a thread that found none, at most one
  thread is in the section of a File:Tag that has a lock, and a thread that waits for it goes on
  as soon as nobody is in it.
\<close>

theorem lock_mutual_exclusion:
  assumes "reach (\<lambda>s. \<exists>ks n. s = protocolo_inicial ks n) paso_sin_borrar s"
  shows "(indice s k = Some p \<longrightarrow> i < length (hilos s) \<longrightarrow> j < length (hilos s) \<longrightarrow>
            en_seccion k (hilos s ! i) \<longrightarrow> en_seccion k (hilos s ! j) \<longrightarrow> i = j) \<and>
         (i < length (hilos s) \<longrightarrow> hilos s ! i = Espera k p \<longrightarrow>
            (if \<exists>x \<in> set (hilos s). en_seccion k x then paso_hilo i Sigue s = Inl Blocked
             else \<exists>t. paso_hilo i Sigue s = Inr t))"
proof -
  have ex: "exclusion s" by (rule cerradura.reach_inv[OF assms])
  show ?thesis using exclusion_una[OF ex] exclusion_espera[OF ex] by fastforce
qed

theorem lock_mutual_exclusion_witness:
  "\<exists>s. correr_hilos [(0, Empieza 7), (1, Empieza (7::nat)), (0, Sigue)] (protocolo_inicial [7] 2) = Inr s \<and>
       hilos s = [Tiene 7 0, Espera 7 0] \<and> paso_hilo 1 Sigue s = Inl Blocked"
proof -
  let ?s0 = "protocolo_inicial [7::nat] 2"
  obtain s1 where s1: "paso_hilo 0 (Empieza 7) ?s0 = Inr s1"
    by (simp add: protocolo_inicial_def add_hilo_def wait_registra_def numeral_2_eq_2)
  obtain s2 where s2: "paso_hilo 1 (Empieza 7) s1 = Inr s2" "indice s2 = indice s1"
    using s1 by (auto simp: protocolo_inicial_def add_hilo_def wait_registra_def numeral_2_eq_2
        ir_def poner_lock_def)
  have "\<exists>s3. paso_hilo 0 Sigue s2 = Inr s3 \<and> hilos s3 = [Tiene 7 0, Espera 7 0]"
    using s1 s2 by (auto simp: protocolo_inicial_def add_hilo_def wait_registra_def wait_toma_def
        lock_acquire_def lock_register_def create_lock_def numeral_2_eq_2 ir_def poner_lock_def)
  then obtain s3 where s3: "paso_hilo 0 Sigue s2 = Inr s3" "hilos s3 = [Tiene 7 0, Espera 7 0]"
    by blast
  have "reach (\<lambda>s. \<exists>ks n. s = protocolo_inicial ks n) paso_sin_borrar s3"
    by (rule reach_step[OF reach_step[OF reach_step[OF reach_init]]])
       (use s1 s2(1) s3(1) in \<open>auto intro: paso_sin_borrar.intros simp del: paso_hilo.simps\<close>)
  from lock_mutual_exclusion[OF this, of 7 0 1] s3(2) have "paso_hilo 1 Sigue s3 = Inl Blocked"
    by (simp del: paso_hilo.simps)
  with s1 s2(1) s3 show ?thesis by (simp del: paso_hilo.simps)
qed

section \<open>Where the protocol breaks\<close>

text \<open>What a run shows: the places of its threads, or its fault.\<close>

definition lugares :: "fault + 'k protocolo \<Rightarrow> fault + 'k lugar list" where
  "lugares r = bindE r (\<lambda>s. Inr (hilos s))"



end
