(* ===== verification/Master_Inv.thy ===== *)
theory Master_Inv
  imports Master_Handlers "HOL-Library.Multiset"
begin

text \<open>
  The invariant of the master's scheduler, for runs with aging off in which the workers send
  what the worker module sends while it runs a query and no query or worker leaves in the
  middle: the queues, the pairs of query and worker and the two semaphores agree, so that no
  thread ever follows a pointer that is not there.
\<close>

section \<open>The invariant\<close>

definition en_mano :: "proceso_pc \<Rightarrow> nat list" where
  "en_mano c = (case c of PH_asigna (Some q) \<Rightarrow> [q] | _ \<Rightarrow> [])"

lemma en_mano_simps [simp]:
  "en_mano PH_ready = []" "en_mano PH_workers = []" "en_mano PH_obtener = []"
  "en_mano (PH_asigna (Some q)) = [q]" "en_mano (PH_asigna None) = []"
  by (simp_all add: en_mano_def)

text \<open>A query and the worker that runs it point at each other.\<close>

definition pareja :: "(nat \<rightharpoonup> query_t) \<Rightarrow> (nat \<rightharpoonup> worker_t) \<Rightarrow> nat \<Rightarrow> nat \<Rightarrow> bool" where
  "pareja Q T q w \<longleftrightarrow>
     (\<exists>x y. Q q = Some x \<and> q_state x = EXEC \<and> q_worker x = Some w \<and>
        T w = Some y \<and> w_state y = EXEC \<and> w_query y = Some q)"

lemma pareja_unica: "pareja Q T q w \<Longrightarrow> pareja Q T q' w' \<Longrightarrow> q = q' \<longleftrightarrow> w = w'"
  by (auto simp: pareja_def)

text \<open>Queues, hands and heaps: who is where, and whom it points to.\<close>

definition colas_ok ::
    "nat list \<Rightarrow> nat list \<Rightarrow> nat list \<Rightarrow> nat list \<Rightarrow> (nat \<rightharpoonup> query_t) \<Rightarrow> (nat \<rightharpoonup> worker_t) \<Rightarrow> bool" where
  "colas_ok rs es en ws Q T \<longleftrightarrow>
     distinct (rs @ es @ en) \<and> distinct ws \<and>
     (\<forall>q \<in> set rs \<union> set en. \<exists>x. Q q = Some x \<and> q_state x \<noteq> FINISHED) \<and>
     (\<forall>q \<in> set es. \<exists>w \<in> set ws. pareja Q T q w) \<and>
     (\<forall>w \<in> set ws. \<exists>y. T w = Some y \<and> \<not> error_at_exec y \<and>
        (w_state y = READY \<or> (\<exists>q \<in> set es. pareja Q T q w))) \<and>
     (\<forall>w y. T w = Some y \<longrightarrow> w \<in> set ws) \<and>
     (\<forall>q x. Q q = Some x \<longrightarrow> \<not> q_interrumpir x)"

definition libre :: "(nat \<rightharpoonup> worker_t) \<Rightarrow> nat \<Rightarrow> bool" where
  "libre T w \<longleftrightarrow> map_option w_state (T w) = Some READY"

definition cuentas_ok :: "master \<Rightarrow> bool" where
  "cuentas_ok m \<longleftrightarrow>
     length (querys_ready m) = sem_ready m + (if proceso m \<in> {PH_workers, PH_obtener} then 1 else 0)
       + (if red m \<noteq> None then 1 else 0) \<and>
     length (filter (libre (trabajadores m)) (workers m)) = sem_workers m
       + (if proceso m = PH_ready \<or> proceso m = PH_workers then 0 else 1) \<and>
     proceso m \<noteq> PH_asigna None"

definition prio :: "(nat \<rightharpoonup> query_t) \<Rightarrow> nat \<Rightarrow> int" where
  "prio Q q = (case Q q of None \<Rightarrow> 0 | Some x \<Rightarrow> prioridad x)"

definition en_orden :: "(nat \<rightharpoonup> query_t) \<Rightarrow> nat list \<Rightarrow> bool" where
  "en_orden Q rs = sorted_wrt (\<lambda>a b. prio Q a \<le> prio Q b) rs"

definition fresco :: "master \<Rightarrow> bool" where
  "fresco m \<longleftrightarrow> (\<forall>r. querys m r \<noteq> None \<or> trabajadores m r \<noteq> None \<longrightarrow> r < next_obj m)"

definition master_ok :: "master \<Rightarrow> bool" where
  "master_ok m \<longleftrightarrow>
     ALGORITMO_PLANIFICACION m \<in> {''FIFO'', ''PRIORIDADES''} \<and> TIEMPO_AGING m = 0 \<and> agings m = [] \<and>
     colas_ok (querys_ready m) (querys_exec m) (en_mano (proceso m)) (workers m) (querys m) (trabajadores m) \<and>
     cuentas_ok m \<and> fresco m \<and>
     (ALGORITMO_PLANIFICACION m = ''PRIORIDADES'' \<longrightarrow> en_orden (querys m) (querys_ready m))"

text \<open>What \<open>list_add_sorted\<close> does: it adds the element, and keeps a list in order in order.\<close>

definition insercion_ok :: "insercion \<Rightarrow> bool" where
  "insercion_ok ins \<longleftrightarrow>
     (\<forall>cmp xs x. mset (ins cmp xs x) = add_mset x (mset xs)) \<and>
     (\<forall>cmp xs x f. (\<forall>a \<in> set (x # xs). \<forall>b \<in> set (x # xs). cmp a b = ((f a :: int) < f b)) \<longrightarrow>
        sorted_wrt (\<lambda>a b. f a \<le> f b) xs \<longrightarrow> sorted_wrt (\<lambda>a b. f a \<le> f b) (ins cmp xs x))"

text \<open>What the environment does in such a run.\<close>

definition evento_ok :: "(string \<Rightarrow> string \<Rightarrow> string list) \<Rightarrow> evento \<Rightarrow> master \<Rightarrow> bool" where
  "evento_ok split e m =
     (case e of
        ConectaQuery s items \<Rightarrow>
          2 \<le> length items \<and> of_cstr (items ! 0) \<noteq> None \<and> of_cstr (items ! 1) \<noteq> None
      | ConectaWorker s items \<Rightarrow> items \<noteq> [] \<and> of_cstr (items ! 0) \<noteq> None
      | DeWorker w opcode items anda \<Rightarrow>
          anda \<and> map_option w_state (trabajadores m w) = Some EXEC \<and>
          (opcode = CONSULTA_INTERRUPCION \<and> items \<noteq> [] \<or> opcode = INSTRUCCION_MASTER \<or>
           opcode = LECTURA_MASTER \<and> 2 \<le> length items \<and> of_cstr (items ! 1) \<noteq> None \<and>
             (case of_cstr (items ! 0) of None \<Rightarrow> False | Some ft \<Rightarrow> 2 \<le> length (split ft '':'')))
      | DeQuery q opcode \<Rightarrow> opcode = DESCONEXION \<and> map_option q_state (querys m q) = Some FINISHED
      | _ \<Rightarrow> True)"

inductive paso_sano ::
    "insercion \<Rightarrow> (string \<Rightarrow> string \<Rightarrow> string list) \<Rightarrow> master \<Rightarrow> master \<Rightarrow> bool"
  for ins :: insercion and split :: "string \<Rightarrow> string \<Rightarrow> string list" where
  paso_sano_I: "evento_ok split e m \<Longrightarrow> paso ins split e m = Inr m' \<Longrightarrow> paso_sano ins split m m'"

inductive_cases paso_sanoE: "paso_sano ins split m m'"

section \<open>Pieces\<close>

lemma colas_okD:
  assumes "colas_ok rs es en ws Q T"
  shows "distinct (rs @ es @ en)" "distinct ws"
    "q \<in> set rs \<Longrightarrow> \<exists>x. Q q = Some x \<and> q_state x \<noteq> FINISHED"
    "q \<in> set en \<Longrightarrow> \<exists>x. Q q = Some x \<and> q_state x \<noteq> FINISHED"
    "q \<in> set es \<Longrightarrow> \<exists>w \<in> set ws. pareja Q T q w"
    "w \<in> set ws \<Longrightarrow> \<exists>y. T w = Some y \<and> \<not> error_at_exec y \<and>
       (w_state y = READY \<or> (\<exists>q \<in> set es. pareja Q T q w))"
    "T w = Some y \<Longrightarrow> w \<in> set ws"
    "Q q = Some x \<Longrightarrow> \<not> q_interrumpir x"
  using assms unfolding colas_ok_def by (simp, simp, blast+)

lemma primer_libre_ok:
  assumes "\<forall>w \<in> set ws. trabajadores m w \<noteq> None"
  shows "\<exists>r. primer_libre ws m = Inr r \<and> (r = None \<longleftrightarrow> filter (libre (trabajadores m)) ws = []) \<and>
    (\<forall>w. r = Some w \<longrightarrow> w \<in> set ws \<and> libre (trabajadores m) w)"
  using assms
proof (induction ws)
  case (Cons v ws)
  obtain y where y: "trabajadores m v = Some y" using Cons.prems by auto
  show ?case
  proof (cases "w_state y = READY")
    case True
    then show ?thesis by (simp add: y libre_def)
  next
    case False
    have "\<exists>r. primer_libre ws m = Inr r \<and> (r = None \<longleftrightarrow> filter (libre (trabajadores m)) ws = []) \<and>
        (\<forall>w. r = Some w \<longrightarrow> w \<in> set ws \<and> libre (trabajadores m) w)"
      using Cons by simp
    moreover have "primer_libre (v # ws) m = primer_libre ws m" "\<not> libre (trabajadores m) v"
      using y False by (simp_all add: libre_def)
    ultimately show ?thesis by auto
  qed
qed simp

lemma victima_desde_ok:
  assumes "\<forall>q \<in> set qs \<union> {v}. \<exists>x w y. querys m q = Some x \<and> q_worker x = Some w \<and> trabajadores m w = Some y"
  shows "\<exists>u. victima_desde v qs m = Inr u \<and> u \<in> set qs \<union> {v}"
  using assms
proof (induction qs arbitrary: v)
  case (Cons q qs)
  obtain x w y where q: "querys m q = Some x" "q_worker x = Some w" "trabajadores m w = Some y"
    using Cons.prems by auto
  obtain x' where v: "querys m v = Some x'" using Cons.prems by auto
  have "\<exists>u. victima_desde v' qs m = Inr u \<and> u \<in> set qs \<union> {v'}" if "v' = q \<or> v' = v" for v'
    by (rule Cons.IH) (use Cons.prems that in auto)
  then have a: "\<exists>u. victima_desde q qs m = Inr u \<and> u \<in> set (q # qs) \<union> {v}"
    and b: "\<exists>u. victima_desde v qs m = Inr u \<and> u \<in> set (q # qs) \<union> {v}" by fastforce+
  show ?case using a b by (auto simp: q v)
qed simp

lemma libres_update:
  assumes "distinct ws" and "w \<in> set ws"
  shows "length (filter (libre (T(w \<mapsto> y))) ws) + (if libre T w then 1 else 0) =
         length (filter (libre T) ws) + (if w_state y = READY then 1 else 0)"
  using assms
proof (induction ws)
  case (Cons v ws)
  have other: "filter (libre (T(w \<mapsto> y))) ws = filter (libre T) ws" if "w \<notin> set ws"
    using that by (intro filter_cong) (auto simp: libre_def)
  show ?case
  proof (cases "v = w")
    case True
    then have "w \<notin> set ws" using Cons.prems by simp
    have "libre (T(w \<mapsto> y)) w \<longleftrightarrow> w_state y = READY" by (simp add: libre_def)
    with True other[OF \<open>w \<notin> set ws\<close>] show ?thesis by (simp del: fun_upd_apply)
  next
    case False
    then have "libre (T(w \<mapsto> y)) v = libre T v" by (simp add: libre_def)
    with False Cons show ?thesis by (simp del: fun_upd_apply)
  qed
qed simp

lemma libres_cambia:
  assumes "distinct ws" and "w \<in> set ws" and "T w = Some y"
  shows "w_state y = EXEC \<Longrightarrow> w_state y' = READY \<Longrightarrow>
      length (filter (libre (T(w \<mapsto> y'))) ws) = Suc (length (filter (libre T) ws))"
    and "w_state y = READY \<Longrightarrow> w_state y' = EXEC \<Longrightarrow>
      Suc (length (filter (libre (T(w \<mapsto> y'))) ws)) = length (filter (libre T) ws)"
    and "w_state y' = w_state y \<Longrightarrow>
      length (filter (libre (T(w \<mapsto> y'))) ws) = length (filter (libre T) ws)"
  using libres_update[OF assms(1,2), of T y'] assms(3)
  by (simp_all add: libre_def del: fun_upd_apply split: if_splits)

lemma libres_fresco: "w \<notin> set ws \<Longrightarrow> filter (libre (T(w \<mapsto> y))) ws = filter (libre T) ws"
  by (intro filter_cong) (auto simp: libre_def)

lemma insercion_okD:
  assumes "insercion_ok ins"
  shows "set (ins cmp xs x) = insert x (set xs)" "length (ins cmp xs x) = Suc (length xs)"
    "distinct (ins cmp xs x) \<longleftrightarrow> x \<notin> set xs \<and> distinct xs"
proof -
  have m: "mset (ins cmp xs x) = mset (x # xs)" using assms by (simp add: insercion_ok_def)
  show "set (ins cmp xs x) = insert x (set xs)" using mset_eq_setD[OF m] by simp
  show "length (ins cmp xs x) = Suc (length xs)" using mset_eq_length[OF m] by simp
  show "distinct (ins cmp xs x) \<longleftrightarrow> x \<notin> set xs \<and> distinct xs"
    using mset_eq_imp_distinct_iff[OF m] by simp
qed

lemma insercion_en_orden:
  assumes "insercion_ok ins" and "\<forall>r \<in> set rs. querys m r \<noteq> None" and "querys m q \<noteq> None"
    and "en_orden (querys m) rs"
  shows "en_orden (querys m) (ins (priority_comparator m) rs q)"
proof -
  have cmp: "\<forall>a \<in> set (q # rs). \<forall>b \<in> set (q # rs). priority_comparator m a b = (prio (querys m) a < prio (querys m) b)"
  proof -
    have "querys m a \<noteq> None" if "a \<in> set (q # rs)" for a using assms(2,3) that by auto
    then show ?thesis unfolding priority_comparator_def prio_def by (fastforce split: option.splits)
  qed
  show ?thesis
    using assms(1,4) cmp unfolding insercion_ok_def en_orden_def by blast
qed

lemma en_orden_update:
  assumes "\<forall>a \<in> set rs. prio Q' a = prio Q a"
  shows "en_orden Q' rs \<longleftrightarrow> en_orden Q rs"
  unfolding en_orden_def using assms by (auto intro: sorted_wrt_mono_rel[rotated])

section \<open>What the steps do to the queues\<close>

lemma colas_suelta:
  assumes ok: "colas_ok rs es en ws Q T" and q: "q \<in> set es" and p: "pareja Q T q w"
    and x': "\<not> q_interrumpir x'" and y': "w_state y' = READY" "\<not> error_at_exec y'"
    and rs': "rs' = rs \<or> distinct rs' \<and> set rs' = insert q (set rs) \<and> q_state x' \<noteq> FINISHED"
  shows "colas_ok rs' (remove1 q es) en ws (Q(q \<mapsto> x')) (T(w \<mapsto> y'))"
proof -
  have d: "distinct es" "q \<notin> set rs" "q \<notin> set en" "set es \<inter> set en = {}" "set rs \<inter> set es = {}"
      "distinct en" "set rs \<inter> set en = {}" "distinct rs"
    using colas_okD(1)[OF ok] q by auto
  have set_es: "set (remove1 q es) = set es - {q}" using d(1) by simp
  have otra: "pareja (Q(q \<mapsto> x')) (T(w \<mapsto> y')) r v" if "pareja Q T r v" "r \<noteq> q" for r v
  proof -
    have "v \<noteq> w" using pareja_unica[OF p that(1)] that(2) by auto
    with that show ?thesis by (simp add: pareja_def)
  qed
  have w: "w \<in> set ws" using colas_okD(7)[OF ok] p by (auto simp: pareja_def)
  have "distinct (rs' @ remove1 q es @ en)"
    using rs' d set_es distinct_remove1[OF d(1)] by auto
  moreover have "\<exists>x. (Q(q \<mapsto> x')) r = Some x \<and> q_state x \<noteq> FINISHED" if "r \<in> set rs' \<union> set en" for r
    using that rs' colas_okD(3,4)[OF ok, of r] d by auto
  moreover have "\<exists>v \<in> set ws. pareja (Q(q \<mapsto> x')) (T(w \<mapsto> y')) r v" if "r \<in> set (remove1 q es)" for r
    using that set_es colas_okD(5)[OF ok, of r] otra by blast
  moreover have "\<exists>z. (T(w \<mapsto> y')) v = Some z \<and> \<not> error_at_exec z \<and>
      (w_state z = READY \<or> (\<exists>r \<in> set (remove1 q es). pareja (Q(q \<mapsto> x')) (T(w \<mapsto> y')) r v))"
    if v: "v \<in> set ws" for v
  proof (cases "v = w")
    case False
    obtain z where z: "T v = Some z" "\<not> error_at_exec z"
      "w_state z = READY \<or> (\<exists>r \<in> set es. pareja Q T r v)"
      using colas_okD(6)[OF ok v] by blast
    have n: "r \<noteq> q" if "pareja Q T r v" for r
      using pareja_unica[OF p that] False by auto
    have "w_state z = READY \<or> (\<exists>r \<in> set (remove1 q es). pareja (Q(q \<mapsto> x')) (T(w \<mapsto> y')) r v)"
      unfolding set_es using z(3) n otra by blast
    with z False show ?thesis by simp
  qed (use y' in auto)
  ultimately show ?thesis
    using colas_okD(2,7,8)[OF ok] x' w unfolding colas_ok_def by auto
qed

lemma colas_par:
  assumes ok: "colas_ok rs es [q] ws Q T" and x: "Q q = Some x" and w: "w \<in> set ws" "T w = Some y" "w_state y = READY"
    and x': "q_worker x' = Some w" "q_state x' = EXEC" "q_interrumpir x' = q_interrumpir x"
    and y': "w_query y' = Some q" "w_state y' = EXEC" "error_at_exec y' = error_at_exec y"
  shows "colas_ok rs (es @ [q]) [] ws (Q(q \<mapsto> x')) (T(w \<mapsto> y'))"
proof -
  have d: "distinct (rs @ es @ [q])" by (rule colas_okD(1)[OF ok])
  have otra: "pareja (Q(q \<mapsto> x')) (T(w \<mapsto> y')) r v" if "pareja Q T r v" "r \<in> set es" for r v
  proof -
    have "v \<noteq> w" "r \<noteq> q" using w that d by (auto simp: pareja_def)
    with that show ?thesis by (simp add: pareja_def)
  qed
  have nueva: "pareja (Q(q \<mapsto> x')) (T(w \<mapsto> y')) q w" using x' y' by (simp add: pareja_def)
  have "\<exists>x. (Q(q \<mapsto> x')) r = Some x \<and> q_state x \<noteq> FINISHED" if "r \<in> set rs" for r
    using that colas_okD(3)[OF ok, of r] d by auto
  moreover have "\<exists>v \<in> set ws. pareja (Q(q \<mapsto> x')) (T(w \<mapsto> y')) r v" if "r \<in> set (es @ [q])" for r
    using that colas_okD(5)[OF ok, of r] otra nueva w(1) by auto
  moreover have "\<exists>z. (T(w \<mapsto> y')) v = Some z \<and> \<not> error_at_exec z \<and>
      (w_state z = READY \<or> (\<exists>r \<in> set (es @ [q]). pareja (Q(q \<mapsto> x')) (T(w \<mapsto> y')) r v))"
    if "v \<in> set ws" for v
    using colas_okD(6)[OF ok that] colas_okD(6)[OF ok w(1)] w(2) y' nueva otra by (cases "v = w") auto
  ultimately show ?thesis
    using d colas_okD(2,7,8)[OF ok] x x' w unfolding colas_ok_def by auto
qed

text \<open>A change of one query, or of one worker, that keeps what the invariant looks at.\<close>

lemma colas_query:
  assumes ok: "colas_ok rs es en ws Q T" and "Q q = None" and rs': "distinct rs'" "set rs' = insert q (set rs)"
    and x: "q_state x \<noteq> FINISHED" "\<not> q_interrumpir x"
  shows "colas_ok rs' es en ws (Q(q \<mapsto> x)) T"
proof -
  have n: "q \<notin> set rs" "q \<notin> set en" "q \<notin> set es"
    using colas_okD(3,4,5)[OF ok, of q] assms(2) by (auto simp: pareja_def)
  have otra: "pareja (Q(q \<mapsto> x)) T r v" if "pareja Q T r v" for r v
    using that assms(2) by (auto simp: pareja_def)
  have "distinct (rs' @ es @ en)" using colas_okD(1)[OF ok] rs' n by auto
  moreover have "\<exists>z. (Q(q \<mapsto> x)) r = Some z \<and> q_state z \<noteq> FINISHED" if "r \<in> set rs' \<union> set en" for r
    using that rs'(2) colas_okD(3,4)[OF ok, of r] x(1) by auto
  moreover have "\<exists>v \<in> set ws. pareja (Q(q \<mapsto> x)) T r v" if "r \<in> set es" for r
    using colas_okD(5)[OF ok that] otra by blast
  moreover have "\<exists>z. T v = Some z \<and> \<not> error_at_exec z \<and> (w_state z = READY \<or> (\<exists>r \<in> set es. pareja (Q(q \<mapsto> x)) T r v))"
    if "v \<in> set ws" for v
    using colas_okD(6)[OF ok that] otra by blast
  ultimately show ?thesis
    using colas_okD(2,7,8)[OF ok] x(2) unfolding colas_ok_def by auto
qed

lemma colas_sin_query:
  assumes ok: "colas_ok rs es en ws Q T" and x: "Q q = Some x" "q_state x = FINISHED"
  shows "colas_ok rs es en ws (Q(q := None)) T" and "q \<notin> set rs" and "q \<notin> set es" and "q \<notin> set en"
proof -
  show n: "q \<notin> set rs" "q \<notin> set es" "q \<notin> set en"
    using colas_okD(3,4,5)[OF ok, of q] x by (auto simp: pareja_def)
  have otra: "pareja (Q(q := None)) T r v" if "pareja Q T r v" for r v
    using that x by (auto simp: pareja_def)
  have "\<exists>z. (Q(q := None)) r = Some z \<and> q_state z \<noteq> FINISHED" if "r \<in> set rs \<union> set en" for r
    using that n colas_okD(3,4)[OF ok, of r] by auto
  moreover have "\<exists>v \<in> set ws. pareja (Q(q := None)) T r v" if "r \<in> set es" for r
    using colas_okD(5)[OF ok that] otra by blast
  moreover have "\<exists>z. T v = Some z \<and> \<not> error_at_exec z \<and> (w_state z = READY \<or> (\<exists>r \<in> set es. pareja (Q(q := None)) T r v))"
    if "v \<in> set ws" for v
    using colas_okD(6)[OF ok that] otra by blast
  ultimately show "colas_ok rs es en ws (Q(q := None)) T"
    using colas_okD(1,2,7,8)[OF ok] unfolding colas_ok_def by auto
qed

lemma colas_worker:
  assumes ok: "colas_ok rs es en ws Q T" and "T w = None" and y: "w_state y = READY" "\<not> error_at_exec y"
  shows "colas_ok rs es en (ws @ [w]) Q (T(w \<mapsto> y))" and "w \<notin> set ws"
proof -
  show n: "w \<notin> set ws" using colas_okD(6)[OF ok, of w] assms(2) by auto
  have otra: "pareja Q (T(w \<mapsto> y)) r v" if "pareja Q T r v" for r v
    using that assms(2) by (auto simp: pareja_def)
  have "\<exists>v \<in> set (ws @ [w]). pareja Q (T(w \<mapsto> y)) r v" if "r \<in> set es" for r
    using colas_okD(5)[OF ok that] otra by auto
  moreover have "\<exists>z. (T(w \<mapsto> y)) v = Some z \<and> \<not> error_at_exec z \<and>
      (w_state z = READY \<or> (\<exists>r \<in> set es. pareja Q (T(w \<mapsto> y)) r v))" if "v \<in> set (ws @ [w])" for v
    using that colas_okD(6)[OF ok, of v] otra y by (cases "v = w") auto
  ultimately show "colas_ok rs es en (ws @ [w]) Q (T(w \<mapsto> y))"
    using colas_okD(1,2,3,4,7,8)[OF ok] n unfolding colas_ok_def by auto
qed

lemma colas_marca:
  assumes ok: "colas_ok rs es en ws Q T" and y: "T w = Some y"
    and y': "w_state y' = w_state y" "w_query y' = w_query y" "error_at_exec y' = error_at_exec y"
  shows "colas_ok rs es en ws Q (T(w \<mapsto> y'))"
proof -
  have otra: "pareja Q (T(w \<mapsto> y')) = pareja Q T"
    using y y' by (auto simp: pareja_def fun_eq_iff)
  have w: "w \<in> set ws" by (rule colas_okD(7)[OF ok y])
  have "\<exists>z. (T(w \<mapsto> y')) v = Some z \<and> \<not> error_at_exec z \<and> (w_state z = READY \<or> (\<exists>r \<in> set es. pareja Q T r v))"
    if "v \<in> set ws" for v
    using colas_okD(6)[OF ok that] y y' by (cases "v = w") auto
  then show ?thesis
    using colas_okD(1-5,7,8)[OF ok] w unfolding colas_ok_def otra by auto
qed

lemma colas_toma: "colas_ok (q # rs) es [] ws Q T \<Longrightarrow> colas_ok rs es [q] ws Q T"
  unfolding colas_ok_def by auto

section \<open>The steps keep the invariant\<close>

lemma master_okD:
  assumes "master_ok m"
  shows "ALGORITMO_PLANIFICACION m \<in> {''FIFO'', ''PRIORIDADES''}" "TIEMPO_AGING m = 0" "agings m = []"
    "colas_ok (querys_ready m) (querys_exec m) (en_mano (proceso m)) (workers m) (querys m) (trabajadores m)"
    "cuentas_ok m" "fresco m"
    "ALGORITMO_PLANIFICACION m = ''PRIORIDADES'' \<Longrightarrow> en_orden (querys m) (querys_ready m)"
  using assms by (simp_all add: master_ok_def)

text \<open>A worker in execution: its query, in the queue of execution, points back at it.\<close>

lemma worker_en_exec:
  assumes "master_ok m" and "trabajadores m w = Some y" and "w_state y = EXEC"
  obtains q x where "w_query y = Some q" "querys m q = Some x" "q_worker x = Some w" "q_state x = EXEC"
    "q \<in> set (querys_exec m)" "\<not> q_interrumpir x" "\<not> error_at_exec y" "w \<in> set (workers m)"
    "pareja (querys m) (trabajadores m) q w"
proof -
  note c = master_okD(4)[OF assms(1)]
  have w: "w \<in> set (workers m)" by (rule colas_okD(7)[OF c assms(2)])
  from colas_okD(6)[OF c this] assms(2,3) obtain q where q: "q \<in> set (querys_exec m)"
    "pareja (querys m) (trabajadores m) q w" "\<not> error_at_exec y" by auto
  then obtain x where x: "querys m q = Some x" "q_worker x = Some w" "q_state x = EXEC" "w_query y = Some q"
    using assms(2) by (auto simp: pareja_def)
  from colas_okD(8)[OF c x(1)] have "\<not> q_interrumpir x" .
  with q x w show thesis by (intro that)
qed

lemma listos_vivos:
  "master_ok m \<Longrightarrow> \<forall>r \<in> set (querys_ready m). querys m r \<noteq> None"
  using colas_okD(3)[OF master_okD(4)] by fastforce

lemma agregar_ordenada_ok:
  assumes "list_all (\<lambda>r. querys m r \<noteq> None) (querys_ready m)" and "querys m q \<noteq> None"
  shows "agregar_ordenada ins q m = Inr (m\<lparr>querys_ready := ins (priority_comparator m) (querys_ready m) q\<rparr>)"
  using assms by (simp add: agregar_ordenada_def)

lemma paso_instruccion:
  assumes ok: "master_ok m" and y: "trabajadores m w = Some y" "w_state y = EXEC"
  shows "sigueE master_ok (instruccion_master w True m)"
proof -
  note c = master_okD(4)[OF ok]
  obtain q x where q: "w_query y = Some q" "querys m q = Some x" "q_worker x = Some w" "q_state x = EXEC"
    "q \<in> set (querys_exec m)" "\<not> q_interrumpir x" "\<not> error_at_exec y" "w \<in> set (workers m)"
    "pareja (querys m) (trabajadores m) q w"
    by (rule worker_en_exec[OF ok y])
  let ?Q = "(querys m)(q \<mapsto> x\<lparr>q_state := FINISHED\<rparr>)"
  let ?T = "(trabajadores m)(w \<mapsto> y\<lparr>w_state := READY, w_query := None, interrumpir := False\<rparr>)"
  have cs: "colas_ok (querys_ready m) (remove1 q (querys_exec m)) (en_mano (proceso m)) (workers m) ?Q ?T"
    by (rule colas_suelta[OF c q(5,9)]) (use q in simp_all)
  have n: "length (filter (libre ?T) (workers m)) = Suc (length (filter (libre (trabajadores m)) (workers m)))"
    by (rule libres_cambia(1)[where T = "trabajadores m", OF colas_okD(2)[OF c] q(8) y]) simp
  have "q \<notin> set (querys_ready m)" using colas_okD(1)[OF c] q(5) by auto
  then have o: "en_orden ?Q (querys_ready m) \<longleftrightarrow> en_orden (querys m) (querys_ready m)"
    by (intro en_orden_update) (auto simp: prio_def)
  have f: "\<forall>r. ?Q r \<noteq> None \<or> ?T r \<noteq> None \<longrightarrow> r < next_obj m"
    using master_okD(6)[OF ok] q(2) y(1) by (auto simp: fresco_def)
  show ?thesis
    using cs n o f master_okD(1,2,3,5,7)[OF ok] q(1,2,3) y(1)
    by (simp add: instruccion_master_def finalizar_query_def set_query_def notificar_finalizacion_def
        enviar_def liberar_worker_def set_worker_def master_ok_def cuentas_ok_def fresco_def
        del: fun_upd_apply)
qed

lemma paso_consulta:
  assumes ins: "insercion_ok ins" and ok: "master_ok m" and y: "trabajadores m w = Some y" "w_state y = EXEC"
    and items: "items \<noteq> []"
  shows "sigueE master_ok (consulta_interrupcion ins w items True m)"
proof -
  note c = master_okD(4)[OF ok]
  obtain q x where q: "w_query y = Some q" "querys m q = Some x" "q_worker x = Some w" "q_state x = EXEC"
    "q \<in> set (querys_exec m)" "\<not> q_interrumpir x" "\<not> error_at_exec y" "w \<in> set (workers m)"
    "pareja (querys m) (trabajadores m) q w"
    by (rule worker_en_exec[OF ok y])
  have qd: "query_de w m' = Inr (q, x')" if "trabajadores m' = trabajadores m" "querys m' q = Some x'" for m' x'
    using that q(1) y(1) by (simp add: query_de_def)
  show ?thesis
  proof (cases "interrumpir y")
    case False
    have "consulta_interrupcion ins w items True m = Inr (enviar (w_socket y) (Crudo [0]) m)"
      using False q(2,6,7) y(1) by (simp add: consulta_interrupcion_def qd enviar_def)
    moreover have "master_ok (enviar (w_socket y) (Crudo [0]) m)"
      using ok by (simp add: master_ok_def cuentas_ok_def fresco_def enviar_def)
    ultimately show ?thesis by simp
  next
    case True
    let ?x = "x\<lparr>q_pc := sint (bytes_int (items ! 0)), q_state := EXEC\<rparr>"
    let ?Q = "(querys m)(q \<mapsto> ?x)"
    let ?T = "(trabajadores m)(w \<mapsto> y\<lparr>w_state := READY, w_query := None, interrumpir := False\<rparr>)"
    let ?m = "(enviar (w_socket y) (Crudo [1]) m)\<lparr>querys_exec := remove1 q (querys_exec m), querys := ?Q\<rparr>"
    let ?rs = "ins (priority_comparator ?m) (querys_ready m) q"
    have n: "q \<notin> set (querys_ready m)" using colas_okD(1)[OF c] q(5) by auto
    have vivos: "list_all (\<lambda>r. querys ?m r \<noteq> None) (querys_ready ?m)"
      using listos_vivos[OF ok] by (auto simp: list_all_iff enviar_def)
    have cs: "colas_ok ?rs (remove1 q (querys_exec m)) (en_mano (proceso m)) (workers m) ?Q ?T"
      by (rule colas_suelta[OF c q(5,9)])
        (use q n colas_okD(1)[OF c] in \<open>simp_all add: insercion_okD[OF ins]\<close>)
    have l: "length (filter (libre ?T) (workers m)) = Suc (length (filter (libre (trabajadores m)) (workers m)))"
      by (rule libres_cambia(1)[where T = "trabajadores m", OF colas_okD(2)[OF c] q(8) y]) simp
    have "en_orden ?Q (querys_ready m) \<longleftrightarrow> en_orden (querys m) (querys_ready m)"
      by (intro en_orden_update) (use n in \<open>auto simp: prio_def\<close>)
    then have o: "en_orden ?Q ?rs" if "en_orden (querys m) (querys_ready m)"
      using insercion_en_orden[OF ins, of "querys_ready m" ?m q] vivos that
      by (simp add: enviar_def list_all_iff)
    have f: "\<forall>r. ?Q r \<noteq> None \<or> ?T r \<noteq> None \<longrightarrow> r < next_obj m"
      using master_okD(6)[OF ok] q(2) y(1) by (auto simp: fresco_def)
    have "consulta_interrupcion ins w items True m =
        Inr (?m\<lparr>querys_ready := ?rs, sem_ready := sem_ready m + 1, sem_int := sem_int m + 1,
               trabajadores := ?T, sem_workers := sem_workers m + 1\<rparr>)"
      using True q y items agregar_ordenada_ok[OF vivos, of q ins] master_okD(2)[OF ok]
      by (simp add: consulta_interrupcion_def qd item_int_def set_query_def crear_aging_def liberar_worker_def
          set_worker_def query_de_def enviar_def)
    moreover have "master_ok (?m\<lparr>querys_ready := ?rs, sem_ready := sem_ready m + 1, sem_int := sem_int m + 1,
               trabajadores := ?T, sem_workers := sem_workers m + 1\<rparr>)"
      using cs l o f master_okD(1,2,3,5,7)[OF ok]
      by (simp add: master_ok_def cuentas_ok_def fresco_def enviar_def insercion_okD[OF ins] del: fun_upd_apply)
    ultimately show ?thesis by simp
  qed
qed

text \<open>Steps that touch nothing the invariant looks at.\<close>

lemma enviar_campos [simp]:
  "querys (enviar s e m) = querys m" "trabajadores (enviar s e m) = trabajadores m"
  by (simp_all add: enviar_def)

lemma master_ok_enviar: "master_ok (enviar s e m) \<longleftrightarrow> master_ok m"
  by (simp add: master_ok_def cuentas_ok_def fresco_def enviar_def)

lemma master_ok_semaforos:
  "master_ok (m\<lparr>sem_check_prior := a\<rparr>) \<longleftrightarrow> master_ok m"
  "master_ok (m\<lparr>sem_int := a\<rparr>) \<longleftrightarrow> master_ok m"
  "master_ok (m\<lparr>sem_asign := a\<rparr>) \<longleftrightarrow> master_ok m"
  "master_ok (m\<lparr>mutex_ready := b\<rparr>) \<longleftrightarrow> master_ok m"
  "master_ok (m\<lparr>signal_asign := b\<rparr>) \<longleftrightarrow> master_ok m"
  by (simp_all add: master_ok_def cuentas_ok_def fresco_def)

lemma paso_lectura:
  assumes ok: "master_ok m" and y: "trabajadores m w = Some y" "w_state y = EXEC"
    and items: "2 \<le> length items" "of_cstr (items ! 1) \<noteq> None"
      "of_cstr (items ! 0) = Some ft" "2 \<le> length (split ft '':'')"
  shows "sigueE master_ok (lectura_master split w items True m)"
proof -
  obtain q x where q: "w_query y = Some q" "querys m q = Some x" "q_worker x = Some w"
    by (rule worker_en_exec[OF ok y])
  obtain a b r where i: "items = a # b # r" using items(1) by (cases items rule: remdups_adj.cases) auto
  obtain f t s where s: "split ft '':'' = f # t # s"
    using items(4) by (cases "split ft '':''" rule: remdups_adj.cases) auto
  obtain contenido where "of_cstr b = Some contenido" using items(2) by (auto simp: i)
  then have "lectura_master split w items True m =
      Inr (enviar (w_socket y) (Crudo (take 1 (int_bytes (resultado_val OK))))
        (enviar (q_socket x) (Paquete NOTIF_QUERY_CONTROL
           [int_bytes (notif_val NOTIF_READ), cstr f, cstr t, cstr contenido]) m))"
    using items(3) q y(1) by (simp add: lectura_master_def notificar_read_def i s)
  then show ?thesis using ok by (simp add: master_ok_enviar)
qed

lemma paso_worker_nuevo:
  assumes ok: "master_ok m" and "items \<noteq> []" and "of_cstr (items ! 0) \<noteq> None"
  shows "sigueE master_ok (handshake_worker s items m)"
proof -
  note c = master_okD(4)[OF ok]
  obtain a r where i: "items = a # r" using assms(2) by (cases items) auto
  let ?w = "next_obj m"
  have n: "trabajadores m ?w = None" "querys m ?w = None"
    using master_okD(6)[OF ok] by (auto simp: fresco_def)
  have cw: "colas_ok (querys_ready m) (querys_exec m) (en_mano (proceso m)) (workers m @ [?w]) (querys m)
      ((trabajadores m)(?w \<mapsto> y))" if "w_state y = READY" "\<not> error_at_exec y" for y
    by (rule colas_worker(1)[OF c n(1)]) (use that in simp_all)
  have l: "filter (libre ((trabajadores m)(?w \<mapsto> y))) (workers m) = filter (libre (trabajadores m)) (workers m)" for y
    by (rule libres_fresco) (use colas_okD(6)[OF c, of ?w] n(1) in auto)
  have lw: "libre ((trabajadores m)(?w \<mapsto> y)) ?w \<longleftrightarrow> w_state y = READY" for y
    by (simp add: libre_def)
  have f: "\<forall>r. querys m r \<noteq> None \<or> ((trabajadores m)(?w \<mapsto> y)) r \<noteq> None \<longrightarrow> r < Suc ?w" for y
    using master_okD(6)[OF ok] by (auto simp: fresco_def less_Suc_eq)
  show ?thesis
    using assms(3) cw l lw f master_okD(1,2,3,5,7)[OF ok]
    by (auto simp: handshake_worker_def i enviar_def master_ok_def cuentas_ok_def fresco_def Let_def
        simp del: fun_upd_apply)
qed

lemma algoritmos_distintos: "\<not> string_equals_ignore_case ''PRIORIDADES'' ''FIFO''"
  by (simp add: string_equals_ignore_case_def)

lemma paso_query_nueva:
  assumes ins: "insercion_ok ins" and ok: "master_ok m" and red: "red m = None"
    and items: "2 \<le> length items" "of_cstr (items ! 0) \<noteq> None" "of_cstr (items ! 1) \<noteq> None"
  shows "sigueE master_ok (handshake_query ins s items m)"
proof -
  note c = master_okD(4)[OF ok]
  obtain a b r where i: "items = a # b # r" using items(1) by (cases items rule: remdups_adj.cases) auto
  obtain arch p where fp: "of_cstr a = Some arch" "of_cstr b = Some p" using items by (auto simp: i)
  let ?q = "next_obj m"
  let ?x = "\<lparr>q_id = ultimo_id m + 1, q_pc = 0, q_socket = s, q_file = arch, prioridad = atoi p,
              q_interrumpir = False, q_worker = None, q_state = READY\<rparr>"
  let ?Q = "(querys m)(?q \<mapsto> ?x)"
  let ?m = "enviar s (Crudo (cstr ''ACK'')) (m\<lparr>ultimo_id := ultimo_id m + 1, next_obj := Suc ?q, querys := ?Q\<rparr>)"
  let ?rs = "ins (priority_comparator ?m) (querys_ready m) ?q"
  have n: "querys m ?q = None" using master_okD(6)[OF ok] by (auto simp: fresco_def)
  have nr: "?q \<notin> set (querys_ready m)" using colas_okD(3)[OF c, of ?q] n by auto
  have d: "distinct (querys_ready m)" using colas_okD(1)[OF c] by simp
  have cq: "colas_ok rs' (querys_exec m) (en_mano (proceso m)) (workers m) ?Q (trabajadores m)"
    if "distinct rs'" "set rs' = insert ?q (set (querys_ready m))" for rs'
    by (rule colas_query[OF c n that]) simp_all
  have f: "\<forall>r. ?Q r \<noteq> None \<or> trabajadores m r \<noteq> None \<longrightarrow> r < Suc ?q"
    using master_okD(6)[OF ok] by (auto simp: fresco_def less_Suc_eq)
  have vivos: "list_all (\<lambda>r. querys ?m r \<noteq> None) (querys_ready ?m)"
    using listos_vivos[OF ok] by (auto simp: list_all_iff enviar_def)
  have "en_orden ?Q (querys_ready m) \<longleftrightarrow> en_orden (querys m) (querys_ready m)"
    by (intro en_orden_update) (use nr in \<open>auto simp: prio_def\<close>)
  then have o: "en_orden ?Q ?rs" if "en_orden (querys m) (querys_ready m)"
    using insercion_en_orden[OF ins, of "querys_ready m" ?m ?q] vivos that
    by (simp add: enviar_def list_all_iff)
  have mutex: "mutex_ready ?m = mutex_ready m" by (simp add: enviar_def)
  show ?thesis
  proof (cases "mutex_ready m")
    case True
    then show ?thesis
      using fp master_okD(1)[OF ok]
      by (auto simp: handshake_query_def i Let_def asign_query_id_def mutex algoritmos_distintos enviar_def)
  next
    case False
    consider (fifo) "ALGORITMO_PLANIFICACION m = ''FIFO''" | (prio) "ALGORITMO_PLANIFICACION m = ''PRIORIDADES''"
      using master_okD(1)[OF ok] by auto
    then show ?thesis
    proof cases
      case fifo
      have "handshake_query ins s items m =
          Inr (?m\<lparr>querys_ready := querys_ready m @ [?q], sem_ready := sem_ready m + 1\<rparr>)"
        using fp False fifo by (simp add: handshake_query_def i Let_def asign_query_id_def enviar_def)
      moreover have "master_ok (?m\<lparr>querys_ready := querys_ready m @ [?q], sem_ready := sem_ready m + 1\<rparr>)"
        using cq[of "querys_ready m @ [?q]"] f d nr fifo master_okD(1,2,3,5)[OF ok]
        by (simp add: master_ok_def cuentas_ok_def fresco_def enviar_def del: fun_upd_apply)
      ultimately show ?thesis by simp
    next
      case prio
      have "handshake_query ins s items m = Inr (?m\<lparr>querys_ready := ?rs, red := Some (?q, CP_inicio)\<rparr>)"
        using fp False prio agregar_ordenada_ok[OF vivos, of ?q ins]
        by (simp add: handshake_query_def i Let_def asign_query_id_def enviar_def algoritmos_distintos)
      moreover have "master_ok (?m\<lparr>querys_ready := ?rs, red := Some (?q, CP_inicio)\<rparr>)"
        using cq[of ?rs] f d nr o red master_okD(1,2,3,5,7)[OF ok]
        by (simp add: master_ok_def cuentas_ok_def fresco_def enviar_def insercion_okD[OF ins] del: fun_upd_apply)
      ultimately show ?thesis by simp
    qed
  qed
qed

lemma evaluar_ok:
  assumes ok: "master_ok m" and r: "red m = Some qc"
  shows "sigueE (\<lambda>(c, m'). master_ok m' \<and> red m' = red m) (check_prior_evaluar m)"
proof -
  note c = master_okD(4)[OF ok]
  have vivos: "\<forall>w \<in> set (workers m). trabajadores m w \<noteq> None"
    using colas_okD(6)[OF c] by fastforce
  obtain l where l: "buscar_worker_libre m = Inr l" "l = None \<longleftrightarrow> filter (libre (trabajadores m)) (workers m) = []"
    using primer_libre_ok[OF vivos] by (auto simp: buscar_worker_libre_def)
  show ?thesis
  proof (cases "l = None \<and> workers m \<noteq> []")
    case False
    then show ?thesis
      using ok l(1) unfolding check_prior_evaluar_def
      by (auto simp: master_ok_semaforos)
  next
    case True
    then obtain w where w: "w \<in> set (workers m)" "\<not> libre (trabajadores m) w"
      using l(2) by (metis (mono_tags) filter_empty_conv last_in_set)
    then obtain q where "q \<in> set (querys_exec m)"
      using colas_okD(6)[OF c w(1)] by (auto simp: libre_def)
    then obtain v vs where vs: "querys_exec m = v # vs" by (cases "querys_exec m") auto
    have par: "\<exists>x w y. querys m q = Some x \<and> q_worker x = Some w \<and> trabajadores m w = Some y"
      if "q \<in> set (querys_exec m)" for q
      using colas_okD(5)[OF c that] by (auto simp: pareja_def)
    obtain u where u: "buscar_victima m = Inr u" "u \<in> set (querys_exec m)"
      using victima_desde_ok[of vs v m] par by (auto simp: buscar_victima_def vs)
    obtain x w y where x: "querys m u = Some x" "q_worker x = Some w" "trabajadores m w = Some y"
      using par[OF u(2)] by blast
    obtain s ss where s: "querys_ready m = s # ss"
      using master_okD(5)[OF ok] r by (cases "querys_ready m") (auto simp: cuentas_ok_def)
    then obtain z where z: "querys m s = Some z" using colas_okD(3)[OF c, of s] by auto
    let ?T = "(trabajadores m)(w \<mapsto> y\<lparr>interrumpir := True\<rparr>)"
    have "colas_ok (querys_ready m) (querys_exec m) (en_mano (proceso m)) (workers m) (querys m) ?T"
      by (rule colas_marca[OF c x(3)]) simp_all
    moreover have "length (filter (libre ?T) (workers m)) = length (filter (libre (trabajadores m)) (workers m))"
      by (rule libres_cambia(3)[where T = "trabajadores m", OF colas_okD(2)[OF c] colas_okD(7)[OF c x(3)] x(3)]) simp
    moreover have "\<forall>r. querys m r \<noteq> None \<or> ?T r \<noteq> None \<longrightarrow> r < next_obj m"
      using master_okD(6)[OF ok] x(3) by (auto simp: fresco_def)
    ultimately have "master_ok (m\<lparr>signal_asign := True, trabajadores := ?T, mutex_ready := True\<rparr>)"
      using master_okD(1,2,3,5,7)[OF ok] by (simp add: master_ok_def cuentas_ok_def fresco_def del: fun_upd_apply)
    then show ?thesis
      using True l(1) u(1) x z ok
      by (simp add: check_prior_evaluar_def list_get_def s set_worker_def master_ok_semaforos)
  qed
qed

lemma check_prior_ok:
  assumes "master_ok m" and "red m = Some qc"
  shows "sigueE (\<lambda>(c', m'). master_ok m' \<and> red m' = red m) (check_prior c m)"
  using assms evaluar_ok[OF assms]
  by (cases c) (auto simp: master_ok_semaforos master_ok_def cuentas_ok_def fresco_def)

lemma paso_red_ok:
  assumes "master_ok m"
  shows "sigueE master_ok (paso_red m)"
proof (cases "red m")
  case None
  then show ?thesis by (simp add: paso_red_def)
next
  case (Some qc)
  obtain q c where qc: "qc = (q, c)" by (cases qc)
  have sigue: "master_ok (m'\<lparr>red := Some (q, c')\<rparr>)" if "master_ok m'" "red m' = red m" for m' c'
    using that Some by (simp add: master_ok_def cuentas_ok_def fresco_def)
  have fin: "master_ok (let m = crear_aging q (m'\<lparr>red := None\<rparr>) in m\<lparr>sem_ready := sem_ready m + 1\<rparr>)"
    if "master_ok m'" "red m' = red m" for m'
    using that Some by (simp add: master_ok_def cuentas_ok_def fresco_def crear_aging_def)
  show ?thesis
    unfolding paso_red_def Some qc option.case prod.case sigueE_bindE
    by (rule sigueE_mono[OF check_prior_ok[OF assms Some]])
      (use sigue fin in \<open>auto split: option.split\<close>)
qed

lemma paso_proceso_ok:
  assumes ok: "master_ok m"
  shows "sigueE master_ok (paso ins split PasoProceso m)"
proof (cases "proceso m")
  case PH_ready
  then show ?thesis using ok by (simp add: master_ok_def cuentas_ok_def fresco_def)
next
  case PH_workers
  then show ?thesis using ok by (simp add: master_ok_def cuentas_ok_def fresco_def)
next
  case PH_obtener
  obtain q rs where q: "querys_ready m = q # rs"
    using ok PH_obtener by (cases "querys_ready m") (auto simp: master_ok_def cuentas_ok_def)
  have "colas_ok rs (querys_exec m) [q] (workers m) (querys m) (trabajadores m)"
    using master_okD(4)[OF ok] unfolding q PH_obtener by (intro colas_toma) simp
  moreover have "en_orden (querys m) (q # rs) \<Longrightarrow> en_orden (querys m) rs"
    by (simp add: en_orden_def)
  ultimately show ?thesis
    using ok by (auto simp: PH_obtener q obtener_query_def master_ok_def cuentas_ok_def fresco_def)
next
  case (PH_asigna qo)
  note c = master_okD(4)[OF ok]
  obtain q where q: "qo = Some q" using ok PH_asigna by (cases qo) (auto simp: master_ok_def cuentas_ok_def)
  have cq: "colas_ok (querys_ready m) (querys_exec m) [q] (workers m) (querys m) (trabajadores m)"
    using c by (simp add: PH_asigna q)
  obtain x where x: "querys m q = Some x" using colas_okD(4)[OF cq, of q] by auto
  have vivos: "\<forall>w \<in> set (workers m). trabajadores m w \<noteq> None"
    using colas_okD(6)[OF c] by fastforce
  have "filter (libre (trabajadores m)) (workers m) \<noteq> []"
    using master_okD(5)[OF ok] by (auto simp: cuentas_ok_def PH_asigna)
  then obtain w where w: "buscar_worker_libre m = Inr (Some w)" "w \<in> set (workers m)" "libre (trabajadores m) w"
    using primer_libre_ok[OF vivos] by (auto simp: buscar_worker_libre_def)
  then obtain y where y: "trabajadores m w = Some y" "w_state y = READY" by (auto simp: libre_def)
  let ?Q = "(querys m)(q \<mapsto> x\<lparr>q_worker := Some w, q_state := EXEC\<rparr>)"
  let ?T = "(trabajadores m)(w \<mapsto> y\<lparr>w_query := Some q, w_state := EXEC\<rparr>)"
  have cp: "colas_ok (querys_ready m) (querys_exec m @ [q]) [] (workers m) ?Q ?T"
    by (rule colas_par[OF cq x w(2) y]) simp_all
  have l: "Suc (length (filter (libre ?T) (workers m))) = length (filter (libre (trabajadores m)) (workers m))"
    by (rule libres_cambia(2)[where T = "trabajadores m", OF colas_okD(2)[OF c] w(2) y]) simp
  have "q \<notin> set (querys_ready m)" using colas_okD(1)[OF cq] by auto
  then have o: "en_orden ?Q (querys_ready m) \<longleftrightarrow> en_orden (querys m) (querys_ready m)"
    by (intro en_orden_update) (auto simp: prio_def)
  have f: "\<forall>r. ?Q r \<noteq> None \<or> ?T r \<noteq> None \<longrightarrow> r < next_obj m"
    using master_okD(6)[OF ok] x y(1) by (auto simp: fresco_def)
  have n: "length (querys_ready m) = sem_ready m + (if red m \<noteq> None then 1 else 0)"
    "length (filter (libre (trabajadores m)) (workers m)) = Suc (sem_workers m)"
    using master_okD(5)[OF ok] by (simp_all add: cuentas_ok_def PH_asigna)
  show ?thesis
    using cp l o f n master_okD(1,2,3,7)[OF ok] w(1) x y(1)
    by (simp add: PH_asigna q hacer_par_query_worker_def set_query_def set_worker_def solicitar_ejecucion_query_def
        enviar_def master_ok_def cuentas_ok_def fresco_def del: fun_upd_apply)
qed

lemma paso_query_termina:
  assumes ok: "master_ok m" and q: "map_option q_state (querys m q) = Some FINISHED"
  shows "sigueE master_ok (query_handler q DESCONEXION m)"
proof -
  note c = master_okD(4)[OF ok]
  obtain x where x: "querys m q = Some x" "q_state x = FINISHED" using q by auto
  note s = colas_sin_query[OF c x]
  have "en_orden ((querys m)(q := None)) (querys_ready m) \<longleftrightarrow> en_orden (querys m) (querys_ready m)"
    by (intro en_orden_update) (use s(2) in \<open>auto simp: prio_def\<close>)
  moreover have "\<forall>r. ((querys m)(q := None)) r \<noteq> None \<or> trabajadores m r \<noteq> None \<longrightarrow> r < next_obj m"
    using master_okD(6)[OF ok] by (auto simp: fresco_def)
  ultimately have "master_ok (m\<lparr>querys := (querys m)(q := None)\<rparr>)"
    using s(1) master_okD(1,2,3,5,7)[OF ok]
    by (simp add: master_ok_def cuentas_ok_def fresco_def del: fun_upd_apply)
  then show ?thesis
    using x s(2,3) by (simp add: query_handler_def destruir_query_def remove1_idem)
qed

lemma paso_ok:
  assumes "insercion_ok ins" and ok: "master_ok m" and e: "evento_ok split e m"
  shows "sigueE master_ok (paso ins split e m)"
proof (cases e)
  case (ConectaQuery s items)
  then show ?thesis
    using paso_query_nueva[OF assms(1) ok, of items s] e by (cases "red m") (auto simp: evento_ok_def)
next
  case (ConectaWorker s items)
  then show ?thesis using paso_worker_nuevo[OF ok] e by (simp add: evento_ok_def)
next
  case PasoRed
  then show ?thesis using paso_red_ok[OF ok] by simp
next
  case PasoProceso
  then show ?thesis using paso_proceso_ok[OF ok] by simp
next
  case (PasoAging k)
  then show ?thesis using master_okD(3)[OF ok] by (simp add: paso_aging_def)
next
  case (DeWorker w opcode items anda)
  then obtain y where y: "trabajadores m w = Some y" "w_state y = EXEC" and anda
    using e by (auto simp: evento_ok_def)
  then show ?thesis
    using e DeWorker paso_consulta[OF assms(1) ok y] paso_instruccion[OF ok y] paso_lectura[OF ok y]
    by (auto simp: evento_ok_def worker_handler_def split: option.split_asm)
next
  case (DeQuery q opcode)
  then show ?thesis using paso_query_termina[OF ok, of q] e by (simp add: evento_ok_def)
qed

definition inicio_ok :: "master \<Rightarrow> bool" where
  "inicio_ok m \<longleftrightarrow> (\<exists>alg \<in> {''FIFO'', ''PRIORIDADES''}. m = inicial alg 0)"

lemma inicio_master_ok: "inicio_ok m \<Longrightarrow> master_ok m"
  by (auto simp: inicio_ok_def inicial_def master_ok_def colas_ok_def cuentas_ok_def fresco_def en_orden_def)

interpretation planificador: invariant_system inicio_ok "paso_sano ins split"
    "\<lambda>m. insercion_ok ins \<longrightarrow> master_ok m" for ins split
proof
  show "insercion_ok ins \<longrightarrow> master_ok m" if "inicio_ok m" for m
    using inicio_master_ok[OF that] by simp
next
  fix m m' assume inv: "insercion_ok ins \<longrightarrow> master_ok m" and step: "paso_sano ins split m m'"
  show "insercion_ok ins \<longrightarrow> master_ok m'"
  proof
    assume i: "insercion_ok ins"
    from step obtain e where "evento_ok split e m" "paso ins split e m = Inr m'"
      by (auto elim: paso_sanoE)
    with paso_ok[OF i, of m split e] inv i show "master_ok m'" by simp
  qed
qed

end
