(* ===== verification/Master_Atasco.thy ===== *)
theory Master_Atasco
  imports Master_Handlers
begin

text \<open>
  A deadlock of the master. \<open>check_prior\<close> marks a worker and waits, with the mutex of the
  ready queue held, for that worker's next question. When the worker's query ends first, the
  worker is released and its mark cleared, nobody posts the semaphore, and no event that can
  follow changes that.
\<close>

section \<open>What the handlers leave alone\<close>

definition sin_marcas :: "(nat \<rightharpoonup> worker_t) \<Rightarrow> bool" where
  "sin_marcas T \<longleftrightarrow> (\<forall>w y. T w = Some y \<longrightarrow> \<not> interrumpir y)"

text \<open>The network thread waits in \<open>check_prior\<close> and no worker is marked.\<close>

definition atascado :: "master \<Rightarrow> bool" where
  "atascado m \<longleftrightarrow>
     (\<exists>q. red m = Some (q, CP_int)) \<and> sem_int m = 0 \<and> mutex_ready m \<and> agings m = [] \<and>
     sin_marcas (trabajadores m)"

lemma sin_marcasD: "sin_marcas T \<Longrightarrow> T w = Some y \<Longrightarrow> \<not> interrumpir y"
  by (simp add: sin_marcas_def)

lemma atascado_irrelevante [simp]:
  "atascado (m\<lparr>querys := a\<rparr>) = atascado m" "atascado (m\<lparr>querys_exec := b\<rparr>) = atascado m"
  "atascado (m\<lparr>querys_ready := b\<rparr>) = atascado m" "atascado (m\<lparr>sem_ready := c\<rparr>) = atascado m"
  "atascado (m\<lparr>sem_workers := c\<rparr>) = atascado m" "atascado (m\<lparr>sem_asign := c\<rparr>) = atascado m"
  "atascado (m\<lparr>proceso := d\<rparr>) = atascado m" "atascado (m\<lparr>esperando_worker := b\<rparr>) = atascado m"
  "atascado (enviar s e m) = atascado m"
  by (simp_all add: atascado_def enviar_def)

named_theorems atasco

lemma atasco_query [atasco]:
  "atascado m \<Longrightarrow> (\<And>m'. atascado m' \<Longrightarrow> P m') \<Longrightarrow> okE P (set_query q f m)"
  by (auto simp: set_query_def deref_def split: option.split)

lemma atasco_worker:
  assumes "atascado m" and "\<And>y. interrumpir (f y) \<Longrightarrow> interrumpir y" and "\<And>m'. atascado m' \<Longrightarrow> P m'"
  shows "okE P (set_worker w f m)"
proof (cases "trabajadores m w")
  case None
  then show ?thesis by (simp add: set_worker_def deref_def)
next
  case (Some y)
  then have "\<not> interrumpir (f y)" using assms(1,2) by (auto simp: atascado_def dest: sin_marcasD)
  then have "atascado (m\<lparr>trabajadores := (trabajadores m)(w \<mapsto> f y)\<rparr>)"
    using assms(1) by (simp add: atascado_def sin_marcas_def)
  then show ?thesis using Some assms(3) by (simp add: set_worker_def)
qed

lemma atasco_liberar [atasco]:
  "atascado m \<Longrightarrow> (\<And>m'. atascado m' \<Longrightarrow> P m') \<Longrightarrow> okE P (liberar_worker w m)"
  unfolding liberar_worker_def by (rule atasco_worker) auto

lemma atasco_destruir [atasco]:
  "atascado m \<Longrightarrow> (\<And>m'. atascado m' \<Longrightarrow> P m') \<Longrightarrow> okE P (destruir_worker w m)"
  by (auto simp: destruir_worker_def deref_def atascado_def sin_marcas_def split: option.split)

lemma okE_todo: "(\<And>x. P x) \<Longrightarrow> okE P r"
  by (rule okE_I)

lemmas consultas_m [atasco] =
  okE_todo[of _ "deref h r" for h r] okE_todo[of _ "no_nulo p" for p]
  okE_todo[of _ "item_int xs i" for xs i] okE_todo[of _ "query_de w m" for w m]
  okE_todo[of _ "buscar_worker_libre m" for m]

lemma atasco_finalizar [atasco]:
  "atascado m \<Longrightarrow> (\<And>m'. atascado m' \<Longrightarrow> P m') \<Longrightarrow> okE P (finalizar_query q r c m)"
  unfolding finalizar_query_def notificar_finalizacion_def by (auto intro!: atasco)

lemma atasco_notificar [atasco]:
  "atascado m \<Longrightarrow> (\<And>m'. atascado m' \<Longrightarrow> P m') \<Longrightarrow> okE P (notificar_read q f t c m)"
  unfolding notificar_read_def Let_def by (auto intro!: atasco)

lemma atasco_destruir_query [atasco]:
  "atascado m \<Longrightarrow> (\<And>m'. atascado m' \<Longrightarrow> P m') \<Longrightarrow> okE P (destruir_query q m)"
  unfolding destruir_query_def by (auto intro!: atasco)

lemma atasco_consulta:
  assumes a: "atascado m"
  shows "okE atascado (consulta_interrupcion ins w items anda m)"
proof (cases "trabajadores m w")
  case None
  then show ?thesis by (simp add: consulta_interrupcion_def deref_def)
next
  case (Some y)
  then have "\<not> interrumpir y" using a by (auto simp: atascado_def dest: sin_marcasD)
  then show ?thesis
    using a unfolding consulta_interrupcion_def
    by (auto simp: Some Let_def intro!: atasco atasco_worker split: prod.splits)
qed

lemma atasco_worker_handler:
  assumes "atascado m"
  shows "okE atascado (worker_handler ins split w opcode items anda m)"
  using assms atasco_consulta[OF assms]
  unfolding worker_handler_def lectura_master_def instruccion_master_def desconexion_worker_def
    error_en_ejecucion_def
  by (cases opcode) (auto intro!: atasco atasco_worker split: list.split option.split)

lemma atasco_proceso:
  assumes "atascado m"
  shows "okE (\<lambda>(c, m'). atascado m') (process_handler c m)"
  using assms
  by (cases c) (auto simp: obtener_query_def hacer_par_query_worker_def solicitar_ejecucion_query_def
      Let_def atascado_def[of m] intro!: atasco atasco_worker split: list.split)

text \<open>Nothing that can happen gets the master out of it.\<close>

lemma atasco_paso:
  assumes a: "atascado m"
  shows "okE atascado (paso ins split e m)"
proof (cases e)
  case (DeWorker w opcode items anda)
  then show ?thesis using atasco_worker_handler[OF a] by simp
next
  case (DeQuery q opcode)
  then show ?thesis
    using a by (auto simp: query_handler_def intro!: atasco split: state_t.split)
next
  case PasoProceso
  then show ?thesis
    using okE_mono[OF atasco_proceso[OF a, of "proceso m"], of "\<lambda>x. atascado (snd x)"]
    by (auto simp: case_prod_beta)
qed (use a in \<open>auto simp: atascado_def paso_red_def paso_aging_def\<close>)

interpretation atasco: invariant_system atascado "\<lambda>m m'. \<exists>e. paso ins split e m = Inr m'" atascado
  for ins split
proof
  show "atascado m'" if "atascado m" "\<exists>e. paso ins split e m = Inr m'" for m m'
    using that(2) okE_D[OF atasco_paso[OF that(1)]] by blast
qed

lemma atascado_no_atiende:
  assumes "atascado m"
  shows "paso ins split (ConectaQuery s items) m = Inl Blocked"
    and "paso ins split (ConectaWorker s items) m = Inl Blocked"
    and "paso ins split PasoRed m = Inl Blocked"
    and "proceso m = PH_obtener \<Longrightarrow> paso ins split PasoProceso m = Inl Blocked"
  using assms by (auto simp: atascado_def paso_red_def obtener_query_def)

lemma correr_star:
  "correr ins split es m = Inr m' \<Longrightarrow> (\<lambda>m m'. \<exists>e. paso ins split e m = Inr m')\<^sup>*\<^sup>* m m'"
  by (induction es arbitrary: m) (auto intro: converse_rtranclp_into_rtranclp)

lemma correr_atascado: "atascado m \<Longrightarrow> correr ins split es m = Inr m' \<Longrightarrow> atascado m'"
  by (rule atasco.star_inv[OF correr_star])

end
