(* ===== verification/Master_Theorems.thy ===== *)
theory Master_Theorems
  imports Master_Inv Master_Atasco
begin

text \<open>
  The properties of the master: what holds in every run the invariant covers, and the runs
  outside it in which the code follows a pointer that is not there or stops for good. The
  runs are computed with a concrete \<open>list_add_sorted\<close>.
\<close>

section \<open>A concrete insertion and split\<close>

fun insertar :: insercion where
  "insertar cmp [] x = [x]"
| "insertar cmp (y # ys) x = (if cmp y x then y # insertar cmp ys x else x # y # ys)"

lemma set_insertar: "set (insertar cmp xs x) = insert x (set xs)"
  by (induction xs) auto

lemma insertar_ok: "insercion_ok insertar"
proof -
  have "mset (insertar cmp xs x) = add_mset x (mset xs)" for cmp xs x
    by (induction xs) auto
  moreover have "sorted_wrt (\<lambda>a b. (f a :: int) \<le> f b) (insertar cmp xs x)"
    if "\<forall>a \<in> set (x # xs). \<forall>b \<in> set (x # xs). cmp a b = (f a < f b)" "sorted_wrt (\<lambda>a b. f a \<le> f b) xs"
    for cmp xs x and f :: "nat \<Rightarrow> int"
    using that
  proof (induction xs)
    case (Cons a xs)
    have "sorted_wrt (\<lambda>a b. f a \<le> f b) (insertar cmp xs x)" using Cons by simp
    moreover have "cmp a x \<longleftrightarrow> f a < f x" using Cons.prems(1) by simp
    ultimately show ?case using Cons.prems(2) by (fastforce simp: set_insertar)
  qed simp
  ultimately show ?thesis by (simp add: insercion_ok_def)
qed

definition partir :: "string \<Rightarrow> string \<Rightarrow> string list" where
  "partir s sep = [s, s]"


section \<open>Concrete runs\<close>

text \<open>A query with a file and a priority connects on a socket, and a worker with a name.\<close>

definition llega_query :: "int \<Rightarrow> string \<Rightarrow> evento" where
  "llega_query socket pr = ConectaQuery socket [cstr ''f'', cstr pr]"

definition llega_worker :: "int \<Rightarrow> evento" where
  "llega_worker socket = ConectaWorker socket [cstr ''w'']"

definition planifica :: "evento list" where
  "planifica = replicate 4 PasoProceso"

definition red_sin_desalojo :: "evento list" where
  "red_sin_desalojo = [PasoRed, PasoRed]"

definition consulta :: "nat \<Rightarrow> int \<Rightarrow> evento" where
  "consulta w pc = DeWorker w CONSULTA_INTERRUPCION [int_bytes (word_of_int pc)] True"

definition termina :: "nat \<Rightarrow> evento" where
  "termina w = DeWorker w INSTRUCCION_MASTER [int_bytes (copi_val END)] True"

definition desde_cero :: "string \<Rightarrow> int \<Rightarrow> evento list \<Rightarrow> fault + master" where
  "desde_cero alg aging es = correr insertar partir es (inicial alg aging)"

text \<open>A query of higher priority takes the place of the one in execution, which resumes later.\<close>

lemma demo_desalojo:
  "(case desde_cero ''PRIORIDADES'' 0
      ([llega_worker 10, llega_query 20 ''5''] @ red_sin_desalojo @ planifica @
       [llega_query 21 ''1'', PasoRed, PasoRed, consulta 0 3, PasoRed] @ planifica @
       [PasoRed, termina 0] @ planifica) of
      Inl f \<Rightarrow> None
    | Inr m \<Rightarrow> Some (querys_exec m, querys_ready m, red m, map_option q_pc (querys m 1),
                    map_option q_state (querys m 2))) =
   Some ([1], [], None, Some 3, Some FINISHED)"
  by code_simp

text \<open>The fault a run ends in.\<close>

definition fallo :: "fault + 'a \<Rightarrow> fault option" where
  "fallo r = (case r of Inl f \<Rightarrow> Some f | Inr x \<Rightarrow> None)"

lemma fallo_D: "fallo r = Some f \<Longrightarrow> r = Inl f"
  by (cases r) (simp_all add: fallo_def)

text \<open>The events of a run, each one in the environment the invariant is about.\<close>

fun run_ok :: "evento list \<Rightarrow> master \<Rightarrow> bool" where
  "run_ok [] m = True"
| "run_ok (e # es) m =
     (evento_ok partir e m \<and> (case paso insertar partir e m of Inl f \<Rightarrow> False | Inr m \<Rightarrow> run_ok es m))"

lemma run_ok_reach:
  "run_ok es m \<Longrightarrow> reach inicio_ok (paso_sano insertar partir) m \<Longrightarrow> correr insertar partir es m = Inr m' \<Longrightarrow>
   reach inicio_ok (paso_sano insertar partir) m'"
proof (induction es arbitrary: m)
  case (Cons e es)
  then obtain m1 where m1: "paso insertar partir e m = Inr m1" by auto
  then have "reach inicio_ok (paso_sano insertar partir) m1"
    using Cons.prems by (auto intro: reach_step paso_sano_I)
  with Cons.IH[of m1] Cons.prems m1 show ?case by simp
qed simp

definition demo_run :: "evento list" where
  "demo_run = [llega_worker 10, llega_query 20 ''5''] @ red_sin_desalojo @ planifica @
     [llega_query 21 ''1'', PasoRed, PasoRed]"

lemma demo_run_ok: "run_ok demo_run (inicial ''PRIORIDADES'' 0)"
  by code_simp

lemma demo_run_evento: "(case desde_cero ''PRIORIDADES'' 0 demo_run of Inl f \<Rightarrow> False
    | Inr m \<Rightarrow> evento_ok partir (consulta 0 3) m)"
  by code_simp

lemma demo_run_exec: "(case desde_cero ''PRIORIDADES'' 0 demo_run of Inl f \<Rightarrow> False
    | Inr m \<Rightarrow> ALGORITMO_PLANIFICACION m = ''PRIORIDADES'' \<and> querys_exec m = [1])"
  by code_simp

lemma demo_reach:
  obtains m where "desde_cero ''PRIORIDADES'' 0 demo_run = Inr m"
    "reach inicio_ok (paso_sano insertar partir) m" "evento_ok partir (consulta 0 3) m"
proof -
  obtain m where m: "desde_cero ''PRIORIDADES'' 0 demo_run = Inr m"
    using demo_run_evento by (cases "desde_cero ''PRIORIDADES'' 0 demo_run") auto
  have i: "reach inicio_ok (paso_sano insertar partir) (inicial ''PRIORIDADES'' 0)"
    by (rule reach_init) (simp add: inicio_ok_def)
  have "reach inicio_ok (paso_sano insertar partir) m"
    by (rule run_ok_reach[OF demo_run_ok i]) (use m in \<open>simp add: desde_cero_def\<close>)
  then show thesis using m demo_run_evento by (intro that) simp_all
qed

section \<open>Runs with no departures\<close>





section \<open>Where the code follows a pointer that is not there\<close>


text \<open>
  A worker that leaves while it is free makes the master crash: its \<open>sem_workers\<close> stays, and
  the next query is given to no worker.
\<close>

lemma idle_worker_departure_crashes:
  "desde_cero ''FIFO'' 0 ([llega_worker 10, DeWorker 0 DESCONEXION [] True, llega_query 20 ''1''] @ planifica) =
   Inl NullDeref"
  by (rule fallo_D) code_simp


text \<open>
  With aging, the only ready query may be given to a worker between the moment its thread
  puts it back and the moment the thread compares it with the victim: the head of the empty
  queue is read.
\<close>

lemma aging_race_crashes:
  "desde_cero ''PRIORIDADES'' 1 ([llega_worker 10, llega_query 20 ''3''] @ red_sin_desalojo @
      [PasoAging 0, PasoAging 0] @ planifica @ [PasoAging 0, PasoAging 0]) = Inl NullDeref"
  by (rule fallo_D) code_simp

text \<open>
  A query of negative priority is lost with aging on: its thread takes it out of the ready
  queue and never puts it back, so it is in no queue and the scheduler finds none.
\<close>

lemma negative_priority_lost:
  "(case desde_cero ''PRIORIDADES'' 1 ([llega_query 20 ''-1''] @ red_sin_desalojo @ [PasoAging 0, PasoAging 0]) of
      Inl f \<Rightarrow> False
    | Inr m \<Rightarrow> querys m 0 \<noteq> None \<and> querys_ready m = [] \<and> querys_exec m = [] \<and> sem_ready m = 1)"
  by code_simp

text \<open>
  A query whose Query Control leaves in the middle of its execution is never released: its
  handler waits on a copy of the semaphore, and the query stays in the queue of execution
  after the worker has left it and is free again.
\<close>

lemma exec_departure_leaks:
  "(case desde_cero ''FIFO'' 0 ([llega_worker 10, llega_query 20 ''1''] @ planifica @
      [DeQuery 1 DESCONEXION, consulta 0 1]) of
      Inl f \<Rightarrow> False
    | Inr m \<Rightarrow> querys_exec m = [1] \<and> map_option w_state (trabajadores m 0) = Some READY \<and>
        esperando_worker m = [1] \<and> map_option sem_interrupt (trabajadores m 0) = Some 1)"
  by code_simp

section \<open>Where it stops for good\<close>

definition atasco_run :: "evento list" where
  "atasco_run = demo_run @ [termina 0]"

lemma atasco_run_ok: "run_ok atasco_run (inicial ''PRIORIDADES'' 0)"
  by code_simp

lemma atasco_run_estado:
  "(case desde_cero ''PRIORIDADES'' 0 atasco_run of Inl f \<Rightarrow> False
    | Inr m \<Rightarrow> red m = Some (2, CP_int) \<and> sem_int m = 0 \<and> mutex_ready m \<and> agings m = [] \<and>
        list_all (\<lambda>w. map_option interrumpir (trabajadores m w) = Some False) (workers m))"
  by code_simp

text \<open>
  C17: when the query to be preempted reaches its END before its worker asks, the master stops
  for good: \<open>check_prior\<close> keeps the mutex of the ready queue and waits for a post that never
  comes, so whatever happens next no handshake is taken again and no query leaves the ready
  queue.
\<close>

theorem end_during_preemption_deadlocks:
  "case desde_cero ''PRIORIDADES'' 0 atasco_run of
     Inl f \<Rightarrow> False
   | Inr m \<Rightarrow>
       \<forall>es s items. case correr insertar partir es m of
         Inl f \<Rightarrow> True
       | Inr m' \<Rightarrow>
           mutex_ready m' \<and> paso insertar partir PasoRed m' = Inl Blocked \<and>
           paso insertar partir (ConectaQuery s items) m' = Inl Blocked \<and>
           paso insertar partir (ConectaWorker s items) m' = Inl Blocked \<and>
           obtener_query m' = Inl Blocked"
proof -
  obtain m where m: "desde_cero ''PRIORIDADES'' 0 atasco_run = Inr m"
    using atasco_run_estado by (cases "desde_cero ''PRIORIDADES'' 0 atasco_run") auto
  have i: "reach inicio_ok (paso_sano insertar partir) (inicial ''PRIORIDADES'' 0)"
    by (rule reach_init) (simp add: inicio_ok_def)
  have "reach inicio_ok (paso_sano insertar partir) m"
    by (rule run_ok_reach[OF atasco_run_ok i]) (use m in \<open>simp add: desde_cero_def\<close>)
  then have "master_ok m" using planificador.reach_inv insertar_ok by blast
  then have "w \<in> set (workers m)" if "trabajadores m w = Some y" for w y
    using colas_okD(7)[OF master_okD(4)] that by blast
  then have "atascado m"
    using atasco_run_estado m by (fastforce simp: atascado_def sin_marcas_def list_all_iff)
  then have "mutex_ready m' \<and> paso insertar partir PasoRed m' = Inl Blocked \<and>
      paso insertar partir (ConectaQuery s items) m' = Inl Blocked \<and>
      paso insertar partir (ConectaWorker s items) m' = Inl Blocked \<and> obtener_query m' = Inl Blocked"
    if "correr insertar partir es m = Inr m'" for es s items m'
    using correr_atascado[OF _ that] atascado_no_atiende[of m'] by (simp add: atascado_def obtener_query_def)
  then show ?thesis unfolding m by (auto split: sum.split)
qed

end
