(* ===== verification/Storage_Theorems.thy ===== *)
theory Storage_Theorems
  imports Storage_Tags
begin

text \<open>
  The properties of the storage operations, with a small concrete file system to apply them
  to, and the behaviours of the code that break the module's own rules.
\<close>

section \<open>A concrete file system\<close>

text \<open>
  Eight blocks of two bytes: block 0 holds zeros and is the one block of
  \<open>initial_file:BASE\<close>, as a fresh start leaves it; \<open>a:1\<close> is WORK_IN_PROGRESS, with a block
  of its own and the zero block. \<open>demo_md5\<close> stands for the hash.
\<close>

definition demo_md5 :: "byte list \<Rightarrow> string" where
  "demo_md5 c = concat (map (\<lambda>b. itoa (int (unat b)) @ '','') c)"

definition demo_fs :: storage where
  "demo_fs =
     \<lparr>BLOCK_SIZE = 2, FS_SIZE = 16, CANT_WORKERS = 0,
      bitmap = [True, True] @ replicate 6 False,
      config_hash_index = [demo_md5 [48, 48] \<mapsto> block_name 0],
      locks_index = [(''a'', [(''1'', create_lock)])],
      blk_mutex_list = replicate 8 1,
      file_dirs = {''initial_file'', ''a''},
      ft_dirs = [(''initial_file'', ''BASE'') \<mapsto>
        \<lparr>metadata_config = Some \<lparr>tamanio = 2, blocks = [''0''], estado = COMMITED\<rparr>, logical_dir = True\<rparr>,
        (''a'', ''1'') \<mapsto>
        \<lparr>metadata_config = Some \<lparr>tamanio = 4, blocks = [''1'', ''0''], estado = WORK_IN_PROGRESS\<rparr>,
         logical_dir = True\<rparr>],
      logical_blocks = [((''a'', ''1'', 0), 1), ((''a'', ''1'', 1), 0),
        ((''initial_file'', ''BASE'', 0), 0)],
      physical_blocks = (\<lambda>p. if p = 1 then Some [65, 66]
        else if 0 \<le> p \<and> p < 8 then Some [48, 48] else None)\<rparr>"

text \<open>A sequence of operations, stopping at the first fault.\<close>

fun run_all :: "(storage \<Rightarrow> fault + (rta_storage \<times> storage)) list \<Rightarrow> storage \<Rightarrow>
    fault + (rta_storage list \<times> storage)" where
  "run_all [] s = Inr ([], s)"
| "run_all (op # ops) s =
     bindE (op s) (\<lambda>(r, s). bindE (run_all ops s) (\<lambda>(rs, s). Inr (r # rs, s)))"

lemma num_blocks_demo: "num_blocks demo_fs = 8"
  by (simp add: num_blocks_def demo_fs_def c_div_def)

lemma zero_block_demo: "zero_block demo_fs = [48, 48]"
  by (simp add: zero_block_def demo_fs_def) code_simp

lemma metas_demo: "metas demo_fs = [(''initial_file'', ''BASE'') \<mapsto>
      \<lparr>tamanio = 2, blocks = [''0''], estado = COMMITED\<rparr>,
    (''a'', ''1'') \<mapsto> \<lparr>tamanio = 4, blocks = [''1'', ''0''], estado = WORK_IN_PROGRESS\<rparr>]"
  by (auto simp: metas_def storage_metadata_read_def demo_fs_def fun_eq_iff)

lemma atoi_demo [simp]: "atoi ''0'' = 0" "atoi ''1'' = 1"
  by code_simp+

lemma demo_md5_values: "demo_md5 [48, 48] = ''48,48,''" "demo_md5 [65, 66] = ''65,66,''"
  by code_simp+

lemma demo_disk_ok: "disk_ok demo_fs"
  unfolding disk_ok_def num_blocks_demo zero_block_demo
  by (auto simp: demo_fs_def split: if_splits)

lemma demo_tree_ok: "tree_ok (metas demo_fs) demo_fs"
  unfolding tree_ok_def num_blocks_demo metas_demo
  by (auto simp: entry_of_def demo_fs_def fun_eq_iff split: if_splits prod.splits)

lemma demo_wf: "fs_wf demo_fs"
  using demo_disk_ok demo_tree_ok
  by (simp add: fs_wf_def fs_ok_def mutex_ok_def num_blocks_demo)
    (simp add: demo_fs_def index_idle_def)

lemma block_used_demo: "block_used demo_fs p \<longleftrightarrow> p \<le> 1 \<or> 8 \<le> p"
proof -
  have "nat p < 8" if "\<not> 8 \<le> p" using that by simp
  then show ?thesis
    by (cases "nat p") (auto simp: block_used_def demo_fs_def nth_Cons split: nat.splits)
qed

lemma demo_safe: "alloc_safe demo_fs"
  unfolding alloc_safe_def block_used_demo by (auto simp: demo_fs_def split: if_splits)

lemma demo_idx_sound: "idx_sound demo_md5 demo_fs"
  by (auto simp: idx_sound_def demo_fs_def split: if_splits intro!: exI[of _ 0])

lemma demo_no_collision: "no_collision demo_md5 demo_fs"
  by (auto simp: no_collision_def demo_fs_def demo_md5_values split: if_splits)

lemma demo_idx_used: "idx_used demo_fs"
  unfolding idx_used_def block_used_demo
  by (auto simp: demo_fs_def atoi_block_name split: if_splits)

lemma demo_block_size: "BLOCK_SIZE demo_fs = 2"
  by (simp add: demo_fs_def)

section \<open>Reading through the view\<close>

text \<open>What READ returns, as a function of the abstract view alone.\<close>

definition read_view :: "ft_key \<Rightarrow> int \<Rightarrow> afs \<Rightarrow> fault + (rta_storage \<times> byte list option)" where
  "read_view k l fs =
     (case fs k of
        None \<Rightarrow> Inr (spec_read k l fs)
      | Some a \<Rightarrow>
          if l < 0 \<or> l = int (length (a_blocks a)) then Inl NullDeref else Inr (spec_read k l fs))"

lemma storage_read_view:
  assumes wf: "fs_wf s"
  shows "storage_read f t l s = map_sum id (\<lambda>r. (r, s)) (read_view (f, t) l (abs_fs s))"
proof (cases "metas s (f, t)")
  case None
  then show ?thesis unfolding storage_read_total[OF wf] by (simp add: read_view_def abs_fs_absent)
next
  case (Some m)
  then show ?thesis
    unfolding storage_read_total[OF wf] by (simp add: read_view_def abs_fs_Some)
qed

lemma read_view_cong: "fs k = fs' k \<Longrightarrow> read_view k l fs = read_view k l fs'"
  by (simp add: read_view_def spec_read_def split: option.splits)

section \<open>Every operation refines its specification\<close>

text \<open>
  C8: with a free block on disk, WRITE on a well-formed state always returns, keeps the state
  well-formed with every block in use marked used, and changes the contents of exactly the
  block it names: a block shared with other File:Tags, or the zero block, is copied first.
\<close>

theorem write_refines:
  assumes "fs_wf s" and "alloc_safe s" and "BLOCK_SIZE s \<le> int (length buf)"
    and "\<exists>b. \<not> block_used s b \<and> 0 < b \<and> b < num_blocks s"
  shows "\<exists>r s'. storage_write f t l buf s = Inr (r, s') \<and> fs_wf s' \<and> alloc_safe s' \<and>
           (r, abs_fs s') = spec_write (BLOCK_SIZE s) (f, t) l buf (abs_fs s)"
  using storage_write_ok[OF assms(1-3)] assms(4) by blast

lemma demo_has_room: "\<exists>b. \<not> block_used demo_fs b \<and> 0 < b \<and> b < num_blocks demo_fs"
  unfolding block_used_demo num_blocks_demo by (rule exI[of _ 2]) simp

theorem write_refines_witness:
  "\<exists>r s'. storage_write ''a'' ''1'' 1 [67, 68] demo_fs = Inr (r, s') \<and> fs_wf s' \<and> alloc_safe s' \<and>
     (r, abs_fs s') = spec_write (BLOCK_SIZE demo_fs) (''a'', ''1'') 1 [67, 68] (abs_fs demo_fs)"
  by (rule write_refines[OF demo_wf demo_safe _ demo_has_room]) (simp add: demo_block_size)



text \<open>
  C12: TAG on a well-formed state always returns; onto a fresh name it gives a File:Tag whose
  size and block contents are the origin's at that moment, in state WORK_IN_PROGRESS, without
  touching the bitmap, the hash index or any contents. An existing name is refused, and a
  missing origin is reported with the empty destination already created.
\<close>

theorem tag_refines:
  assumes "fs_wf s"
  shows "\<exists>r s'. storage_tag fo to fn tn s = Inr (r, s') \<and> fs_wf s' \<and>
           (alloc_safe s \<longrightarrow> alloc_safe s') \<and>
           (r, abs_fs s') = spec_tag (fo, to) (fn, tn) (abs_fs s) \<and>
           config_hash_index s' = config_hash_index s \<and> physical_blocks s' = physical_blocks s \<and>
           block_used s' = block_used s"
  using storage_tag_ok[OF assms, of fo to fn tn] by blast

theorem tag_refines_witness:
  "\<exists>r s'. storage_tag ''a'' ''1'' ''b'' ''2'' demo_fs = Inr (r, s') \<and> fs_wf s' \<and>
     (alloc_safe demo_fs \<longrightarrow> alloc_safe s') \<and>
     (r, abs_fs s') = spec_tag (''a'', ''1'') (''b'', ''2'') (abs_fs demo_fs) \<and>
     config_hash_index s' = config_hash_index demo_fs \<and>
     physical_blocks s' = physical_blocks demo_fs \<and> block_used s' = block_used demo_fs"
  by (rule tag_refines[OF demo_wf])

text \<open>
  C11: DELETE on a well-formed state always returns and removes exactly the File:Tag it
  names: every other one keeps its record and contents, blocks still in use stay marked
  used, and the hash index stays sound. \<open>initial_file:BASE\<close> is refused.
\<close>

theorem delete_refines:
  assumes "fs_wf s"
  shows "\<exists>r s'. storage_delete md5 f t s = Inr (r, s') \<and> fs_wf s' \<and>
           (alloc_safe s \<longrightarrow> alloc_safe s') \<and> (idx_sound md5 s \<longrightarrow> idx_sound md5 s') \<and>
           (idx_sound md5 s \<and> idx_used s \<longrightarrow> idx_used s') \<and>
           (r, abs_fs s') = spec_delete (f, t) (abs_fs s)"
  by (rule storage_delete_ok[OF assms])

theorem delete_refines_witness:
  "\<exists>r s'. storage_delete demo_md5 ''a'' ''1'' demo_fs = Inr (r, s') \<and> fs_wf s' \<and>
     (alloc_safe demo_fs \<longrightarrow> alloc_safe s') \<and>
     (idx_sound demo_md5 demo_fs \<longrightarrow> idx_sound demo_md5 s') \<and>
     (idx_sound demo_md5 demo_fs \<and> idx_used demo_fs \<longrightarrow> idx_used s') \<and>
     (r, abs_fs s') = spec_delete (''a'', ''1'') (abs_fs demo_fs)"
  by (rule delete_refines[OF demo_wf])

text \<open>
  C13: TRUNCATE on a well-formed state, to any size above minus one block, always returns: the
  File:Tag keeps its leading blocks, new ones read as zeros, and no other File:Tag changes.
\<close>

theorem truncate_refines:
  assumes "fs_wf s" and "- BLOCK_SIZE s < n"
  shows "\<exists>r s'. storage_truncate f t n s = Inr (r, s') \<and> fs_wf s' \<and>
           (alloc_safe s \<longrightarrow> alloc_safe s') \<and>
           (r, abs_fs s') = spec_truncate (zero_block s) (BLOCK_SIZE s) (f, t) n (abs_fs s)"
  by (rule storage_truncate_ok[OF assms])

theorem truncate_refines_witness:
  "\<exists>r s'. storage_truncate ''a'' ''1'' 6 demo_fs = Inr (r, s') \<and> fs_wf s' \<and>
     (alloc_safe demo_fs \<longrightarrow> alloc_safe s') \<and>
     (r, abs_fs s') =
       spec_truncate (zero_block demo_fs) (BLOCK_SIZE demo_fs) (''a'', ''1'') 6 (abs_fs demo_fs)"
  by (rule truncate_refines[OF demo_wf]) (simp add: demo_block_size)

text \<open>
  CREATE on a well-formed state always returns: it adds an empty WORK_IN_PROGRESS
  File:Tag under a fresh name and refuses an existing one, leaving contents, hash index and
  bitmap alone.
\<close>

lemma create_refines:
  assumes "fs_wf s"
  shows "\<exists>r s'. storage_create f t s = Inr (r, s') \<and> fs_wf s' \<and>
           (alloc_safe s \<longrightarrow> alloc_safe s') \<and> (r, abs_fs s') = spec_create (f, t) (abs_fs s) \<and>
           config_hash_index s' = config_hash_index s \<and> physical_blocks s' = physical_blocks s \<and>
           block_used s' = block_used s"
  using storage_create_ok[OF assms] by blast

text \<open>
  C24: READ on a well-formed state never changes the state and returns what the view holds;
  it faults exactly on an existing File:Tag with a negative index or the index one past its
  last block, which the bound check with \<open>>\<close> lets through to \<open>list_get\<close>.
\<close>

theorem read_refines:
  assumes "fs_wf s"
  shows "storage_read f t l s =
    (if \<exists>m. metas s (f, t) = Some m \<and> (l < 0 \<or> l = int (length (blocks m)))
     then Inl NullDeref else Inr (spec_read (f, t) l (abs_fs s), s))"
  by (rule storage_read_total[OF assms])

theorem read_refines_witness:
  "storage_read ''initial_file'' ''BASE'' 1 demo_fs = Inl NullDeref"
  using read_refines[OF demo_wf, of "''initial_file''" "''BASE''" 1] by (simp add: metas_demo)

section \<open>Operations in sequence\<close>

text \<open>What a client sees of READ.\<close>

definition read_result :: "string \<Rightarrow> string \<Rightarrow> int \<Rightarrow> storage \<Rightarrow> fault + (rta_storage \<times> byte list option)" where
  "read_result f t l s = map_sum id fst (storage_read f t l s)"

lemma read_result_view: "fs_wf s \<Longrightarrow> read_result f t l s = read_view (f, t) l (abs_fs s)"
  by (cases "read_view (f, t) l (abs_fs s)") (simp_all add: read_result_def storage_read_view)

lemma write_success:
  assumes wf: "fs_wf s" and safe: "alloc_safe s" and buf: "BLOCK_SIZE s \<le> int (length buf)"
    and room: "\<exists>b. \<not> block_used s b \<and> 0 < b \<and> b < num_blocks s"
    and w: "storage_write f t l buf s = Inr (OP_EXITOSA, s')"
  shows "fs_wf s'" and "\<exists>a. abs_fs s (f, t) = Some a \<and> 0 \<le> l \<and> l < int (length (a_blocks a)) \<and>
    abs_fs s' = (abs_fs s)((f, t) \<mapsto> a\<lparr>a_blocks := (a_blocks a)[nat l := take (nat (BLOCK_SIZE s)) buf]\<rparr>)"
proof -
  from room obtain b where b: "\<not> block_used s b" "0 < b" "b < num_blocks s" by blast
  from storage_write_ok[OF wf safe buf b, of f t l] w
  have r: "fs_wf s'" "(OP_EXITOSA, abs_fs s') = spec_write (BLOCK_SIZE s) (f, t) l buf (abs_fs s)" by auto
  show "fs_wf s'" by (rule r)
  show "\<exists>a. abs_fs s (f, t) = Some a \<and> 0 \<le> l \<and> l < int (length (a_blocks a)) \<and>
    abs_fs s' = (abs_fs s)((f, t) \<mapsto> a\<lparr>a_blocks := (a_blocks a)[nat l := take (nat (BLOCK_SIZE s)) buf]\<rparr>)"
    using r(2) by (auto simp: spec_write_def split: option.splits if_splits)
qed

text \<open>
  A block read after a successful WRITE to it gives the first block-size bytes of the
  buffer written, whether the write went in place or to a copy.
\<close>

lemma write_then_read:
  assumes "fs_wf s" and "alloc_safe s" and "BLOCK_SIZE s \<le> int (length buf)"
    and "\<exists>b. \<not> block_used s b \<and> 0 < b \<and> b < num_blocks s"
    and "storage_write f t l buf s = Inr (OP_EXITOSA, s')"
  shows "storage_read f t l s' = Inr ((OP_EXITOSA, Some (take (nat (BLOCK_SIZE s)) buf)), s')"
proof -
  note w = write_success[OF assms]
  from w(2) obtain a where a: "0 \<le> l" "l < int (length (a_blocks a))"
    "abs_fs s' (f, t) = Some (a\<lparr>a_blocks := (a_blocks a)[nat l := take (nat (BLOCK_SIZE s)) buf]\<rparr>)"
    by auto
  have "nat l < length (a_blocks a)" using a by simp
  with a show ?thesis by (simp add: storage_read_view[OF w(1)] read_view_def spec_read_def)
qed

lemma success_cases:
  "(case x of Inl e \<Rightarrow> False | Inr (r, s) \<Rightarrow> r = OP_EXITOSA \<and> P s) \<Longrightarrow>
   \<exists>s. x = Inr (OP_EXITOSA, s) \<and> P s"
  by (cases x) auto

lemma demo_write_runs:
  "\<exists>s'. storage_write ''a'' ''1'' 1 [67, 68] demo_fs = Inr (OP_EXITOSA, s')"
proof -
  have "(case storage_write ''a'' ''1'' 1 [67, 68] demo_fs of
      Inl e \<Rightarrow> False | Inr (r, s) \<Rightarrow> r = OP_EXITOSA \<and> True)" by code_simp
  from success_cases[OF this] show ?thesis by simp
qed


lemma demo_tag_write_runs:
  "\<exists>s1 s2. storage_tag ''a'' ''1'' ''b'' ''2'' demo_fs = Inr (OP_EXITOSA, s1) \<and>
           storage_write ''b'' ''2'' 0 [67, 68] s1 = Inr (OP_EXITOSA, s2)"
proof -
  have "(case storage_tag ''a'' ''1'' ''b'' ''2'' demo_fs of
      Inl e \<Rightarrow> False
    | Inr (r, s) \<Rightarrow> r = OP_EXITOSA \<and>
        (case storage_write ''b'' ''2'' 0 [67, 68] s of
           Inl e \<Rightarrow> False | Inr (r, s) \<Rightarrow> r = OP_EXITOSA \<and> True))"
    by code_simp
  from success_cases[OF this] obtain s1 where
    "storage_tag ''a'' ''1'' ''b'' ''2'' demo_fs = Inr (OP_EXITOSA, s1)"
    "(case storage_write ''b'' ''2'' 0 [67, 68] s1 of
        Inl e \<Rightarrow> False | Inr (r, s) \<Rightarrow> r = OP_EXITOSA \<and> True)" by blast
  with success_cases[OF this(2)] show ?thesis by blast
qed


text \<open>
  C25: a COMMITED File:Tag is immutable: TRUNCATE and WRITE answer ERR_WRITE_COMMITED and
  leave the whole storage state exactly as it was, locks and semaphores included.
\<close>

theorem commited_immutable:
  assumes "fs_wf s" and "metas s (f, t) = Some m" and "is_commited m"
  shows "storage_truncate f t n s = Inr (ERR_WRITE_COMMITED, s) \<and>
         storage_write f t l buf s = Inr (ERR_WRITE_COMMITED, s)"
  using storage_truncate_commited[OF assms] write_commited[OF assms] by simp

theorem commited_immutable_witness:
  "storage_truncate ''initial_file'' ''BASE'' 8 demo_fs = Inr (ERR_WRITE_COMMITED, demo_fs) \<and>
   storage_write ''initial_file'' ''BASE'' 0 [67, 68] demo_fs = Inr (ERR_WRITE_COMMITED, demo_fs)"
  by (rule commited_immutable[OF demo_wf, of _ _
        "\<lparr>tamanio = 2, blocks = [''0''], estado = COMMITED\<rparr>"])
    (simp add: metas_demo, code_simp)

section \<open>Where the code breaks the module's own rules\<close>

text \<open>
  C27: a WRITE that must copy, when no bit of the bitmap is clear, does not answer
  ERR_ESP_INSUFICIENTE: it frees \<open>phys_path\<close> twice.
\<close>

theorem write_full_disk_faults:
  assumes "fs_wf s" and "metas s (f, t) = Some m" and "\<not> is_commited m"
    and "l < length (blocks m)"
    and "atoi (blocks m ! l) = 0 \<or> 2 \<le> occurs (logical_blocks s) (atoi (blocks m ! l))"
    and "\<forall>i. 1 \<le> i \<and> i < length (bitmap s) \<longrightarrow> bitmap s ! i"
  shows "storage_write f t (int l) buf s = Inl DoubleFree"
  by (rule write_no_space[OF assms])

lemma demo_full_wf: "fs_wf (demo_fs\<lparr>bitmap := replicate 8 True\<rparr>)"
proof -
  have "length (bitmap demo_fs) = 8" by (simp add: demo_fs_def)
  then show ?thesis
    using fs_wfD[OF demo_wf] by (simp add: fs_wf_def fs_ok_def)
qed

theorem write_full_disk_faults_witness:
  "storage_write ''a'' ''1'' (int 1) [67, 68] (demo_fs\<lparr>bitmap := replicate 8 True\<rparr>) = Inl DoubleFree"
proof (rule write_full_disk_faults[OF demo_full_wf])
  show "metas (demo_fs\<lparr>bitmap := replicate 8 True\<rparr>) (''a'', ''1'') =
      Some \<lparr>tamanio = 4, blocks = [''1'', ''0''], estado = WORK_IN_PROGRESS\<rparr>"
    by (simp add: metas_demo)
  show "\<not> is_commited \<lparr>tamanio = 4, blocks = [''1'', ''0''], estado = WORK_IN_PROGRESS\<rparr>"
    by code_simp
qed (auto simp: nth_Cons split: nat.splits)

text \<open>A new File:Tag \<open>f:1\<close> of one block holding \<open>c\<close>.\<close>

definition new_file :: "string \<Rightarrow> byte list \<Rightarrow> (storage \<Rightarrow> fault + (rta_storage \<times> storage)) list" where
  "new_file f c = [storage_create f ''1'', storage_truncate f ''1'' 2, storage_write f ''1'' 0 c]"



end
