(* ===== verification/Storage_System.thy ===== *)
theory Storage_System
  imports Storage_Theorems Storage_Handler
begin

text \<open>
  The storage as a whole: what starting it establishes, what a restart keeps, and what a
  worker gets back for the packets it sends.
\<close>

section \<open>Starting\<close>



text \<open>
  C22: a restart loses what was in memory and keeps the disk: the contents every client sees
  are the ones before, the invariants hold again, and the zero block is in the hash index.
  No File:Tag has a lock any more, so from then on none of its operations waits for another.
\<close>

theorem restart_keeps_contents:
  assumes "fs_wf s" and "\<not> string_equals_ignore_case fresh ''TRUE''"
    and "''files'' \<notin> file_dirs s" and "''physical_blocks'' \<notin> file_dirs s"
  shows "\<exists>s'. storage_init md5 fresh fs bs (Some (FS_SIZE s, BLOCK_SIZE s))
                 (s\<lparr>locks_index := l, blk_mutex_list := b\<rparr>) = Inr s' \<and>
           fs_wf s' \<and> abs_fs s' = abs_fs s \<and>
           block_asocied_to (md5 (zero_block s)) s' = Some (block_name 0) \<and>
           (\<forall>f t. get_lock_of f t s' = None \<and> storage_wait f t s' = Inr s')"
proof -
  let ?s' = "(load_hash_in_index (md5 (zero_block s)) 0 s)\<lparr>locks_index := [], CANT_WORKERS := 0,
    bitmap := take (nat (8 * bitmap_size (num_blocks s))) (bitmap s)\<rparr>"
  have "storage_init md5 fresh fs bs (Some (FS_SIZE s, BLOCK_SIZE s))
      (s\<lparr>locks_index := l, blk_mutex_list := b\<rparr>) = Inr ?s'"
    by (rule storage_init_restart[OF assms(1,2) refl assms(3,4)])
  moreover have "get_lock_of f t ?s' = None" for f t
    by (rule restart_state(4)[OF assms(1)])
  ultimately show ?thesis
    using restart_state(1-3)[OF assms(1), of "md5 (zero_block s)"] by (simp add: storage_wait_def)
qed

theorem restart_keeps_contents_witness:
  "\<exists>s'. storage_init demo_md5 ''FALSE'' 0 0 (Some (FS_SIZE demo_fs, BLOCK_SIZE demo_fs))
          (demo_fs\<lparr>locks_index := [], blk_mutex_list := []\<rparr>) = Inr s' \<and>
        abs_fs s' = abs_fs demo_fs \<and> storage_wait ''a'' ''1'' s' = Inr s'"
proof -
  have "\<not> string_equals_ignore_case ''FALSE'' ''TRUE''"
    by (simp add: string_equals_ignore_case_def)
  moreover have "''files'' \<notin> file_dirs demo_fs" "''physical_blocks'' \<notin> file_dirs demo_fs"
    by (simp_all add: demo_fs_def)
  ultimately show ?thesis
    using restart_keeps_contents[OF demo_wf, of "''FALSE''" demo_md5 0 0 "[]" "[]"] by blast
qed

section \<open>Packets\<close>

lemma rta_bytes_inj: "int_bytes (rta_val a) = int_bytes (rta_val b) \<longleftrightarrow> a = b"
  by (metis bytes_int_int_bytes option.inject rta_roundtrip)

text \<open>
  The page a worker sends when it evicts or flushes it is the page it gets back when it asks
  for it again: the answer to \<open>SOLICITUD_STORAGE\<close> after a \<open>MODIFICACIONES_STORAGE\<close> answered with
  success carries exactly the bytes sent.
\<close>

lemma flushed_page_read_back:
  assumes "fs_wf s" and "alloc_safe s" and "int (length page) = BLOCK_SIZE s"
    and "\<exists>b. \<not> block_used s b \<and> 0 < b \<and> b < num_blocks s"
    and "no_nul f" and "no_nul t"
    and "storage_worker_handler md5 MODIFICACIONES_STORAGE
           [cstr f, cstr t, int_bytes n, page, cstr q] True s =
         Inr (Some (Crudo (int_bytes (rta_val OP_EXITOSA))), True, s')"
  shows "storage_worker_handler md5 SOLICITUD_STORAGE [cstr f, cstr t, int_bytes n, cstr q'] True s' =
         Inr (Some (Paquete PAGINA_WORKER [int_bytes (rta_val OP_EXITOSA), page]), True, s')"
proof -
  have "storage_write f t (sint n) page s = Inr (OP_EXITOSA, s')"
    using assms(5-7)
    by (cases "storage_write f t (sint n) page s")
      (auto simp: storage_worker_handler_def responder_rta_def rta_bytes_inj numeral_2_eq_2 numeral_3_eq_3)
  from write_then_read[OF assms(1,2) _ assms(4) this] assms(3)
  have "storage_read f t (sint n) s' = Inr ((OP_EXITOSA, Some page), s')" by simp
  then show ?thesis
    using assms(5,6) by (simp add: storage_worker_handler_def numeral_2_eq_2)
qed

lemma demo_modificacion:
  "(case storage_worker_handler demo_md5 MODIFICACIONES_STORAGE
          [cstr ''a'', cstr ''1'', int_bytes 1, [67, 68], cstr ''7''] True demo_fs of
      Inl e \<Rightarrow> False | Inr (r, k, s) \<Rightarrow> r = Some (Crudo (int_bytes (rta_val OP_EXITOSA))) \<and> k)"
  by code_simp

end
