(* ===== verification/Storage_Frame.thy ===== *)
theory Storage_Frame
  imports Storage_Theorems
begin

text \<open>
  What WRITE leaves alone: the sizes of the disk, of its blocks and of the bitmap; and what it
  does on any well-formed disk whose bitmap has no padding, free block or not: when it returns
  it acts as the abstract write does.
\<close>

section \<open>What WRITE leaves alone\<close>

definition mismo_disco :: "storage \<Rightarrow> storage \<Rightarrow> bool" where
  "mismo_disco s s' \<longleftrightarrow>
     BLOCK_SIZE s' = BLOCK_SIZE s \<and> FS_SIZE s' = FS_SIZE s \<and> length (bitmap s') = length (bitmap s)"

lemma mismo_disco_refl [simp]: "mismo_disco s s"
  by (simp add: mismo_disco_def)

lemma mismo_disco_trans: "mismo_disco s1 s2 \<Longrightarrow> mismo_disco s2 s3 \<Longrightarrow> mismo_disco s1 s3"
  by (simp add: mismo_disco_def)

lemma disco_signal [simp]: "mismo_disco s (storage_signal f t s') = mismo_disco s s'"
  by (auto simp: storage_signal_def mismo_disco_def set_lock_def destroy_lock_def Let_def split: option.splits)

lemma disco_post [simp]: "mismo_disco s (blk_post p s') = mismo_disco s s'"
  by (simp add: blk_post_def mismo_disco_def)

lemma disco_unlink [simp]: "mismo_disco s (unlink_block k s') = mismo_disco s s'"
  by (simp add: unlink_block_def mismo_disco_def)

lemma disco_metadata [simp]: "mismo_disco s (storage_metadata_write f t m s') = mismo_disco s s'"
  by (simp add: mismo_disco_def)

lemma disco_link: "link_block p k s = (r, s') \<Longrightarrow> mismo_disco s s'"
  by (auto simp: link_block_def mismo_disco_def split: prod.split_asm option.split_asm if_split_asm)

lemma disco_free: "find_free_block s = (p, s') \<Longrightarrow> mismo_disco s s'"
  by (cases "p = - 1") (auto simp: mismo_disco_def find_free_block_None find_free_block_Some)

lemma disco_pasos:
  "okE (mismo_disco s) (storage_wait f t s)" "okE (mismo_disco s) (blk_wait p s)"
  "okE (mismo_disco s) (write_physical p buf s)"
  by (auto simp: storage_wait_def set_lock_def blk_wait_def write_physical_def mismo_disco_def Let_def
      intro!: okE_I split: option.split_asm if_split_asm)

lemma disco_copy: "okE (\<lambda>(q, s'). mismo_disco s s') (write_copy f t l p m s)"
proof -
  obtain q s1 where a: "find_free_block s = (q, s1)" by force
  let ?s2 = "storage_metadata_write f t (m\<lparr>blocks := (blocks m)[nat l := itoa q]\<rparr>)
      (blk_post p (unlink_block (f, t, nat l) s1))"
  have "mismo_disco s ?s2" using disco_free[OF a] by simp
  then have "okE (\<lambda>s3. mismo_disco s s3) (blk_wait q ?s2)"
    by (intro okE_mono[OF disco_pasos(2)]) (rule mismo_disco_trans)
  then show ?thesis
    unfolding write_copy_def a Let_def
    by (auto elim!: okE_mono dest!: disco_link intro: mismo_disco_trans split: prod.split)
qed

lemma disco_write: "okE (\<lambda>(r, s'). mismo_disco s s') (storage_write f t l buf s)"
proof -
  have w: "okE P (write_physical p buf s2)" if "mismo_disco s s2" "\<And>s3. mismo_disco s s3 \<Longrightarrow> P s3" for P p s2
    using that disco_pasos(3) by (blast intro: okE_mono mismo_disco_trans)
  have b: "okE P (blk_wait p s2)" if "mismo_disco s s2" "\<And>s3. mismo_disco s s3 \<Longrightarrow> P s3" for P p s2
    using that disco_pasos(2) by (blast intro: okE_mono mismo_disco_trans)
  have c: "okE P (write_copy f t l p m s2)"
    if "mismo_disco s s2" "\<And>q s3. mismo_disco s s3 \<Longrightarrow> P (q, s3)" for P p m s2
    using that by (auto intro!: okE_mono[OF disco_copy] intro: mismo_disco_trans)
  have tail: "okE (\<lambda>(r, s'). mismo_disco s s')
      (bindE (block_at m l) (\<lambda>p. bindE (blk_wait p s1) (\<lambda>s. bindE (stat_nlink p s) (\<lambda>n.
         bindE (if p = 0 \<or> 2 < n then write_copy f t l p m s else Inr (p, s)) (\<lambda>(p, s).
         bindE (write_physical p buf s) (\<lambda>s. Inr (OP_EXITOSA, storage_signal f t (blk_post p s))))))))"
    if "mismo_disco s s1" for m s1
    unfolding okE_bindE
    by (rule okE_pure, rule b[OF that], rule okE_pure) (auto intro!: w c)
  show ?thesis
    unfolding storage_write_def okE_bindE
    by (rule okE_mono[OF disco_pasos(1)]) (auto intro!: tail simp del: okE_bindE split: option.split)
qed

text \<open>Every block above 0 is taken, or one can be had.\<close>

lemma room_or_full:
  assumes "int (length (bitmap s)) = num_blocks s"
  shows "(\<exists>b. \<not> block_used s b \<and> 0 < b \<and> b < num_blocks s) \<or>
         (\<forall>i. 1 \<le> i \<and> i < length (bitmap s) \<longrightarrow> bitmap s ! i)"
proof (rule disjCI)
  assume n: "\<not> (\<forall>i. 1 \<le> i \<and> i < length (bitmap s) \<longrightarrow> bitmap s ! i)"
  then obtain i where "1 \<le> i" "i < length (bitmap s)" "\<not> bitmap s ! i" by blast
  then show "\<exists>b. \<not> block_used s b \<and> 0 < b \<and> b < num_blocks s"
    using assms by (intro exI[of _ "int i"]) (simp add: block_used_def)
qed

lemma write_any:
  assumes wf: "fs_wf s" and safe: "alloc_safe s" and buf: "BLOCK_SIZE s \<le> int (length buf)"
    and pad: "int (length (bitmap s)) = num_blocks s"
    and w: "storage_write f t l buf s = Inr (r, s')"
  shows "fs_wf s' \<and> alloc_safe s' \<and> (r, abs_fs s') = spec_write (BLOCK_SIZE s) (f, t) l buf (abs_fs s)"
proof (cases "\<exists>b. \<not> block_used s b \<and> 0 < b \<and> b < num_blocks s")
  case True
  then show ?thesis using storage_write_ok[OF wf safe buf, of _ f t l] w by force
next
  case False
  then have full: "\<forall>i. 1 \<le> i \<and> i < length (bitmap s) \<longrightarrow> bitmap s ! i" using room_or_full[OF pad] by blast
  consider (none) "metas s (f, t) = None"
    | (com) m where "metas s (f, t) = Some m" "is_commited m"
    | (out) m where "metas s (f, t) = Some m" "\<not> is_commited m" "l < 0 \<or> int (length (blocks m)) \<le> l"
    | (wr) m i where "metas s (f, t) = Some m" "\<not> is_commited m" "l = int i" "i < length (blocks m)"
    by (metis not_le option.exhaust nonneg_int_cases of_nat_less_iff)
  then show ?thesis
  proof cases
    case none
    then show ?thesis using write_absent[OF wf none] w wf safe by (simp add: spec_write_def abs_fs_absent)
  next
    case com
    then show ?thesis using write_commited[OF wf com] w wf safe by (simp add: spec_write_def abs_fs_Some)
  next
    case out
    then show ?thesis using write_out_of_range[OF wf out] w wf safe by (auto simp: spec_write_def abs_fs_Some)
  next
    case wr
    have "\<not> (atoi (blocks m ! i) = 0 \<or> 2 \<le> occurs (logical_blocks s) (atoi (blocks m ! i)))"
      using write_no_space[OF wf wr(1,2,4) _ full, of buf] w wr(3) by auto
    then have "atoi (blocks m ! i) \<noteq> 0" "occurs (logical_blocks s) (atoi (blocks m ! i)) \<le> 1" by auto
    from write_in_place[OF wf wr(1,2,4) buf this] w wr(3) safe
    show ?thesis using wr by (auto simp: spec_write_def abs_fs_Some)
  qed
qed

end
