(* ===== verification/Worker_State.thy ===== *)
theory Worker_State
  imports Paquetes
begin

text \<open>
  The state of the worker module: the globals of \<open>worker_globals.h\<close>. \<open>nodo_pagina\<close> and
  \<open>file_tag\<close> objects are reached through several pointers (a page from its table and from
  the frame that holds it, a file tag from the list and, by its identifier, from frames), so
  they live in two heaps and are named by references; a freed object is out of its heap.
  \<open>memoria\<close> is the byte array the frames cut into pieces of \<open>tam_pagina\<close> bytes. What the
  worker exchanges with the storage and the master, the clock and the string functions of
  so-commons are a parameter \<open>ext\<close> over an environment \<open>'e\<close>; a message is an operation code
  and its items, whose bytes \<open>Paquetes\<close> models, and \<open>None\<close> is a peer that closed; \<open>script\<close> gives
  the contents of the query files and \<open>consultar_interrupcion\<close> the master's answer to
  \<open>CONSULTA_INTERRUPCION\<close>.
\<close>

record nodo_pagina =
  nro_pagina :: int
  nro_marco :: int
  modificado :: bool
  uso :: bool
  presencia :: bool

record file_tag =
  identificador :: string
  cantidad_paginas :: int
  tabla_paginas :: "nat list"

record nodo_marco =
  m_identificador :: "nat option"
  m_pagina :: "nat option"
  m_time :: int

record 'e worker =
  ALGORITMO_REEMPLAZO :: string
  TAM_MEMORIA :: int
  tam_pagina :: int
  cantidad_marcos :: nat
  query_id :: string
  memoria :: "byte list"
  bit_map :: "bool list"
  marco :: "nodo_marco list"
  file_tag_pages :: "nat list"
  victima_clock :: "nat option"
  paginas :: "nat \<rightharpoonup> nodo_pagina"
  file_tags :: "nat \<rightharpoonup> file_tag"
  next_ref :: nat
  entorno :: 'e

type_synonym mensaje = "op_code \<times> byte list list"

record 'e externos =
  string_split :: "string \<Rightarrow> string \<Rightarrow> string list"
  storage_paquete :: "mensaje \<Rightarrow> 'e \<Rightarrow> mensaje option \<times> 'e"
  storage_rta :: "mensaje \<Rightarrow> 'e \<Rightarrow> rta_storage option \<times> 'e"
  master_rta :: "mensaje \<Rightarrow> 'e \<Rightarrow> resultado_t option \<times> 'e"
  master_envio :: "mensaje \<Rightarrow> 'e \<Rightarrow> 'e"
  gettime :: "'e \<Rightarrow> int \<times> 'e"
  script :: "string \<Rightarrow> string option"
  recibir_query :: "'e \<Rightarrow> mensaje option \<times> 'e"
  consultar_interrupcion :: "int32 \<Rightarrow> 'e \<Rightarrow> bool option \<times> 'e"
  storage_handshake :: "mensaje \<Rightarrow> 'e \<Rightarrow> int32 option \<times> 'e"
  master_handshake :: "mensaje \<Rightarrow> 'e \<Rightarrow> 'e"

section \<open>Updates through a pointer\<close>

definition set_pagina :: "nat \<Rightarrow> (nodo_pagina \<Rightarrow> nodo_pagina) \<Rightarrow> 'e worker \<Rightarrow> fault + 'e worker" where
  "set_pagina p f w =
     bindE (deref (paginas w) p) (\<lambda>pg. Inr (w\<lparr>paginas := (paginas w)(p \<mapsto> f pg)\<rparr>))"

definition set_file_tag :: "nat \<Rightarrow> (file_tag \<Rightarrow> file_tag) \<Rightarrow> 'e worker \<Rightarrow> fault + 'e worker" where
  "set_file_tag r f w =
     bindE (deref (file_tags w) r) (\<lambda>ft. Inr (w\<lparr>file_tags := (file_tags w)(r \<mapsto> f ft)\<rparr>))"

section \<open>The byte array and the bitmap\<close>

definition mem_put :: "int \<Rightarrow> byte list \<Rightarrow> 'e worker \<Rightarrow> fault + 'e worker" where
  "mem_put off bs w =
     (if off < 0 \<or> int (length (memoria w)) < off + int (length bs) then Inl OutOfBounds
      else Inr (w\<lparr>memoria := take (nat off) (memoria w) @ bs
                             @ drop (nat off + length bs) (memoria w)\<rparr>))"

definition mem_get :: "int \<Rightarrow> int \<Rightarrow> 'e worker \<Rightarrow> fault + byte list" where
  "mem_get off n w =
     (if off < 0 \<or> n < 0 \<or> int (length (memoria w)) < off + n then Inl OutOfBounds
      else Inr (take (nat n) (drop (nat off) (memoria w))))"

definition bit_clean :: "int \<Rightarrow> 'e worker \<Rightarrow> fault + 'e worker" where
  "bit_clean i w =
     (if i < 0 \<or> int (length (bit_map w)) \<le> i then Inl OutOfBounds
      else Inr (w\<lparr>bit_map := (bit_map w)[nat i := False]\<rparr>))"

definition bit_set :: "int \<Rightarrow> 'e worker \<Rightarrow> fault + 'e worker" where
  "bit_set i w =
     (if i < 0 \<or> int (length (bit_map w)) \<le> i then Inl OutOfBounds
      else Inr (w\<lparr>bit_map := (bit_map w)[nat i := True]\<rparr>))"

text \<open>The byte array as a store: a read after a write sees the bytes written, elsewhere the old ones.\<close>

lemma mem_get_put:
  assumes "mem_put off bs w = Inr w'"
  shows "mem_get off (int (length bs)) w' = Inr bs"
    and "off' + n \<le> off \<or> off + int (length bs) \<le> off' \<Longrightarrow> mem_get off' n w' = mem_get off' n w"
proof -
  from assms have o: "0 \<le> off" "off + int (length bs) \<le> int (length (memoria w))"
    and w': "w' = w\<lparr>memoria := take (nat off) (memoria w) @ bs @ drop (nat off + length bs) (memoria w)\<rparr>"
    by (auto simp: mem_put_def split: if_splits)
  from o have l: "nat off + length bs \<le> length (memoria w)" by simp
  show "mem_get off (int (length bs)) w' = Inr bs"
    using o l by (simp add: mem_get_def w')
  assume d: "off' + n \<le> off \<or> off + int (length bs) \<le> off'"
  have len: "length (memoria w') = length (memoria w)" using l by (simp add: w')
  show "mem_get off' n w' = mem_get off' n w"
  proof (cases "off' < 0 \<or> n < 0 \<or> int (length (memoria w)) < off' + n")
    case True
    then show ?thesis using len by (simp add: mem_get_def)
  next
    case False
    have "take (nat n) (drop (nat off') (memoria w')) = take (nat n) (drop (nat off') (memoria w))"
      using d
    proof
      assume "off' + n \<le> off"
      then have "nat off' + nat n \<le> nat off" using False o(1) by arith
      then show ?thesis
        using l by (intro nth_equalityI) (auto simp: w' nth_append)
    next
      assume "off + int (length bs) \<le> off'"
      then have "nat off + length bs \<le> nat off'" using o(1) by arith
      then have "drop (nat off') (memoria w') = drop (nat off') (memoria w)"
        using l by (simp add: w')
      then show ?thesis by simp
    qed
    then show ?thesis using False len by (simp add: mem_get_def)
  qed
qed

lemma mem_put_only:
  "mem_put off bs w = Inr w' \<Longrightarrow> \<exists>m. w' = w\<lparr>memoria := m\<rparr> \<and> length m = length (memoria w)"
  by (auto simp: mem_put_def split: if_splits)

end
