(* ===== verification/Worker_Reemplazo.thy ===== *)
theory Worker_Reemplazo
  imports Worker_State
begin

text \<open>
  Finding a File:Tag's page table, sending a modified page to the storage, and the two
  replacement algorithms (\<open>worker/src/algoritmos_reemplazo.c\<close> and the part of
  \<open>worker/src/memoria.c\<close> they call). \<open>victima_clock\<close> is the index of the frame the pointer
  stands at. CLOCK-M's outer loop takes a number of rounds; \<open>Blocked\<close> is running out of them.
\<close>

section \<open>Messages\<close>

text \<open>\<open>string_split(ft, ":")\<close> and its first two parts, each sent with its NUL.\<close>

definition agregar_file_tag :: "'e externos \<Rightarrow> string \<Rightarrow> fault + byte list list" where
  "agregar_file_tag ext ft =
     (case string_split ext ft '':'' of
        f # t # _ \<Rightarrow> Inr [cstr f, cstr t]
      | _ \<Rightarrow> Inl NullDeref)"

definition en_entorno :: "('e \<Rightarrow> 'a \<times> 'e) \<Rightarrow> 'e worker \<Rightarrow> 'a \<times> 'e worker" where
  "en_entorno f w = (case f (entorno w) of (x, e) \<Rightarrow> (x, w\<lparr>entorno := e\<rparr>))"

definition solicitar_metadata :: "'e externos \<Rightarrow> string \<Rightarrow> 'e worker \<Rightarrow> fault + (int \<times> 'e worker)" where
  "solicitar_metadata ext ident w =
     bindE (agregar_file_tag ext ident) (\<lambda>items.
       case en_entorno (storage_paquete ext (INFO_FILE_TAG_STORAGE, items)) w of
         (None, w) \<Rightarrow> Inl ExitFailure
       | (Some (codigo, rsp), w) \<Rightarrow>
           if codigo \<noteq> INFO_FILE_TAG_WORKER then Inl ExitFailure
           else
             (case rsp of
                [] \<Rightarrow> Inl NullDeref
              | b # _ \<Rightarrow>
                  let size_ft = sint (bytes_int b)
                  in if size_ft = - 1 then Inl ExitFailure else Inr (size_ft, w)))"

definition notif_query_error :: "'e externos \<Rightarrow> rta_storage \<Rightarrow> 'e worker \<Rightarrow> 'e worker" where
  "notif_query_error ext c_error w =
     w\<lparr>entorno := master_envio ext (ERROR_AT_EXEC, [int_bytes (rta_val c_error)]) (entorno w)\<rparr>"

section \<open>Page tables\<close>

definition generar_nodo_pagina :: "int \<Rightarrow> 'e worker \<Rightarrow> nat \<times> 'e worker" where
  "generar_nodo_pagina nro w =
     (next_ref w,
      w\<lparr>paginas := (paginas w)(next_ref w \<mapsto>
          \<lparr>nro_pagina = nro, nro_marco = - 1, modificado = False, uso = False, presencia = False\<rparr>),
        next_ref := Suc (next_ref w)\<rparr>)"

text \<open>\<open>list_add\<close> of a new page for every number of the list.\<close>

fun generar_paginas :: "nat list \<Rightarrow> 'e worker \<Rightarrow> nat list \<times> 'e worker" where
  "generar_paginas [] w = ([], w)"
| "generar_paginas (i # is) w =
     (let (p, w) = generar_nodo_pagina (int i) w; (ps, w) = generar_paginas is w in (p # ps, w))"

definition agregar_file_tag_en_memoria ::
    "'e externos \<Rightarrow> string \<Rightarrow> 'e worker \<Rightarrow> fault + (nat \<times> 'e worker)" where
  "agregar_file_tag_en_memoria ext ident w =
     bindE (solicitar_metadata ext ident w) (\<lambda>(size_ft, w).
       if tam_pagina w = 0 then Inl DivByZero
       else
         let cant = c_div size_ft (tam_pagina w);
             (tabla, w) = generar_paginas [0..<nat cant] w;
             r = next_ref w
         in Inr (r, w\<lparr>file_tags := (file_tags w)(r \<mapsto>
                        \<lparr>identificador = ident, cantidad_paginas = cant, tabla_paginas = tabla\<rparr>),
                      next_ref := Suc r,
                      file_tag_pages := file_tag_pages w @ [r]\<rparr>))"

text \<open>The search loop: the first entry whose identifier matches, ignoring case.\<close>

fun buscar_file_tag :: "string \<Rightarrow> nat list \<Rightarrow> 'e worker \<Rightarrow> fault + nat option" where
  "buscar_file_tag ident [] w = Inr None"
| "buscar_file_tag ident (r # rs) w =
     bindE (deref (file_tags w) r) (\<lambda>ft.
       if string_equals_ignore_case (identificador ft) ident then Inr (Some r)
       else buscar_file_tag ident rs w)"

definition file_tag_en_memoria ::
    "'e externos \<Rightarrow> string \<Rightarrow> 'e worker \<Rightarrow> fault + (nat \<times> 'e worker)" where
  "file_tag_en_memoria ext ident w =
     bindE (buscar_file_tag ident (file_tag_pages w) w) (\<lambda>r.
       case r of
         Some r \<Rightarrow> Inr (r, w)
       | None \<Rightarrow> agregar_file_tag_en_memoria ext ident w)"

definition free_pagina :: "nat \<Rightarrow> 'e worker \<Rightarrow> fault + 'e worker" where
  "free_pagina p w =
     (if paginas w p = None then Inl DoubleFree else Inr (w\<lparr>paginas := (paginas w)(p := None)\<rparr>))"

definition free_file_tag :: "nat \<Rightarrow> 'e worker \<Rightarrow> fault + 'e worker" where
  "free_file_tag r w =
     bindE (deref (file_tags w) r) (\<lambda>ft.
     bindE (buscar_file_tag (identificador ft) (file_tag_pages w) w) (\<lambda>a.
       let w = (case a of None \<Rightarrow> w | Some a \<Rightarrow> w\<lparr>file_tag_pages := remove1 a (file_tag_pages w)\<rparr>)
       in bindE (foldE free_pagina (tabla_paginas ft) w) (\<lambda>w.
            Inr (w\<lparr>file_tags := (file_tags w)(r := None)\<rparr>))))"

section \<open>Eviction\<close>

text \<open>The contents of the frame at \<open>p_marco\<close> go to the storage with the page's number.\<close>

definition notificar_cambios ::
    "'e externos \<Rightarrow> nat \<Rightarrow> string \<Rightarrow> int \<Rightarrow> 'e worker \<Rightarrow> fault + 'e worker" where
  "notificar_cambios ext victima ident p_marco w =
     bindE (deref (paginas w) victima) (\<lambda>pg.
     bindE (agregar_file_tag ext ident) (\<lambda>items.
     bindE (mem_get p_marco (tam_pagina w) w) (\<lambda>contenido.
       case en_entorno (storage_rta ext (MODIFICACIONES_STORAGE,
              items @ [int_bytes (word_of_int (nro_pagina pg)), contenido, cstr (query_id w)])) w of
         (None, w) \<Rightarrow> Inl ExitFailure
       | (Some result, w) \<Rightarrow>
           Inr (if result \<noteq> OP_EXITOSA then notif_query_error ext result w else w))))"

definition actualizar_pagina :: "nat \<Rightarrow> 'e worker \<Rightarrow> fault + (int \<times> 'e worker)" where
  "actualizar_pagina p w =
     bindE (deref (paginas w) p) (\<lambda>pg.
     bindE (bit_clean (nro_marco pg) w) (\<lambda>w.
     bindE (set_pagina p (\<lambda>pg. pg\<lparr>presencia := False, modificado := False\<rparr>) w) (\<lambda>w.
       Inr (nro_marco pg, w))))"

definition check_file_tag ::
    "'e externos \<Rightarrow> string \<Rightarrow> string \<Rightarrow> 'e worker \<Rightarrow> fault + 'e worker" where
  "check_file_tag ext id_actual id_nuevo w =
     bindE (file_tag_en_memoria ext id_actual w) (\<lambda>(r, w).
     bindE (set_file_tag r (\<lambda>ft. ft\<lparr>cantidad_paginas := cantidad_paginas ft - 1\<rparr>) w) (\<lambda>w.
     bindE (deref (file_tags w) r) (\<lambda>ft.
       if cantidad_paginas ft = 0 \<and> \<not> string_equals_ignore_case id_actual id_nuevo
       then free_file_tag r w else Inr w)))"

text \<open>The identifier a frame points to, which lives in its file tag.\<close>

definition ident_marco :: "nodo_marco \<Rightarrow> 'e worker \<Rightarrow> fault + string" where
  "ident_marco nm w =
     bindE (puntero (m_identificador nm)) (\<lambda>r.
     bindE (deref (file_tags w) r) (\<lambda>ft. Inr (identificador ft)))"

definition p_marco :: "nat \<Rightarrow> 'e worker \<Rightarrow> int" where
  "p_marco i w = int i * tam_pagina w"

section \<open>LRU\<close>

definition lru_victima :: "nodo_marco list \<Rightarrow> nat \<Rightarrow> nat" where
  "lru_victima ms n =
     foldl (\<lambda>v i. if m_time (ms ! i) < m_time (ms ! v) then i else v) 0 [1..<n]"

definition algoritmo_LRU :: "'e externos \<Rightarrow> string \<Rightarrow> 'e worker \<Rightarrow> fault + (int \<times> 'e worker)" where
  "algoritmo_LRU ext id_nueva w =
     (if marco w = [] then Inl NullDeref
      else
        let i = lru_victima (marco w) (cantidad_marcos w); nm = marco w ! i
        in bindE (puntero (m_pagina nm)) (\<lambda>p.
           bindE (deref (paginas w) p) (\<lambda>pg.
           bindE (ident_marco nm w) (\<lambda>ident.
           bindE (if modificado pg then notificar_cambios ext p ident (p_marco i w) w else Inr w) (\<lambda>w.
           bindE (actualizar_pagina p w) (\<lambda>(nro, w).
           bindE (check_file_tag ext ident id_nueva w) (\<lambda>w.
             Inr (nro, w))))))))"

section \<open>CLOCK-M\<close>

definition mover_puntero_clock :: "int \<Rightarrow> 'e worker \<Rightarrow> fault + 'e worker" where
  "mover_puntero_clock nro w =
     (let nro = (if nro = int (cantidad_marcos w) then 0 else nro)
      in bindE (list_get (marco w) nro) (\<lambda>nm. Inr (w\<lparr>victima_clock := Some (nat nro)\<rparr>)))"

text \<open>The page of the frame at the pointer.\<close>

definition pagina_clock :: "'e worker \<Rightarrow> fault + (nat \<times> nodo_pagina)" where
  "pagina_clock w =
     bindE (puntero (victima_clock w)) (\<lambda>i.
     bindE (list_get (marco w) (int i)) (\<lambda>nm.
     bindE (puntero (m_pagina nm)) (\<lambda>p.
     bindE (deref (paginas w) p) (\<lambda>pg. Inr (p, pg)))))"

fun clock_pasada_1 :: "nat \<Rightarrow> 'e worker \<Rightarrow> fault + (bool \<times> 'e worker)" where
  "clock_pasada_1 0 w = Inr (False, w)"
| "clock_pasada_1 (Suc k) w =
     bindE (pagina_clock w) (\<lambda>(p, pg).
       if \<not> uso pg \<and> \<not> modificado pg then Inr (True, w)
       else bindE (mover_puntero_clock (nro_marco pg + 1) w) (clock_pasada_1 k))"

fun clock_pasada_2 :: "nat \<Rightarrow> 'e worker \<Rightarrow> fault + (bool \<times> 'e worker)" where
  "clock_pasada_2 0 w = Inr (False, w)"
| "clock_pasada_2 (Suc k) w =
     bindE (pagina_clock w) (\<lambda>(p, pg).
       if \<not> uso pg \<and> modificado pg then Inr (True, w)
       else
         bindE (set_pagina p (\<lambda>pg. pg\<lparr>uso := False\<rparr>) w) (\<lambda>w.
         bindE (mover_puntero_clock (nro_marco pg + 1) w) (clock_pasada_2 k)))"

fun clock_buscar :: "nat \<Rightarrow> 'e worker \<Rightarrow> fault + 'e worker" where
  "clock_buscar 0 w = Inl Blocked"
| "clock_buscar (Suc vueltas) w =
     bindE (clock_pasada_1 (cantidad_marcos w) w) (\<lambda>(find, w).
       if find then Inr w
       else
         bindE (clock_pasada_2 (cantidad_marcos w) w) (\<lambda>(find, w).
           if find then Inr w else clock_buscar vueltas w))"

definition algoritmo_CLOCK_M ::
    "nat \<Rightarrow> 'e externos \<Rightarrow> string \<Rightarrow> 'e worker \<Rightarrow> fault + (int \<times> 'e worker)" where
  "algoritmo_CLOCK_M vueltas ext id_nueva w =
     bindE (clock_buscar vueltas w) (\<lambda>w.
     bindE (puntero (victima_clock w)) (\<lambda>i.
     bindE (list_get (marco w) (int i)) (\<lambda>nm.
     bindE (puntero (m_pagina nm)) (\<lambda>p.
     bindE (deref (paginas w) p) (\<lambda>pg.
     bindE (ident_marco nm w) (\<lambda>ident.
     bindE (if modificado pg then notificar_cambios ext p ident (p_marco i w) w else Inr w) (\<lambda>w.
     bindE (actualizar_pagina p w) (\<lambda>(nro, w).
     bindE (set_pagina p (\<lambda>pg. pg\<lparr>uso := False\<rparr>) w) (\<lambda>w.
     bindE (check_file_tag ext ident id_nueva w) (\<lambda>w.
     bindE (mover_puntero_clock (nro + 1) w) (\<lambda>w.
       Inr (nro, w))))))))))))"

end
