(* ===== verification/Worker_Memoria.thy ===== *)
theory Worker_Memoria
  imports Worker_Reemplazo
begin

text \<open>
  The internal memory of the worker (\<open>worker/src/memoria.c\<close>): choosing a frame and loading
  a page, the access path \<open>pagina_en_Tabla\<close>, reading and writing across pages, and bringing
  a page table in line with the file's size in the storage. The buffer \<open>leer_pagina\<close> sends
  is a list of optional bytes until it is complete: \<open>None\<close> is memory \<open>malloc\<close> never set.
\<close>

section \<open>Start\<close>

text \<open>
  \<open>init_memoria\<close> on the state whose configuration is read: the frames, the bitmap with every
  bit clear, and for CLOCK-M the pointer at the first frame.
\<close>

definition init_memoria :: "'e worker \<Rightarrow> fault + 'e worker" where
  "init_memoria w =
     (if tam_pagina w = 0 then Inl DivByZero
      else
        let n = nat (c_div (TAM_MEMORIA w) (tam_pagina w));
            bytes_bit_map = (n + 7) div 8;
            w = w\<lparr>cantidad_marcos := n,
                  memoria := replicate (nat (TAM_MEMORIA w)) 0,
                  marco := marco w @ replicate n \<lparr>m_identificador = None, m_pagina = None, m_time = 0\<rparr>,
                  bit_map := replicate (bytes_bit_map * 8) False\<rparr>
        in if string_equals_ignore_case (ALGORITMO_REEMPLAZO w) ''CLOCK-M''
           then (if marco w = [] then Inr w else Inr (w\<lparr>victima_clock := Some 0\<rparr>))
           else Inr w)"

section \<open>Frames\<close>

definition marco_libre :: "'e worker \<Rightarrow> int" where
  "marco_libre w =
     (case find (\<lambda>i. \<not> bit_map w ! i) [0..<cantidad_marcos w] of None \<Rightarrow> - 1 | Some i \<Rightarrow> int i)"

text \<open>The function pointer \<open>algoritmo_reemplazo\<close>, which the worker's \<open>init\<close> sets by name.\<close>

definition algoritmo_reemplazo ::
    "nat \<Rightarrow> 'e externos \<Rightarrow> string \<Rightarrow> 'e worker \<Rightarrow> fault + (int \<times> 'e worker)" where
  "algoritmo_reemplazo vueltas ext id_nueva w =
     (if string_equals_ignore_case (ALGORITMO_REEMPLAZO w) ''LRU'' then algoritmo_LRU ext id_nueva w
      else if string_equals_ignore_case (ALGORITMO_REEMPLAZO w) ''CLOCK-M''
      then algoritmo_CLOCK_M vueltas ext id_nueva w
      else Inl NullDeref)"

text \<open>The time stamp LRU takes at every access to a frame.\<close>

definition sellar_marco :: "'e externos \<Rightarrow> nat \<Rightarrow> 'e worker \<Rightarrow> 'e worker" where
  "sellar_marco ext i w =
     (if string_equals_ignore_case (ALGORITMO_REEMPLAZO w) ''LRU''
      then case en_entorno (gettime ext) w of
             (t, w) \<Rightarrow> w\<lparr>marco := (marco w)[i := (marco w ! i)\<lparr>m_time := t\<rparr>]\<rparr>
      else w)"

definition interaccion_escribir ::
    "'e externos \<Rightarrow> int \<Rightarrow> byte list \<Rightarrow> nat \<Rightarrow> 'e worker \<Rightarrow> fault + 'e worker" where
  "interaccion_escribir ext dest src i w =
     bindE (mem_put dest src w) (\<lambda>w. Inr (sellar_marco ext i w))"

definition interaccion_leer ::
    "'e externos \<Rightarrow> int \<Rightarrow> int \<Rightarrow> nat \<Rightarrow> 'e worker \<Rightarrow> fault + (byte list \<times> 'e worker)" where
  "interaccion_leer ext src n i w =
     bindE (mem_get src n w) (\<lambda>bs. Inr (bs, sellar_marco ext i w))"

section \<open>Loading a page\<close>

text \<open>The frame for a page: the first free one, or the one its replacement gives up.\<close>

definition asignar_marco ::
    "nat \<Rightarrow> 'e externos \<Rightarrow> string \<Rightarrow> 'e worker \<Rightarrow> fault + (int \<times> 'e worker)" where
  "asignar_marco vueltas ext ident w =
     (let indice = marco_libre w
      in if indice = - 1 then algoritmo_reemplazo vueltas ext ident w else Inr (indice, w))"

text \<open>
  The end of \<open>solicitar_pagina\<close>, once the frame is chosen: the page takes it, with the bytes
  the storage sent.
\<close>

definition cargar :: "nat \<Rightarrow> int \<Rightarrow> int \<Rightarrow> byte list list \<Rightarrow> 'e worker \<Rightarrow> fault + (nat \<times> 'e worker)" where
  "cargar r nro indice datos w =
     bindE (bit_set indice w) (\<lambda>w.
     bindE (deref (file_tags w) r) (\<lambda>ft.
     bindE (list_get (tabla_paginas ft) nro) (\<lambda>p.
     bindE (set_pagina p (\<lambda>pg. pg\<lparr>nro_marco := indice, presencia := True\<rparr>) w) (\<lambda>w.
       case datos of
         [] \<Rightarrow> Inl NullDeref
       | contenido # _ \<Rightarrow>
           bindE (list_get (marco w) indice) (\<lambda>nm.
           bindE (mem_put (indice * tam_pagina w) contenido w) (\<lambda>w.
           let w = w\<lparr>marco := (marco w)[nat indice :=
                      nm\<lparr>m_identificador := Some r, m_pagina := Some p\<rparr>]\<rparr>
           in bindE (set_file_tag r
                 (\<lambda>ft. ft\<lparr>cantidad_paginas := cantidad_paginas ft + 1\<rparr>) w) (\<lambda>w.
              Inr (p, w))))))))"

definition solicitar_pagina ::
    "nat \<Rightarrow> 'e externos \<Rightarrow> string \<Rightarrow> int \<Rightarrow> 'e worker \<Rightarrow> fault + (nat \<times> 'e worker)" where
  "solicitar_pagina vueltas ext ident nro w =
     bindE (file_tag_en_memoria ext ident w) (\<lambda>(r, w).
     bindE (agregar_file_tag ext ident) (\<lambda>items.
       case en_entorno (storage_paquete ext (SOLICITUD_STORAGE,
              items @ [int_bytes (word_of_int nro), cstr (query_id w)])) w of
         (None, w) \<Rightarrow> Inl ExitFailure
       | (Some (codigo, rsp), w) \<Rightarrow>
           if codigo \<noteq> PAGINA_WORKER then Inl ExitFailure
           else
             (case rsp of
                [] \<Rightarrow> Inl NullDeref
              | rta # datos \<Rightarrow>
                  if rta_of (bytes_int rta) \<noteq> Some OP_EXITOSA then Inl ExitFailure
                  else
                    bindE (asignar_marco vueltas ext ident w) (\<lambda>(indice, w).
                      cargar r nro indice datos w))))"

section \<open>Following the size in the storage\<close>

text \<open>
  Removing one entry from the end. A page in memory that was not modified is freed and then
  read for a log line.
\<close>

definition quitar_ultima :: "nat \<Rightarrow> 'e worker \<Rightarrow> fault + 'e worker" where
  "quitar_ultima r w =
     bindE (deref (file_tags w) r) (\<lambda>ft.
     bindE (list_get (tabla_paginas ft) (int (length (tabla_paginas ft)) - 1)) (\<lambda>p.
     bindE (set_file_tag r (\<lambda>ft. ft\<lparr>tabla_paginas := butlast (tabla_paginas ft)\<rparr>) w) (\<lambda>w.
     bindE (deref (paginas w) p) (\<lambda>pg.
       if presencia pg then
         (if modificado pg then Inl ExitFailure
          else bindE (bit_clean (nro_marco pg) w) (\<lambda>w. Inl UseAfterFree))
       else Inr w))))"

definition actualizar_tabla :: "'e externos \<Rightarrow> nat \<Rightarrow> 'e worker \<Rightarrow> fault + 'e worker" where
  "actualizar_tabla ext r w =
     bindE (deref (file_tags w) r) (\<lambda>ft.
     bindE (solicitar_metadata ext (identificador ft) w) (\<lambda>(tam, w).
       if tam_pagina w = 0 then Inl DivByZero
       else
         let new_cant = c_div tam (tam_pagina w); old_cant = length (tabla_paginas ft)
         in if int old_cant < new_cant then
              (let (ps, w) = generar_paginas [old_cant..<nat new_cant] w
               in set_file_tag r (\<lambda>ft. ft\<lparr>tabla_paginas := tabla_paginas ft @ ps\<rparr>) w)
            else
              let new_page_table = take (nat new_cant) (tabla_paginas ft)
              in bindE (repeatE (nat (int old_cant - new_cant)) (quitar_ultima r) w) (\<lambda>w.
                   set_file_tag r (\<lambda>ft. ft\<lparr>tabla_paginas := new_page_table\<rparr>) w)))"

section \<open>The access path\<close>

text \<open>The bound is compared with \<open>>\<close>, so the number one past the last page goes on.\<close>

definition pagina_en_Tabla ::
    "nat \<Rightarrow> 'e externos \<Rightarrow> string \<Rightarrow> int \<Rightarrow> 'e worker \<Rightarrow> fault + (nat option \<times> 'e worker)" where
  "pagina_en_Tabla vueltas ext ident nro w =
     bindE (file_tag_en_memoria ext ident w) (\<lambda>(r, w).
     bindE (deref (file_tags w) r) (\<lambda>ft.
     bindE (if int (length (tabla_paginas ft)) < nro then actualizar_tabla ext r w else Inr w) (\<lambda>w.
     bindE (deref (file_tags w) r) (\<lambda>ft.
       if int (length (tabla_paginas ft)) < nro then Inr (None, w)
       else
         bindE (list_get (tabla_paginas ft) nro) (\<lambda>p.
         bindE (deref (paginas w) p) (\<lambda>pg.
           if presencia pg then Inr (Some p, w)
           else bindE (solicitar_pagina vueltas ext ident nro w) (\<lambda>(p, w). Inr (Some p, w))))))))"

section \<open>Reading and writing\<close>

text \<open>\<open>(int)ceil((double)size / tam_pagina)\<close>.\<close>

definition techo :: "int \<Rightarrow> int \<Rightarrow> int" where
  "techo n tam = - ((- n) div tam)"

text \<open>The frame of a page, for an access to it.\<close>

definition marco_de :: "nat \<Rightarrow> 'e worker \<Rightarrow> fault + nat" where
  "marco_de p w =
     bindE (deref (paginas w) p) (\<lambda>pg.
     bindE (list_get (marco w) (nro_marco pg)) (\<lambda>nm. Inr (nat (nro_marco pg))))"

definition puntero_pagina :: "nat option \<Rightarrow> fault + nat" where
  "puntero_pagina p = (case p of None \<Rightarrow> Inl NullDeref | Some p \<Rightarrow> Inr p)"

text \<open>The loop over the following pages, with the bytes still to write.\<close>

fun escribir_resto ::
    "nat \<Rightarrow> 'e externos \<Rightarrow> string \<Rightarrow> nat \<Rightarrow> int \<Rightarrow> byte list \<Rightarrow> 'e worker \<Rightarrow> fault + (byte list \<times> 'e worker)" where
  "escribir_resto vueltas ext ident 0 pagina_siguiente resto w = Inr (resto, w)"
| "escribir_resto vueltas ext ident (Suc k) pagina_siguiente resto w =
     bindE (pagina_en_Tabla vueltas ext ident pagina_siguiente w) (\<lambda>(p, w).
     bindE (puntero_pagina p) (\<lambda>p.
     bindE (set_pagina p (\<lambda>pg. pg\<lparr>modificado := True, uso := True\<rparr>) w) (\<lambda>w.
     bindE (marco_de p w) (\<lambda>i.
       let n = (if int (length resto) < tam_pagina w then length resto else nat (tam_pagina w))
       in bindE (interaccion_escribir ext (p_marco i w) (take n resto) i w) (\<lambda>w.
            escribir_resto vueltas ext ident k (pagina_siguiente + 1) (drop n resto) w)))))"

definition escribir_pagina ::
    "nat \<Rightarrow> 'e externos \<Rightarrow> nat \<Rightarrow> string \<Rightarrow> int \<Rightarrow> byte list \<Rightarrow> 'e worker
     \<Rightarrow> fault + (byte list \<times> 'e worker)" where
  "escribir_pagina vueltas ext p ident direccion_base datos w =
     bindE (deref (paginas w) p) (\<lambda>pg.
     let direccion_en_pagina = direccion_base - tam_pagina w * nro_pagina pg;
         size_dato = int (length datos)
     in bindE (marco_de p w) (\<lambda>i.
        let dest = p_marco i w + direccion_en_pagina;
            esp_libre = tam_pagina w - direccion_en_pagina
        in bindE (set_pagina p (\<lambda>pg. pg\<lparr>modificado := True, uso := True\<rparr>) w) (\<lambda>w.
           if size_dato \<le> esp_libre then
             bindE (interaccion_escribir ext dest datos i w) (\<lambda>w. Inr ([], w))
           else
             bindE (if esp_libre < 0 then Inl OutOfBounds
                    else interaccion_escribir ext dest (take (nat esp_libre) datos) i w) (\<lambda>w.
               escribir_resto vueltas ext ident (nat (techo size_dato (tam_pagina w)) - 1)
                 (nro_pagina pg + 1) (drop (nat esp_libre) datos) w))))"

fun leer_resto ::
    "nat \<Rightarrow> 'e externos \<Rightarrow> string \<Rightarrow> nat \<Rightarrow> int \<Rightarrow> int \<Rightarrow> 'e worker \<Rightarrow> fault + (byte list \<times> 'e worker)" where
  "leer_resto vueltas ext ident 0 pagina_siguiente size_restante w = Inr ([], w)"
| "leer_resto vueltas ext ident (Suc k) pagina_siguiente size_restante w =
     bindE (pagina_en_Tabla vueltas ext ident pagina_siguiente w) (\<lambda>(p, w).
     bindE (puntero_pagina p) (\<lambda>p.
     bindE (set_pagina p (\<lambda>pg. pg\<lparr>uso := True\<rparr>) w) (\<lambda>w.
     bindE (marco_de p w) (\<lambda>i.
       let n = (if size_restante < tam_pagina w then size_restante else tam_pagina w)
       in bindE (interaccion_leer ext (p_marco i w) n i w) (\<lambda>(bs, w).
          bindE (leer_resto vueltas ext ident k (pagina_siguiente + 1) (size_restante - n) w) (\<lambda>(cs, w).
            Inr (bs @ cs, w)))))))"

text \<open>
  The bytes read are sent to the master with their NUL, and its answer is awaited. A buffer
  the loop did not fill is sent with bytes that were never set.
\<close>

definition enviar_lectura ::
    "'e externos \<Rightarrow> string \<Rightarrow> byte list \<Rightarrow> int \<Rightarrow> 'e worker \<Rightarrow> fault + 'e worker" where
  "enviar_lectura ext ident lectura n w =
     (if int (length lectura) < n then Inl Indeterminate
      else
        (case en_entorno (master_rta ext (LECTURA_MASTER, [cstr ident, lectura @ [0]])) w of
           (None, w) \<Rightarrow> Inl ExitFailure
         | (Some ERROR, w) \<Rightarrow> Inl ExitFailure
         | (Some OK, w) \<Rightarrow> Inr w))"

definition leer_pagina ::
    "nat \<Rightarrow> 'e externos \<Rightarrow> nat \<Rightarrow> string \<Rightarrow> int \<Rightarrow> int \<Rightarrow> 'e worker \<Rightarrow> fault + 'e worker" where
  "leer_pagina vueltas ext p ident direccion n w =
     bindE (deref (paginas w) p) (\<lambda>pg.
     let direccion_en_pagina = direccion - tam_pagina w * nro_pagina pg
     in bindE (marco_de p w) (\<lambda>i.
        let src = p_marco i w + direccion_en_pagina;
            esp_lectura = tam_pagina w - direccion_en_pagina
        in bindE (set_pagina p (\<lambda>pg. pg\<lparr>uso := True\<rparr>) w) (\<lambda>w.
           bindE (if n \<le> esp_lectura then interaccion_leer ext src n i w
                  else
                    bindE (interaccion_leer ext src esp_lectura i w) (\<lambda>(bs, w).
                    bindE (leer_resto vueltas ext ident (nat (techo n (tam_pagina w)) - 1)
                             (nro_pagina pg + 1) (n - esp_lectura) w) (\<lambda>(cs, w).
                      Inr (bs @ cs, w)))) (\<lambda>(lectura, w).
             enviar_lectura ext ident lectura n w))))"

end
