(* ===== verification/Worker_Clock.thy ===== *)
theory Worker_Clock
  imports Worker_Memoria
begin

text \<open>
  What the replacement algorithms choose. LRU takes the first frame with the least time
  stamp. CLOCK-M is refined to a search over the use and modified bits alone: its two passes
  over the heap act on the bits as the reference passes do, and two rounds always find a
  victim, of the best class there is.
\<close>

section \<open>LRU\<close>

lemma foldl_min_time:
  fixes f :: "nat \<Rightarrow> int"
  assumes "0 < n"
  shows "foldl (\<lambda>v i. if f i < f v then i else v) 0 [1..<n] < n \<and>
         (\<forall>j < n. f (foldl (\<lambda>v i. if f i < f v then i else v) 0 [1..<n]) \<le> f j) \<and>
         (\<forall>j < foldl (\<lambda>v i. if f i < f v then i else v) 0 [1..<n].
            f (foldl (\<lambda>v i. if f i < f v then i else v) 0 [1..<n]) < f j)"
  using assms
proof (induction n)
  case 0
  then show ?case by simp
next
  case (Suc n)
  show ?case
  proof (cases "n = 0")
    case True
    then show ?thesis by simp
  next
    case False
    let ?v = "foldl (\<lambda>v i. if f i < f v then i else v) 0 [1..<n]"
    have IH: "?v < n" "\<forall>j < n. f ?v \<le> f j" "\<forall>j < ?v. f ?v < f j" using Suc.IH False by auto
    have e: "foldl (\<lambda>v i. if f i < f v then i else v) 0 [1..<Suc n] = (if f n < f ?v then n else ?v)"
      using False by (simp del: upt_Suc add: upt_Suc_append)
    show ?thesis
      unfolding e using IH by (auto simp: less_Suc_eq)
  qed
qed

section \<open>The reference search\<close>

definition sig :: "nat \<Rightarrow> nat \<Rightarrow> nat" where
  "sig n i = (if Suc i = n then 0 else Suc i)"

text \<open>
  The passes over the use bits \<open>u\<close> and the modified bits \<open>m\<close> of the frames: whether a victim
  was found, where the pointer stands, and the use bits left.
\<close>

fun ref_pasada_1 :: "nat \<Rightarrow> nat \<Rightarrow> nat \<Rightarrow> (nat \<Rightarrow> bool) \<Rightarrow> (nat \<Rightarrow> bool) \<Rightarrow> bool \<times> nat" where
  "ref_pasada_1 n 0 i u m = (False, i)"
| "ref_pasada_1 n (Suc k) i u m =
     (if \<not> u i \<and> \<not> m i then (True, i) else ref_pasada_1 n k (sig n i) u m)"

fun ref_pasada_2 ::
    "nat \<Rightarrow> nat \<Rightarrow> nat \<Rightarrow> (nat \<Rightarrow> bool) \<Rightarrow> (nat \<Rightarrow> bool) \<Rightarrow> bool \<times> nat \<times> (nat \<Rightarrow> bool)" where
  "ref_pasada_2 n 0 i u m = (False, i, u)"
| "ref_pasada_2 n (Suc k) i u m =
     (if \<not> u i \<and> m i then (True, i, u) else ref_pasada_2 n k (sig n i) (u(i := False)) m)"

fun ref_buscar :: "nat \<Rightarrow> nat \<Rightarrow> nat \<Rightarrow> (nat \<Rightarrow> bool) \<Rightarrow> (nat \<Rightarrow> bool) \<Rightarrow> (nat \<times> (nat \<Rightarrow> bool)) option" where
  "ref_buscar 0 n i u m = None"
| "ref_buscar (Suc vueltas) n i u m =
     (case ref_pasada_1 n n i u m of
        (True, j) \<Rightarrow> Some (j, u)
      | (False, j) \<Rightarrow>
          (case ref_pasada_2 n n j u m of
             (True, j, u') \<Rightarrow> Some (j, u')
           | (False, j, u') \<Rightarrow> ref_buscar vueltas n j u' m))"

text \<open>The frame \<open>t\<close> places after \<open>i\<close>.\<close>

definition desde :: "nat \<Rightarrow> nat \<Rightarrow> nat \<Rightarrow> nat" where
  "desde n i t = (i + t) mod n"

lemma desde_less [simp]: "0 < n \<Longrightarrow> desde n i t < n"
  by (simp add: desde_def)

lemma sig_desde: "0 < n \<Longrightarrow> sig n (desde n i t) = desde n i (Suc t)"
  by (simp add: sig_def desde_def mod_Suc)

lemma desde_0: "i < n \<Longrightarrow> desde n i 0 = i"
  by (simp add: desde_def)

lemma desde_n: "i < n \<Longrightarrow> desde n i n = i"
  by (simp add: desde_def)

lemma desde_inj: "s < n \<Longrightarrow> t < n \<Longrightarrow> desde n i s = desde n i t \<Longrightarrow> s = t"
proof -
  have *: "s = t" if "s \<le> t" "t < n" "(i + s) mod n = (i + t) mod n" for s t
  proof -
    have "(i + t - (i + s)) mod n = 0"
      using that by (metis add_le_cancel_left mod_eq_dvd_iff_nat mod_eq_0_iff_dvd)
    then show ?thesis using that by simp
  qed
  assume "s < n" "t < n" "desde n i s = desde n i t"
  then show ?thesis unfolding desde_def using *[of s t] *[of t s] by (cases "s \<le> t") auto
qed

lemma desde_surj: "j < n \<Longrightarrow> i < n \<Longrightarrow> \<exists>t < n. desde n i t = j"
proof (cases "i \<le> j")
  case True
  assume "j < n" "i < n"
  with True show ?thesis by (intro exI[of _ "j - i"]) (simp add: desde_def)
next
  case False
  assume "j < n" "i < n"
  with False show ?thesis by (intro exI[of _ "n + j - i"]) (simp add: desde_def)
qed

lemma ref_pasada_1_cases:
  assumes "0 < n"
  shows "(\<exists>t'. t \<le> t' \<and> t' < t + k \<and> ref_pasada_1 n k (desde n i t) u m = (True, desde n i t') \<and>
            \<not> u (desde n i t') \<and> \<not> m (desde n i t')) \<or>
         (ref_pasada_1 n k (desde n i t) u m = (False, desde n i (t + k)) \<and>
            (\<forall>s. t \<le> s \<and> s < t + k \<longrightarrow> u (desde n i s) \<or> m (desde n i s)))"
proof (induction k arbitrary: t)
  case 0
  then show ?case by auto
next
  case (Suc k)
  show ?case
  proof (cases "\<not> u (desde n i t) \<and> \<not> m (desde n i t)")
    case True
    then show ?thesis by (intro disjI1 exI[of _ t]) simp
  next
    case False
    have r: "ref_pasada_1 n (Suc k) (desde n i t) u m = ref_pasada_1 n k (desde n i (Suc t)) u m"
      using False sig_desde[OF assms] by auto
    show ?thesis unfolding r using Suc.IH[of "Suc t"] False
      by (elim disjE exE conjE) (fastforce, (intro disjI2, simp, metis Suc_leI le_neq_implies_less))
  qed
qed

lemma ref_pasada_2_cases:
  assumes n: "0 < n" and "t + k \<le> n"
    and "\<forall>s. t \<le> s \<and> s < n \<longrightarrow> v (desde n i s) = u (desde n i s)"
  shows "(\<exists>t' w. t \<le> t' \<and> t' < t + k \<and> ref_pasada_2 n k (desde n i t) v m = (True, desde n i t', w) \<and>
            \<not> u (desde n i t') \<and> m (desde n i t') \<and> (\<forall>x. w x \<longrightarrow> v x)) \<or>
         (ref_pasada_2 n k (desde n i t) v m =
            (False, desde n i (t + k), \<lambda>x. v x \<and> \<not> (\<exists>s. t \<le> s \<and> s < t + k \<and> x = desde n i s)) \<and>
          (\<forall>s. t \<le> s \<and> s < t + k \<longrightarrow> u (desde n i s) \<or> \<not> m (desde n i s)))"
  using assms(2,3)
proof (induction k arbitrary: t v)
  case 0
  then show ?case by auto
next
  case (Suc k)
  have vt: "v (desde n i t) = u (desde n i t)" using Suc.prems by simp
  show ?case
  proof (cases "\<not> u (desde n i t) \<and> m (desde n i t)")
    case True
    then show ?thesis using vt by (intro disjI1 exI[of _ t] exI[of _ v]) simp
  next
    case False
    let ?v = "v(desde n i t := False)"
    have r: "ref_pasada_2 n (Suc k) (desde n i t) v m = ref_pasada_2 n k (desde n i (Suc t)) ?v m"
      using False vt sig_desde[OF n] by auto
    have eq: "\<forall>s. Suc t \<le> s \<and> s < n \<longrightarrow> ?v (desde n i s) = u (desde n i s)"
    proof (intro allI impI)
      fix s assume s: "Suc t \<le> s \<and> s < n"
      then have "desde n i s \<noteq> desde n i t" using desde_inj[of s n t i] by auto
      then show "?v (desde n i s) = u (desde n i s)" using Suc.prems(2) s by simp
    qed
    have k: "Suc t + k \<le> n" using Suc.prems(1) by simp
    have fin: "(\<lambda>x. ?v x \<and> \<not> (\<exists>s. Suc t \<le> s \<and> s < Suc t + k \<and> x = desde n i s)) =
        (\<lambda>x. v x \<and> \<not> (\<exists>s. t \<le> s \<and> s < t + Suc k \<and> x = desde n i s))"
    proof
      fix x
      have "(\<exists>s. t \<le> s \<and> s < t + Suc k \<and> x = desde n i s) \<longleftrightarrow>
          x = desde n i t \<or> (\<exists>s. Suc t \<le> s \<and> s < Suc t + k \<and> x = desde n i s)"
        by (metis Suc_le_eq add_Suc add_Suc_right le_neq_implies_less less_add_Suc1 order_refl order.strict_implies_order)
      then show "(?v x \<and> \<not> (\<exists>s. Suc t \<le> s \<and> s < Suc t + k \<and> x = desde n i s)) =
          (v x \<and> \<not> (\<exists>s. t \<le> s \<and> s < t + Suc k \<and> x = desde n i s))" by auto
    qed
    from Suc.IH[OF k eq] show ?thesis
    proof (elim disjE exE conjE)
      fix t' w
      assume a: "Suc t \<le> t'" "t' < Suc t + k"
        "ref_pasada_2 n k (desde n i (Suc t)) ?v m = (True, desde n i t', w)"
        "\<not> u (desde n i t')" "m (desde n i t')" "\<forall>x. w x \<longrightarrow> ?v x"
      have "\<forall>x. w x \<longrightarrow> v x" using a(6) by (auto split: if_splits)
      then show ?thesis unfolding r using a by (intro disjI1 exI[of _ t'] exI[of _ w]) simp
    next
      assume a: "ref_pasada_2 n k (desde n i (Suc t)) ?v m =
          (False, desde n i (Suc t + k), \<lambda>x. ?v x \<and> \<not> (\<exists>s. Suc t \<le> s \<and> s < Suc t + k \<and> x = desde n i s))"
        "\<forall>s. Suc t \<le> s \<and> s < Suc t + k \<longrightarrow> u (desde n i s) \<or> \<not> m (desde n i s)"
      have "\<forall>s. t \<le> s \<and> s < t + Suc k \<longrightarrow> u (desde n i s) \<or> \<not> m (desde n i s)"
        using a(2) False by (metis Suc_leI add_Suc add_Suc_right le_neq_implies_less)
      then show ?thesis unfolding r a(1) fin by simp
    qed
  qed
qed

text \<open>A whole round, from \<open>i\<close> back to \<open>i\<close>.\<close>

lemma ref_pasada_1_vuelta:
  assumes "i < n"
  shows "(\<exists>j < n. ref_pasada_1 n n i u m = (True, j) \<and> \<not> u j \<and> \<not> m j) \<or>
         (ref_pasada_1 n n i u m = (False, i) \<and> (\<forall>j < n. u j \<or> m j))"
proof -
  have n: "0 < n" using assms by simp
  from ref_pasada_1_cases[OF n, of 0 n i u m]
  show ?thesis
    unfolding desde_0[OF assms] add_0 desde_n[OF assms]
  proof (elim disjE exE conjE)
    fix t' assume "ref_pasada_1 n n i u m = (True, desde n i t')" "\<not> u (desde n i t')" "\<not> m (desde n i t')"
    then show ?thesis using n by (intro disjI1 exI[of _ "desde n i t'"]) simp
  next
    assume "ref_pasada_1 n n i u m = (False, i)"
      "\<forall>s. 0 \<le> s \<and> s < n \<longrightarrow> u (desde n i s) \<or> m (desde n i s)"
    then show ?thesis using desde_surj[OF _ assms] by (metis le0)
  qed
qed

lemma ref_pasada_2_vuelta:
  assumes "i < n"
  shows "(\<exists>j w. j < n \<and> ref_pasada_2 n n i u m = (True, j, w) \<and> \<not> u j \<and> m j \<and> (\<forall>x. w x \<longrightarrow> u x)) \<or>
         (ref_pasada_2 n n i u m = (False, i, \<lambda>x. u x \<and> \<not> x < n) \<and> (\<forall>j < n. u j \<or> \<not> m j))"
proof -
  have n: "0 < n" using assms by simp
  have e: "(\<exists>s. 0 \<le> s \<and> s < n \<and> x = desde n i s) \<longleftrightarrow> x < n" for x
    using desde_surj[OF _ assms] n by auto
  have "\<forall>s. 0 \<le> s \<and> s < n \<longrightarrow> u (desde n i s) = u (desde n i s)" by simp
  from ref_pasada_2_cases[OF n eq_refl[OF add_0] this, of m]
  show ?thesis
    unfolding desde_0[OF assms] add_0 desde_n[OF assms] e
  proof (elim disjE exE conjE)
    fix t' w assume "ref_pasada_2 n n i u m = (True, desde n i t', w)" "\<not> u (desde n i t')"
      "m (desde n i t')" "\<forall>x. w x \<longrightarrow> u x"
    then show ?thesis using n by (intro disjI1 exI[of _ "desde n i t'"] exI[of _ w]) simp
  next
    assume "ref_pasada_2 n n i u m = (False, i, \<lambda>x. u x \<and> \<not> x < n)"
      "\<forall>s. 0 \<le> s \<and> s < n \<longrightarrow> u (desde n i s) \<or> \<not> m (desde n i s)"
    then show ?thesis using desde_surj[OF _ assms] by (metis le0)
  qed
qed

definition mejor_clase :: "nat \<Rightarrow> (nat \<Rightarrow> bool) \<Rightarrow> (nat \<Rightarrow> bool) \<Rightarrow> nat \<Rightarrow> (nat \<Rightarrow> bool) \<Rightarrow> bool" where
  "mejor_clase n u m j u' \<longleftrightarrow>
     j < n \<and> (\<forall>x. u' x \<longrightarrow> u x) \<and>
     (if \<exists>x < n. \<not> u x \<and> \<not> m x then \<not> u j \<and> \<not> m j \<and> u' = u
      else if \<exists>x < n. \<not> u x \<and> m x then \<not> u j \<and> m j
      else (\<forall>x < n. \<not> u' x) \<and> ((\<exists>x < n. \<not> m x) \<longrightarrow> \<not> m j))"

lemma ref_buscar_mejor:
  assumes i: "i < n"
  shows "\<exists>j u'. ref_buscar (Suc (Suc v)) n i u m = Some (j, u') \<and> mejor_clase n u m j u'"
proof -
  let ?c = "\<lambda>x. u x \<and> \<not> x < n"
  from ref_pasada_1_vuelta[OF i, of u m] show ?thesis
  proof (elim disjE exE conjE)
    fix j assume "j < n" "ref_pasada_1 n n i u m = (True, j)" "\<not> u j" "\<not> m j"
    then show ?thesis by (auto simp: mejor_clase_def)
  next
    assume p1: "ref_pasada_1 n n i u m = (False, i)" and um: "\<forall>j < n. u j \<or> m j"
    from ref_pasada_2_vuelta[OF i, of u m] show ?thesis
    proof (elim disjE exE conjE)
      fix j w assume "j < n" "ref_pasada_2 n n i u m = (True, j, w)" "\<not> u j" "m j" "\<forall>x. w x \<longrightarrow> u x"
      then show ?thesis using p1 um by (auto simp: mejor_clase_def)
    next
      assume p2: "ref_pasada_2 n n i u m = (False, i, ?c)" and "\<forall>j < n. u j \<or> \<not> m j"
      then have all: "\<forall>j < n. u j" using um by blast
      from ref_pasada_1_vuelta[OF i, of ?c m] show ?thesis
      proof (elim disjE exE conjE)
        fix j assume "j < n" "ref_pasada_1 n n i ?c m = (True, j)" "\<not> m j"
        then show ?thesis using p1 p2 all by (auto simp: mejor_clase_def)
      next
        assume q1: "ref_pasada_1 n n i ?c m = (False, i)" and "\<forall>j < n. ?c j \<or> m j"
        then have mm: "\<forall>j < n. m j" by auto
        from ref_pasada_2_vuelta[OF i, of ?c m] show ?thesis
        proof (elim disjE exE conjE)
          fix j w assume "j < n" "ref_pasada_2 n n i ?c m = (True, j, w)" "\<forall>x. w x \<longrightarrow> ?c x"
          then show ?thesis using p1 p2 q1 all mm by (auto simp: mejor_clase_def)
        next
          assume "\<forall>j < n. ?c j \<or> \<not> m j"
          then show ?thesis using mm i by auto
        qed
      qed
    qed
  qed
qed

section \<open>The passes over the heap\<close>

text \<open>
  Every frame holds a page that knows its frame, as when the algorithm is called: there is no
  free frame then.
\<close>

definition marcos_ok :: "'e worker \<Rightarrow> bool" where
  "marcos_ok w \<longleftrightarrow>
     length (marco w) = cantidad_marcos w \<and>
     (\<forall>i < cantidad_marcos w. \<exists>p pg. m_pagina (marco w ! i) = Some p \<and> paginas w p = Some pg \<and>
        nro_marco pg = int i)"

definition pagina_de :: "'e worker \<Rightarrow> nat \<Rightarrow> nodo_pagina" where
  "pagina_de w i = the (paginas w (the (m_pagina (marco w ! i))))"

definition uso_de :: "'e worker \<Rightarrow> nat \<Rightarrow> bool" where
  "uso_de w i \<longleftrightarrow> i < cantidad_marcos w \<and> uso (pagina_de w i)"

definition mod_de :: "'e worker \<Rightarrow> nat \<Rightarrow> bool" where
  "mod_de w i \<longleftrightarrow> i < cantidad_marcos w \<and> modificado (pagina_de w i)"

text \<open>Only the pointer and use bits differ.\<close>

definition solo_usos :: "'e worker \<Rightarrow> 'e worker \<Rightarrow> bool" where
  "solo_usos w w' \<longleftrightarrow>
     (\<exists>c P. w' = w\<lparr>victima_clock := c, paginas := P\<rparr> \<and>
        (\<forall>p. map_option (\<lambda>pg. pg\<lparr>uso := False\<rparr>) (P p) =
             map_option (\<lambda>pg. pg\<lparr>uso := False\<rparr>) (paginas w p)))"

lemma solo_usos_refl: "solo_usos w (w\<lparr>victima_clock := c\<rparr>)"
  unfolding solo_usos_def by (rule exI[of _ c], rule exI[of _ "paginas w"]) simp

lemma solo_usos_trans: "solo_usos w1 w2 \<Longrightarrow> solo_usos w2 w3 \<Longrightarrow> solo_usos w1 w3"
  unfolding solo_usos_def by (elim exE conjE) (simp, blast)

lemma solo_usos_fields:
  assumes "solo_usos w w'"
  shows "marco w' = marco w" and "cantidad_marcos w' = cantidad_marcos w"
    and "memoria w' = memoria w" and "bit_map w' = bit_map w" and "file_tags w' = file_tags w"
    and "entorno w' = entorno w"
  using assms by (auto simp: solo_usos_def)

lemma marcos_okD:
  assumes "marcos_ok w" and "i < cantidad_marcos w"
  obtains p where "m_pagina (marco w ! i) = Some p" "paginas w p = Some (pagina_de w i)"
    "nro_marco (pagina_de w i) = int i"
  using assms unfolding marcos_ok_def pagina_de_def by fastforce

lemma pagina_clock_ok:
  assumes "marcos_ok w" and "i < cantidad_marcos w" and "victima_clock w = Some i"
  obtains p where "pagina_clock w = Inr (p, pagina_de w i)" "m_pagina (marco w ! i) = Some p"
    "paginas w p = Some (pagina_de w i)"
proof -
  obtain p where p: "m_pagina (marco w ! i) = Some p" "paginas w p = Some (pagina_de w i)"
    using marcos_okD[OF assms(1,2)] by metis
  moreover have "i < length (marco w)" using assms by (simp add: marcos_ok_def)
  ultimately have "pagina_clock w = Inr (p, pagina_de w i)"
    using assms(3) by (simp add: pagina_clock_def)
  with p that show ?thesis by blast
qed

lemma mover_ok:
  assumes "marcos_ok w" and "i < cantidad_marcos w"
  shows "mover_puntero_clock (int i + 1) w = Inr (w\<lparr>victima_clock := Some (sig (cantidad_marcos w) i)\<rparr>)"
proof (cases "Suc i = cantidad_marcos w")
  case True
  then have "int i + 1 = int (cantidad_marcos w)" by simp
  then show ?thesis
    using assms True by (simp add: mover_puntero_clock_def sig_def list_get_def marcos_ok_def Let_def)
next
  case False
  then have "int i + 1 \<noteq> int (cantidad_marcos w)" "Suc i < cantidad_marcos w" using assms(2) by auto
  then show ?thesis
    using assms False
    by (simp add: mover_puntero_clock_def sig_def list_get_def marcos_ok_def Let_def nat_add_distrib)
qed

lemma puntero_frame [simp]:
  "marcos_ok (w\<lparr>victima_clock := c\<rparr>) = marcos_ok w"
  "uso_de (w\<lparr>victima_clock := c\<rparr>) = uso_de w"
  "mod_de (w\<lparr>victima_clock := c\<rparr>) = mod_de w"
  by (simp_all add: marcos_ok_def uso_de_def mod_de_def pagina_de_def fun_eq_iff)

lemma sig_less: "i < n \<Longrightarrow> sig n i < n"
  by (simp add: sig_def)

lemma clock_pasada_1_ref:
  assumes "marcos_ok w" and "i < cantidad_marcos w" and "victima_clock w = Some i"
  shows "clock_pasada_1 k w =
    (case ref_pasada_1 (cantidad_marcos w) k i (uso_de w) (mod_de w) of
       (b, j) \<Rightarrow> Inr (b, w\<lparr>victima_clock := Some j\<rparr>))"
  using assms
proof (induction k arbitrary: i w)
  case 0
  then show ?case by simp
next
  case (Suc k)
  obtain p where p: "pagina_clock w = Inr (p, pagina_de w i)" by (rule pagina_clock_ok[OF Suc.prems])
  have u: "uso (pagina_de w i) = uso_de w i" "modificado (pagina_de w i) = mod_de w i"
    using Suc.prems(2) by (simp_all add: uso_de_def mod_de_def)
  have nm: "nro_marco (pagina_de w i) = int i" using marcos_okD[OF Suc.prems(1,2)] by metis
  let ?w = "w\<lparr>victima_clock := Some (sig (cantidad_marcos w) i)\<rparr>"
  show ?case
  proof (cases "\<not> uso_de w i \<and> \<not> mod_de w i")
    case True
    then show ?thesis using p u Suc.prems(3) by simp
  next
    case False
    have "clock_pasada_1 (Suc k) w = clock_pasada_1 k ?w"
      using p u nm False mover_ok[OF Suc.prems(1,2)] by (auto simp: add.commute)
    moreover have "clock_pasada_1 k ?w =
        (case ref_pasada_1 (cantidad_marcos w) k (sig (cantidad_marcos w) i) (uso_de w) (mod_de w) of
           (b, j) \<Rightarrow> Inr (b, w\<lparr>victima_clock := Some j\<rparr>))"
      using Suc.IH[of ?w "sig (cantidad_marcos w) i"] Suc.prems sig_less by simp
    ultimately show ?thesis using False by auto
  qed
qed

text \<open>Clearing the use bit of one frame's page: no other frame sees it.\<close>

lemma borrar_uso:
  assumes ok: "marcos_ok w" and i: "i < cantidad_marcos w"
    and p: "m_pagina (marco w ! i) = Some p" "paginas w p = Some (pagina_de w i)"
  defines "w1 \<equiv> w\<lparr>paginas := (paginas w)(p \<mapsto> (pagina_de w i)\<lparr>uso := False\<rparr>)\<rparr>"
  shows "marcos_ok w1" and "uso_de w1 = (uso_de w)(i := False)" and "mod_de w1 = mod_de w"
    and "solo_usos w w1"
proof -
  have other: "m_pagina (marco w ! j) \<noteq> Some p" if "j < cantidad_marcos w" "j \<noteq> i" for j
  proof
    assume a: "m_pagina (marco w ! j) = Some p"
    have "nro_marco (pagina_de w j) = int j" using marcos_okD[OF ok that(1)] by metis
    moreover have "nro_marco (pagina_de w i) = int i" using marcos_okD[OF ok i] by metis
    moreover have "pagina_de w j = pagina_de w i" using a p(1) by (simp add: pagina_de_def)
    ultimately show False using that(2) by simp
  qed
  have pd: "pagina_de w1 j = (if j = i then (pagina_de w i)\<lparr>uso := False\<rparr> else pagina_de w j)"
    if j: "j < cantidad_marcos w" for j
  proof (cases "j = i")
    case True
    then show ?thesis unfolding pagina_de_def[of w1] by (simp add: w1_def p(1))
  next
    case False
    obtain r where r: "m_pagina (marco w ! j) = Some r" "paginas w r = Some (pagina_de w j)"
      by (rule marcos_okD[OF ok j])
    then have "r \<noteq> p" using other[OF j False] by auto
    with r False show ?thesis unfolding pagina_de_def[of w1] by (simp add: w1_def)
  qed
  show "uso_de w1 = (uso_de w)(i := False)" "mod_de w1 = mod_de w"
    using pd by (auto simp: fun_eq_iff uso_de_def mod_de_def w1_def split: if_splits)
  have pag: "map_option (\<lambda>pg. pg\<lparr>uso := False\<rparr>) (paginas w1 q) =
      map_option (\<lambda>pg. pg\<lparr>uso := False\<rparr>) (paginas w q)" for q
    using p(2) by (simp add: w1_def)
  show "solo_usos w w1"
    unfolding solo_usos_def
    by (rule exI[of _ "victima_clock w"], rule exI[of _ "paginas w1"]) (use pag in \<open>simp add: w1_def\<close>)
  show "marcos_ok w1"
    unfolding marcos_ok_def
  proof (intro conjI allI impI)
    show "length (marco w1) = cantidad_marcos w1" using ok by (simp add: marcos_ok_def w1_def)
  next
    fix j assume "j < cantidad_marcos w1"
    then have j: "j < cantidad_marcos w" by (simp add: w1_def)
    obtain r where r: "m_pagina (marco w ! j) = Some r" "paginas w r = Some (pagina_de w j)"
      "nro_marco (pagina_de w j) = int j" by (rule marcos_okD[OF ok j])
    then show "\<exists>p pg. m_pagina (marco w1 ! j) = Some p \<and> paginas w1 p = Some pg \<and> nro_marco pg = int j"
      using p by (cases "r = p") (auto simp: w1_def)
  qed
qed

lemma clock_pasada_2_ref:
  assumes "marcos_ok w" and "i < cantidad_marcos w" and "victima_clock w = Some i"
  shows "\<exists>b j u w'. ref_pasada_2 (cantidad_marcos w) k i (uso_de w) (mod_de w) = (b, j, u) \<and>
           clock_pasada_2 k w = Inr (b, w') \<and> marcos_ok w' \<and> uso_de w' = u \<and>
           mod_de w' = mod_de w \<and> victima_clock w' = Some j \<and> j < cantidad_marcos w \<and> solo_usos w w'"
  using assms
proof (induction k arbitrary: i w)
  case 0
  have "solo_usos w w" using solo_usos_refl[of w "victima_clock w"] by simp
  with 0 show ?case by simp blast
next
  case (Suc k)
  obtain p where p: "pagina_clock w = Inr (p, pagina_de w i)" "m_pagina (marco w ! i) = Some p"
    "paginas w p = Some (pagina_de w i)" by (rule pagina_clock_ok[OF Suc.prems])
  have u: "uso (pagina_de w i) = uso_de w i" "modificado (pagina_de w i) = mod_de w i"
    using Suc.prems(2) by (simp_all add: uso_de_def mod_de_def)
  have nm: "nro_marco (pagina_de w i) = int i" using marcos_okD[OF Suc.prems(1,2)] by metis
  show ?case
  proof (cases "\<not> uso_de w i \<and> mod_de w i")
    case True
    have "solo_usos w w" using solo_usos_refl[of w "victima_clock w"] by simp
    with True p u Suc.prems show ?thesis by simp blast
  next
    case False
    let ?w1 = "w\<lparr>paginas := (paginas w)(p \<mapsto> (pagina_de w i)\<lparr>uso := False\<rparr>)\<rparr>"
    let ?w = "?w1\<lparr>victima_clock := Some (sig (cantidad_marcos w) i)\<rparr>"
    note b = borrar_uso[OF Suc.prems(1,2) p(2,3)]
    have mv: "mover_puntero_clock (int i + 1) ?w1 = Inr ?w"
      using mover_ok[OF b(1), of i] Suc.prems(2) by simp
    have st: "clock_pasada_2 (Suc k) w = clock_pasada_2 k ?w"
      using p u nm False mv by (auto simp: set_pagina_def add.commute)
    have ok: "marcos_ok ?w" using b(1) by simp
    have "\<exists>b j u w'. ref_pasada_2 (cantidad_marcos ?w) k (sig (cantidad_marcos w) i) (uso_de ?w) (mod_de ?w) =
          (b, j, u) \<and>
        clock_pasada_2 k ?w = Inr (b, w') \<and> marcos_ok w' \<and> uso_de w' = u \<and>
        mod_de w' = mod_de ?w \<and> victima_clock w' = Some j \<and> j < cantidad_marcos ?w \<and> solo_usos ?w w'"
      by (rule Suc.IH[OF ok]) (use Suc.prems(2) sig_less in simp_all)
    then obtain c j v w' where
      r: "ref_pasada_2 (cantidad_marcos w) k (sig (cantidad_marcos w) i) ((uso_de w)(i := False)) (mod_de w) = (c, j, v)"
        "clock_pasada_2 k ?w = Inr (c, w')" "marcos_ok w'" "uso_de w' = v" "mod_de w' = mod_de w"
        "victima_clock w' = Some j" "j < cantidad_marcos w" "solo_usos ?w w'"
      unfolding puntero_frame b(2,3) by auto
    have "solo_usos w w'"
      using solo_usos_trans[OF solo_usos_trans[OF b(4) solo_usos_refl] r(8)] .
    moreover have "ref_pasada_2 (cantidad_marcos w) (Suc k) i (uso_de w) (mod_de w) = (c, j, v)"
      using r(1) False by auto
    moreover have "clock_pasada_2 (Suc k) w = Inr (c, w')" unfolding st by (rule r(2))
    ultimately show ?thesis using r by blast
  qed
qed

lemma clock_buscar_ref:
  assumes "marcos_ok w" and "i < cantidad_marcos w" and "victima_clock w = Some i"
    and "ref_buscar v (cantidad_marcos w) i (uso_de w) (mod_de w) = Some (j, u)"
  shows "\<exists>w'. clock_buscar v w = Inr w' \<and> marcos_ok w' \<and> uso_de w' = u \<and> mod_de w' = mod_de w \<and>
           victima_clock w' = Some j \<and> solo_usos w w'"
  using assms
proof (induction v arbitrary: i w)
  case 0
  then show ?case by simp
next
  case (Suc v)
  let ?n = "cantidad_marcos w"
  obtain b i1 where p1: "ref_pasada_1 ?n ?n i (uso_de w) (mod_de w) = (b, i1)" by force
  let ?w1 = "w\<lparr>victima_clock := Some i1\<rparr>"
  have c1: "clock_pasada_1 ?n w = Inr (b, ?w1)"
    using clock_pasada_1_ref[OF Suc.prems(1-3), of ?n] p1 by simp
  show ?case
  proof (cases b)
    case True
    then have "j = i1" "u = uso_de w" using Suc.prems(4) p1 by simp_all
    then show ?thesis
      using c1 True Suc.prems(1) solo_usos_refl[of w "Some i1"] by simp
  next
    case False
    have i1: "i1 = i"
      using ref_pasada_1_vuelta[OF Suc.prems(2), of "uso_de w" "mod_de w"] p1 False by auto
    obtain b2 j2 u2 w2 where p2: "ref_pasada_2 ?n ?n i (uso_de w) (mod_de w) = (b2, j2, u2)"
      "clock_pasada_2 ?n ?w1 = Inr (b2, w2)" "marcos_ok w2" "uso_de w2 = u2" "mod_de w2 = mod_de w"
      "victima_clock w2 = Some j2" "j2 < ?n" "solo_usos ?w1 w2"
      using clock_pasada_2_ref[of ?w1 i ?n] Suc.prems(1,2) i1 by auto
    have so: "solo_usos w w2" by (rule solo_usos_trans[OF solo_usos_refl p2(8)])
    have n2: "cantidad_marcos w2 = ?n" by (rule solo_usos_fields(2)[OF so])
    show ?thesis
    proof (cases b2)
      case True
      then have "j = j2" "u = u2" using Suc.prems(4) p1 p2(1) False i1 by simp_all
      then show ?thesis using c1 False p2 True so by simp
    next
      case b2: False
      have "ref_buscar v ?n j2 u2 (mod_de w) = Some (j, u)"
        using Suc.prems(4) p1 p2(1) False b2 i1 by simp
      then have "\<exists>w'. clock_buscar v w2 = Inr w' \<and> marcos_ok w' \<and> uso_de w' = u \<and>
          mod_de w' = mod_de w2 \<and> victima_clock w' = Some j \<and> solo_usos w2 w'"
        by (intro Suc.IH[of w2 j2]) (simp_all add: p2 n2)
      then show ?thesis using c1 False b2 p2 so solo_usos_trans[OF so] by auto
    qed
  qed
qed

end
