(* ===== verification/Worker_Acceso.thy ===== *)
theory Worker_Acceso
  imports Worker_Clock
begin

text \<open>
  Access to the pages: the page size never changes, what a WRITE that crosses pages leaves
  unwritten, and the bound check of \<open>pagina_en_Tabla\<close>.
\<close>

section \<open>The page size is fixed\<close>

named_theorems tam_frame

definition mismo_tam :: "'e worker \<Rightarrow> 'e worker \<Rightarrow> bool" where
  "mismo_tam w w' \<longleftrightarrow> tam_pagina w' = tam_pagina w"

lemma mismo_tam_refl [simp]: "mismo_tam w w"
  by (simp add: mismo_tam_def)

lemma mismo_tam_trans: "mismo_tam w1 w2 \<Longrightarrow> mismo_tam w2 w3 \<Longrightarrow> mismo_tam w1 w3"
  by (simp add: mismo_tam_def)

lemma tam_steps:
  "okE (mismo_tam w) (set_pagina p f w)" "okE (mismo_tam w) (set_file_tag p g w)"
  "okE (mismo_tam w) (mem_put off bs w)" "okE (mismo_tam w) (bit_clean i w)"
  "okE (mismo_tam w) (bit_set i w)" "okE (mismo_tam w) (free_pagina p w)"
  "okE (mismo_tam w) (mover_puntero_clock k w)"
  by (auto simp: set_pagina_def set_file_tag_def mem_put_def bit_clean_def bit_set_def
      free_pagina_def mover_puntero_clock_def Let_def mismo_tam_def intro!: okE_I)

lemmas tam_steps_wp [tam_frame] = tam_steps[THEN okE_mono]

lemma tam_pure [simp]: "okE (\<lambda>x. True) r"
  by (rule okE_I) simp

lemma tam_en_entorno: "en_entorno f w = (x, w') \<Longrightarrow> mismo_tam w w'"
  by (auto simp: en_entorno_def mismo_tam_def split: prod.splits)

lemma tam_generar: "generar_paginas is w = (ps, w') \<Longrightarrow> mismo_tam w w'"
  by (induction "is" arbitrary: w ps w')
    (auto simp: generar_nodo_pagina_def Let_def mismo_tam_def split: prod.split_asm)

text \<open>Values that are only looked up.\<close>

lemmas consultas =
  okE_pure[of _ "deref h r" for h r] okE_pure[of _ "puntero p" for p]
  okE_pure[of _ "list_get xs i" for xs i] okE_pure[of _ "mem_get off n w" for off n w]
  okE_pure[of _ "agregar_file_tag ext ft" for ext ft]
  okE_pure[of _ "buscar_file_tag ident rs w" for ident rs w]
  okE_pure[of _ "ident_marco nm w" for nm w] okE_pure[of _ "pagina_clock w" for w]
  okE_pure[of _ "marco_de p w" for p w] okE_pure[of _ "puntero_pagina p" for p]

lemma tam_metadata: "okE (\<lambda>(n, w'). mismo_tam w w') (solicitar_metadata ext ident w)"
  unfolding solicitar_metadata_def Let_def
  by (auto intro!: consultas dest: tam_en_entorno split: prod.split option.split list.split)

lemma tam_file_tag: "okE (\<lambda>(r, w'). mismo_tam w w') (file_tag_en_memoria ext ident w)"
  unfolding file_tag_en_memoria_def agregar_file_tag_en_memoria_def Let_def
  by (auto intro!: consultas tam_metadata[THEN okE_mono] split: prod.split option.split
      dest!: tam_generar simp: mismo_tam_def)

lemma tam_free_file_tag: "okE (mismo_tam w) (free_file_tag r w)"
proof -
  have f: "okE (mismo_tam w) (foldE free_pagina ps w)" for ps w
  proof (induction ps arbitrary: w)
    case (Cons p ps)
    show ?case
      using Cons.IH by (auto intro!: tam_frame okE_mono[OF Cons.IH] elim: mismo_tam_trans)
  qed simp
  show ?thesis
    unfolding free_file_tag_def Let_def
    by (auto intro!: consultas f[THEN okE_mono] split: option.split simp: mismo_tam_def)
qed

lemma tam_notificar: "okE (mismo_tam w) (notificar_cambios ext p ident off w)"
  unfolding notificar_cambios_def
  by (auto intro!: consultas dest!: tam_en_entorno simp: notif_query_error_def mismo_tam_def
      split: prod.split option.split)

lemma tam_evict:
  "okE (\<lambda>(n, w'). mismo_tam w w') (actualizar_pagina p w)"
  "okE (mismo_tam w) (check_file_tag ext a b w)"
  unfolding actualizar_pagina_def check_file_tag_def
  by (auto intro!: consultas tam_frame tam_file_tag[THEN okE_mono] tam_free_file_tag[THEN okE_mono]
      simp: mismo_tam_def)

lemmas tam_evict_wp [tam_frame] = tam_metadata[THEN okE_mono] tam_file_tag[THEN okE_mono]
  tam_free_file_tag[THEN okE_mono] tam_notificar[THEN okE_mono] tam_evict[THEN okE_mono]

lemma tam_lru: "okE (\<lambda>(n, w'). mismo_tam w w') (algoritmo_LRU ext a w)"
  unfolding algoritmo_LRU_def Let_def
  by (auto intro!: consultas tam_frame simp: mismo_tam_def)

lemma tam_pasadas:
  "okE (\<lambda>(b, w'). mismo_tam w w') (clock_pasada_1 k w)"
  "okE (\<lambda>(b, w'). mismo_tam w w') (clock_pasada_2 k w)"
proof (induction k arbitrary: w)
  case (Suc k)
  { case 1
    show ?case
      by (auto intro!: consultas tam_frame Suc.IH(1)[THEN okE_mono] simp: mismo_tam_def)
  next
    case 2
    show ?case
      by (auto intro!: consultas tam_frame Suc.IH(2)[THEN okE_mono] simp: mismo_tam_def) }
qed simp_all

lemma tam_clock: "okE (mismo_tam w) (clock_buscar v w)"
proof (induction v arbitrary: w)
  case (Suc v)
  show ?case
    by (auto intro!: tam_pasadas[THEN okE_mono] Suc.IH[THEN okE_mono] simp: mismo_tam_def)
qed simp

lemma tam_clock_m: "okE (\<lambda>(n, w'). mismo_tam w w') (algoritmo_CLOCK_M v ext a w)"
  unfolding algoritmo_CLOCK_M_def
  by (auto intro!: consultas tam_frame tam_clock[THEN okE_mono] simp: mismo_tam_def)

lemmas tam_alg_wp [tam_frame] = tam_lru[THEN okE_mono] tam_clock_m[THEN okE_mono]

lemma tam_reemplazo: "okE (\<lambda>(n, w'). mismo_tam w w') (algoritmo_reemplazo v ext a w)"
  unfolding algoritmo_reemplazo_def by (auto intro!: tam_frame)

lemma tam_sellar: "mismo_tam w (sellar_marco ext i w)"
  by (auto simp: sellar_marco_def mismo_tam_def dest!: tam_en_entorno split: prod.splits)

lemma tam_interaccion:
  "okE (mismo_tam w) (interaccion_escribir ext dest src i w)"
  "okE (\<lambda>(bs, w'). mismo_tam w w') (interaccion_leer ext src' n i w)"
  unfolding interaccion_escribir_def interaccion_leer_def
  by (auto intro!: consultas tam_frame intro: mismo_tam_trans[OF _ tam_sellar] tam_sellar)

lemma tam_solicitar: "okE (\<lambda>(p, w'). mismo_tam w w') (solicitar_pagina v ext ident nro w)"
  unfolding solicitar_pagina_def asignar_marco_def cargar_def Let_def
  by (auto intro!: consultas tam_frame tam_reemplazo[THEN okE_mono] dest!: tam_en_entorno
      simp: mismo_tam_def split: prod.split option.split list.split)

lemma tam_quitar: "okE (mismo_tam w) (repeatE k (quitar_ultima r) w)"
proof (induction k arbitrary: w)
  case (Suc k)
  have "okE (mismo_tam w) (quitar_ultima r w)"
    unfolding quitar_ultima_def by (auto intro!: consultas tam_frame simp: mismo_tam_def)
  then show ?case
    by (auto intro!: Suc.IH[THEN okE_mono] elim!: okE_mono simp: mismo_tam_def)
qed simp

lemma tam_actualizar: "okE (mismo_tam w) (actualizar_tabla ext r w)"
  unfolding actualizar_tabla_def Let_def
  by (auto intro!: consultas tam_frame tam_quitar[THEN okE_mono] dest!: tam_generar
      simp: mismo_tam_def split: prod.split)

lemma tam_pagina_en_Tabla: "okE (\<lambda>(p, w'). mismo_tam w w') (pagina_en_Tabla v ext ident nro w)"
  unfolding pagina_en_Tabla_def
  by (auto intro!: consultas tam_frame tam_actualizar[THEN okE_mono] tam_solicitar[THEN okE_mono]
      simp: mismo_tam_def)

section \<open>Writing across pages\<close>

text \<open>Each following page takes a page of what is left, or all of it when less is left.\<close>

lemma escribir_resto_queda:
  assumes "0 < tam_pagina w"
  shows "okE (\<lambda>(queda, w'). queda = drop (k * nat (tam_pagina w)) resto)
    (escribir_resto v ext ident k nro resto w)"
  using assms
proof (induction k arbitrary: nro resto w)
  case (Suc k)
  let ?t = "nat (tam_pagina w)"
  let ?n = "if int (length resto) < tam_pagina w then length resto else ?t"
  have d: "drop (k * ?t) (drop ?n resto) = drop (Suc k * ?t) resto"
    using Suc.prems by (auto simp: add.commute)
  have rec: "okE (\<lambda>(queda, w'). queda = drop (Suc k * ?t) resto)
      (escribir_resto v ext ident k (nro + 1) (drop ?n resto) w1)" if m: "mismo_tam w w1" for w1
  proof -
    have t: "tam_pagina w1 = tam_pagina w" "0 < tam_pagina w1"
      using m Suc.prems by (simp_all add: mismo_tam_def)
    from Suc.IH[OF t(2), of "drop ?n resto" "nro + 1"] show ?thesis unfolding t(1) d .
  qed
  have step: "okE (\<lambda>(queda, w'). queda = drop (Suc k * ?t) resto)
      (bindE (interaccion_escribir ext (p_marco i w1)
          (take (if int (length resto) < tam_pagina w1 then length resto else nat (tam_pagina w1)) resto) i w1)
        (escribir_resto v ext ident k (nro + 1)
          (drop (if int (length resto) < tam_pagina w1 then length resto else nat (tam_pagina w1)) resto)))"
    if m: "mismo_tam w w1" for w1 i
  proof -
    have t: "tam_pagina w1 = tam_pagina w" using m by (simp add: mismo_tam_def)
    show ?thesis
      unfolding t okE_bindE
      by (rule tam_interaccion(1)[THEN okE_mono]) (rule rec, use m in \<open>auto intro: mismo_tam_trans\<close>)
  qed
  have menos: "okE (\<lambda>w2. okE (\<lambda>(queda, w'). queda = drop (?t + k * ?t) resto)
        (escribir_resto v ext ident k (nro + 1) [] w2)) (interaccion_escribir ext (p_marco i w1) resto i w1)"
    if "mismo_tam w w0" "mismo_tam w0 w1" "int (length resto) < tam_pagina w1" for w0 w1 i
    using step[OF mismo_tam_trans[OF that(1,2)], of i] that(3) by simp
  have mas: "okE (\<lambda>w2. okE (\<lambda>(queda, w'). queda = drop (?t + k * ?t) resto)
        (escribir_resto v ext ident k (nro + 1) (drop (nat (tam_pagina w1)) resto) w2))
      (interaccion_escribir ext (p_marco i w1) (take (nat (tam_pagina w1)) resto) i w1)"
    if "mismo_tam w w0" "mismo_tam w0 w1" "\<not> int (length resto) < tam_pagina w1" for w0 w1 i
    using step[OF mismo_tam_trans[OF that(1,2)], of i] that(3) by simp
  show ?case
    by (auto intro!: consultas tam_pagina_en_Tabla[THEN okE_mono] tam_steps(1)[THEN okE_mono]
        menos mas simp: Let_def split: prod.splits)
qed simp


lemma escribir_pagina_queda:
  assumes "paginas w p = Some pg" and "0 < tam_pagina w"
    and "direccion - tam_pagina w * nro_pagina pg = d" and "0 \<le> d" and "d < tam_pagina w"
  shows "okE (\<lambda>(queda, w').
      queda = drop (nat (tam_pagina w - d)
                    + (nat (techo (int (length datos)) (tam_pagina w)) - 1) * nat (tam_pagina w)) datos)
    (escribir_pagina v ext p ident direccion datos w)"
proof -
  let ?t = "tam_pagina w"
  let ?k = "nat (techo (int (length datos)) ?t) - 1"
  have resto: "okE (\<lambda>(queda, w'). queda = drop (nat (?t - d) + ?k * nat ?t) datos)
      (escribir_resto v ext ident (nat (techo (int (length datos)) (tam_pagina w1)) - 1) nro
        (drop (nat (tam_pagina w1 - d)) datos) w2)"
    if "mismo_tam w w1" "mismo_tam w1 w2" for w1 w2 nro
  proof -
    have t: "tam_pagina w1 = ?t" "tam_pagina w2 = ?t" using that by (simp_all add: mismo_tam_def)
    show ?thesis
      using escribir_resto_queda[of w2 ?k "drop (nat (?t - d)) datos" v ext ident nro] assms(2)
      unfolding t by (simp add: add.commute)
  qed
  have cabe: "okE (\<lambda>w'. length datos \<le> nat (?t - d) + ?k * nat ?t)
      (interaccion_escribir ext dest datos i w1)"
    if "mismo_tam w w1" "int (length datos) \<le> tam_pagina w - d" for dest i w1
    by (rule okE_I) (use that in linarith)
  have sigue: "okE (\<lambda>w2. okE (\<lambda>(queda, w'). queda = drop (nat (?t - d) + ?k * nat ?t) datos)
        (escribir_resto v ext ident (nat (techo (int (length datos)) (tam_pagina w2)) - 1) nro
          (drop (nat (?t - d)) datos) w2))
      (interaccion_escribir ext dest src i w1)"
    if m: "mismo_tam w w1" for dest src i nro w1
  proof (rule tam_interaccion(1)[THEN okE_mono])
    fix w2 assume "mismo_tam w1 w2"
    with resto[OF m, of w2] m show "okE (\<lambda>(queda, w'). queda = drop (nat (?t - d) + ?k * nat ?t) datos)
        (escribir_resto v ext ident (nat (techo (int (length datos)) (tam_pagina w2)) - 1) nro
          (drop (nat (?t - d)) datos) w2)"
      by (simp add: mismo_tam_def)
  qed
  show ?thesis
    unfolding escribir_pagina_def Let_def deref_Some[of "paginas w", OF assms(1)] assms(3) bindE.simps(2)
    using assms(4,5)
    by (auto intro!: consultas tam_steps(1)[THEN okE_mono] cabe[unfolded One_nat_def]
          sigue[unfolded One_nat_def])
qed

end
