(* ===== verification/Worker_Inv.thy ===== *)
theory Worker_Inv
  imports Worker_Acceso
begin

text \<open>
  The invariant of the worker's memory: page tables, frames and bitmap agree, and a File:Tag
  counts at least its pages in memory. First the predicates and what each kind of change does
  to them, then each operation of the memory.
\<close>

section \<open>The invariant\<close>

definition presente :: "'e worker \<Rightarrow> nat \<Rightarrow> bool" where
  "presente w p \<longleftrightarrow> (\<exists>pg. paginas w p = Some pg \<and> presencia pg)"

definition presentes :: "'e worker \<Rightarrow> nat list \<Rightarrow> nat" where
  "presentes w ps = length (filter (presente w) ps)"

definition en_tabla :: "'e worker \<Rightarrow> nat \<Rightarrow> nat \<Rightarrow> bool" where
  "en_tabla w r p \<longleftrightarrow> (\<exists>ft. file_tags w r = Some ft \<and> p \<in> set (tabla_paginas ft))"

text \<open>A taken frame: the page it holds knows it.\<close>

definition ocupa :: "'e worker \<Rightarrow> nat \<Rightarrow> nat \<Rightarrow> nat \<Rightarrow> bool" where
  "ocupa w i r p \<longleftrightarrow>
     i < cantidad_marcos w \<and> bit_map w ! i \<and> m_identificador (marco w ! i) = Some r \<and>
     m_pagina (marco w ! i) = Some p \<and>
     (\<exists>pg. paginas w p = Some pg \<and> presencia pg \<and> nro_marco pg = int i)"

definition tabla_ok :: "'e worker \<Rightarrow> file_tag \<Rightarrow> bool" where
  "tabla_ok w ft \<longleftrightarrow>
     distinct (tabla_paginas ft) \<and>
     (\<forall>k < length (tabla_paginas ft).
        \<exists>pg. paginas w (tabla_paginas ft ! k) = Some pg \<and> nro_pagina pg = int k)"

text \<open>The list of File:Tags: every entry is live and no two have the same identifier.\<close>

definition tablas_ok :: "'e worker \<Rightarrow> bool" where
  "tablas_ok w \<longleftrightarrow>
     (\<forall>r \<in> set (file_tag_pages w). file_tags w r \<noteq> None) \<and>
     distinct (map (\<lambda>r. map to_lower (identificador (the (file_tags w r)))) (file_tag_pages w))"

definition tamanios_ok :: "'e worker \<Rightarrow> bool" where
  "tamanios_ok w \<longleftrightarrow>
     0 < tam_pagina w \<and> length (marco w) = cantidad_marcos w \<and>
     cantidad_marcos w \<le> length (bit_map w) \<and>
     int (cantidad_marcos w) * tam_pagina w \<le> int (length (memoria w))"

definition refs_ok :: "'e worker \<Rightarrow> bool" where
  "refs_ok w \<longleftrightarrow>
     (\<forall>r. file_tags w r \<noteq> None \<longrightarrow> r \<in> set (file_tag_pages w) \<and> r < next_ref w) \<and>
     (\<forall>p. paginas w p \<noteq> None \<longrightarrow> p < next_ref w)"

definition marcos_tablas_ok :: "'e worker \<Rightarrow> bool" where
  "marcos_tablas_ok w \<longleftrightarrow>
     (\<forall>r p. en_tabla w r p \<longrightarrow> presente w p \<longrightarrow> (\<exists>i. ocupa w i r p)) \<and>
     (\<forall>i < cantidad_marcos w. bit_map w ! i \<longrightarrow> (\<exists>r p. ocupa w i r p \<and> en_tabla w r p))"

definition forma_ok :: "'e worker \<Rightarrow> bool" where
  "forma_ok w \<longleftrightarrow>
     tamanios_ok w \<and> tablas_ok w \<and> refs_ok w \<and>
     (\<forall>r ft. file_tags w r = Some ft \<longrightarrow> tabla_ok w ft) \<and>
     (\<forall>r r' p. en_tabla w r p \<longrightarrow> en_tabla w r' p \<longrightarrow> r = r') \<and>
     marcos_tablas_ok w"

text \<open>The counts, with room for the pages of \<open>holgura\<close> that are about to be counted out.\<close>

definition cuentas_ok :: "(nat \<Rightarrow> nat) \<Rightarrow> 'e worker \<Rightarrow> bool" where
  "cuentas_ok holgura w \<longleftrightarrow>
     (\<forall>r ft. file_tags w r = Some ft \<longrightarrow>
        int (presentes w (tabla_paginas ft) + holgura r) \<le> cantidad_paginas ft)"

definition mem_ok :: "'e worker \<Rightarrow> bool" where
  "mem_ok w \<longleftrightarrow> forma_ok w \<and> cuentas_ok (\<lambda>r. 0) w"

lemma forma_okD:
  assumes "forma_ok w"
  shows "tamanios_ok w" "tablas_ok w" "refs_ok w" "marcos_tablas_ok w"
    "file_tags w r = Some ft \<Longrightarrow> tabla_ok w ft"
    "en_tabla w r p \<Longrightarrow> en_tabla w r' p \<Longrightarrow> r = r'"
  using assms by (auto simp: forma_ok_def)

lemma forma_okI:
  assumes "tamanios_ok w" "tablas_ok w" "refs_ok w"
    and "\<And>r ft. file_tags w r = Some ft \<Longrightarrow> tabla_ok w ft"
    and "\<And>r r' p. en_tabla w r p \<Longrightarrow> en_tabla w r' p \<Longrightarrow> r = r'"
    and "\<And>r p. en_tabla w r p \<Longrightarrow> presente w p \<Longrightarrow> \<exists>i. ocupa w i r p"
    and "\<And>i. i < cantidad_marcos w \<Longrightarrow> bit_map w ! i \<Longrightarrow> \<exists>r p. ocupa w i r p \<and> en_tabla w r p"
  shows "forma_ok w"
  unfolding forma_ok_def marcos_tablas_ok_def using assms by blast

lemma refs_okD:
  assumes "forma_ok w"
  shows "file_tags w r = Some ft \<Longrightarrow> r \<in> set (file_tag_pages w)"
    "file_tags w r = Some ft \<Longrightarrow> r < next_ref w" "paginas w p = Some pg \<Longrightarrow> p < next_ref w"
  using forma_okD(3)[OF assms] by (auto simp: refs_ok_def)

lemma tamanios_okD:
  assumes "forma_ok w"
  shows "0 < tam_pagina w" "length (marco w) = cantidad_marcos w"
    "cantidad_marcos w \<le> length (bit_map w)"
    "i < cantidad_marcos w \<Longrightarrow> int (Suc i) * tam_pagina w \<le> int (length (memoria w))"
proof -
  note t = forma_okD(1)[OF assms, unfolded tamanios_ok_def]
  from t show "0 < tam_pagina w" "length (marco w) = cantidad_marcos w"
    "cantidad_marcos w \<le> length (bit_map w)" by simp_all
  assume "i < cantidad_marcos w"
  then have "int (Suc i) * tam_pagina w \<le> int (cantidad_marcos w) * tam_pagina w"
    using t by (intro mult_right_mono) auto
  also have "\<dots> \<le> int (length (memoria w))" using t by simp
  finally show "int (Suc i) * tam_pagina w \<le> int (length (memoria w))" .
qed

lemma marco_de_presente:
  assumes "forma_ok w" and "en_tabla w r p" and "presente w p"
  shows "\<exists>i. ocupa w i r p"
  using forma_okD(4)[OF assms(1)] assms(2,3) unfolding marcos_tablas_ok_def by blast

lemma pagina_de_marco:
  assumes "forma_ok w" and "i < cantidad_marcos w" and "bit_map w ! i"
  shows "\<exists>r p. ocupa w i r p \<and> en_tabla w r p"
  using forma_okD(4)[OF assms(1)] assms(2,3) unfolding marcos_tablas_ok_def by blast

lemma ocupa_presente: "ocupa w i r p \<Longrightarrow> presente w p"
  by (auto simp: ocupa_def presente_def)

lemma buscar_propio:
  assumes "\<forall>r \<in> set rs. file_tags w r \<noteq> None"
    and "distinct (map (\<lambda>r. map to_lower (identificador (the (file_tags w r)))) rs)"
    and "r \<in> set rs" and "file_tags w r = Some ft"
  shows "buscar_file_tag (identificador ft) rs w = Inr (Some r)"
  using assms
proof (induction rs)
  case (Cons a rs)
  obtain fa where fa: "file_tags w a = Some fa" using Cons.prems(1) by fastforce
  show ?case
  proof (cases "r = a")
    case False
    then have r: "r \<in> set rs" using Cons.prems(3) by simp
    then have "map to_lower (identificador fa) \<noteq> map to_lower (identificador ft)"
      using Cons.prems(2,4) fa by (metis (no_types, lifting) distinct.simps(2) image_eqI list.simps(9) list.set_map option.sel)
    with Cons r fa show ?thesis by (simp add: string_equals_ignore_case_def)
  qed (use Cons.prems(4) in \<open>simp add: string_equals_ignore_case_def\<close>)
qed simp

section \<open>Changes that keep the shape\<close>

text \<open>
  Two states of the same shape differ in contents, messages, times, counts and the use and
  modified bits.
\<close>

definition forma_pagina :: "nodo_pagina \<Rightarrow> int \<times> int \<times> bool" where
  "forma_pagina pg = (nro_pagina pg, nro_marco pg, presencia pg)"

definition forma_ft :: "file_tag \<Rightarrow> string \<times> nat list" where
  "forma_ft ft = (identificador ft, tabla_paginas ft)"

definition misma_forma :: "'e worker \<Rightarrow> 'e worker \<Rightarrow> bool" where
  "misma_forma w w' \<longleftrightarrow>
     tam_pagina w' = tam_pagina w \<and> cantidad_marcos w' = cantidad_marcos w \<and>
     bit_map w' = bit_map w \<and> file_tag_pages w' = file_tag_pages w \<and> next_ref w' = next_ref w \<and>
     length (memoria w') = length (memoria w) \<and> length (marco w') = length (marco w) \<and>
     (\<forall>i. m_identificador (marco w' ! i) = m_identificador (marco w ! i) \<and>
          m_pagina (marco w' ! i) = m_pagina (marco w ! i)) \<and>
     (\<forall>p. map_option forma_pagina (paginas w' p) = map_option forma_pagina (paginas w p)) \<and>
     (\<forall>r. map_option forma_ft (file_tags w' r) = map_option forma_ft (file_tags w r))"

lemma misma_forma_refl [simp]: "misma_forma w w"
  by (simp add: misma_forma_def)

lemma misma_forma_trans: "misma_forma w1 w2 \<Longrightarrow> misma_forma w2 w3 \<Longrightarrow> misma_forma w1 w3"
  by (simp add: misma_forma_def)

lemma misma_forma_pagina:
  assumes "misma_forma w w'"
  shows "(\<exists>pg'. paginas w' p = Some pg' \<and> P (forma_pagina pg')) \<longleftrightarrow>
         (\<exists>pg. paginas w p = Some pg \<and> P (forma_pagina pg))"
proof -
  have "map_option forma_pagina (paginas w' p) = map_option forma_pagina (paginas w p)"
    using assms by (simp add: misma_forma_def)
  then show ?thesis by (cases "paginas w p"; cases "paginas w' p") auto
qed

lemma misma_forma_ft:
  assumes "misma_forma w w'"
  shows "(\<exists>ft'. file_tags w' r = Some ft' \<and> P (forma_ft ft')) \<longleftrightarrow>
         (\<exists>ft. file_tags w r = Some ft \<and> P (forma_ft ft))"
proof -
  have "map_option forma_ft (file_tags w' r) = map_option forma_ft (file_tags w r)"
    using assms by (simp add: misma_forma_def)
  then show ?thesis by (cases "file_tags w r"; cases "file_tags w' r") auto
qed

lemma misma_forma_presente: "misma_forma w w' \<Longrightarrow> presente w' = presente w"
  using misma_forma_pagina[of w w' _ "\<lambda>(n, m, b). b"]
  by (auto simp: presente_def forma_pagina_def fun_eq_iff)

lemma misma_forma_presentes: "misma_forma w w' \<Longrightarrow> presentes w' = presentes w"
  by (simp add: presentes_def misma_forma_presente fun_eq_iff)

lemma misma_forma_en_tabla: "misma_forma w w' \<Longrightarrow> en_tabla w' = en_tabla w"
  using misma_forma_ft[of w w' _ "\<lambda>(i, t). p \<in> set t" for p]
  by (auto simp: en_tabla_def forma_ft_def fun_eq_iff)

lemma misma_forma_ocupa: "misma_forma w w' \<Longrightarrow> ocupa w' = ocupa w"
  using misma_forma_pagina[of w w' _ "\<lambda>(n, m, b). b \<and> m = int i" for i]
  by (auto simp: ocupa_def forma_pagina_def fun_eq_iff misma_forma_def[of w w'])

lemma misma_forma_tabla_ok:
  assumes "misma_forma w w'" and "file_tags w' r = Some ft'"
  obtains ft where "file_tags w r = Some ft" "tabla_paginas ft = tabla_paginas ft'"
    "identificador ft = identificador ft'" "tabla_ok w ft \<Longrightarrow> tabla_ok w' ft'"
proof -
  obtain ft where ft: "file_tags w r = Some ft" "forma_ft ft = forma_ft ft'"
    using misma_forma_ft[OF assms(1), of r "\<lambda>f. f = forma_ft ft'"] assms(2) by auto
  then show thesis
    using misma_forma_pagina[OF assms(1), of _ "\<lambda>(n, m, b). n = int k" for k]
    by (intro that[of ft]) (auto simp: tabla_ok_def forma_ft_def forma_pagina_def)
qed

lemma misma_forma_vivos: "misma_forma w w' \<Longrightarrow> file_tags w' r = None \<longleftrightarrow> file_tags w r = None"
  using misma_forma_ft[of w w' r "\<lambda>_. True"] by auto

lemma misma_forma_ident:
  "misma_forma w w' \<Longrightarrow> map_option identificador (file_tags w' r) = map_option identificador (file_tags w r)"
  by (cases "file_tags w' r")
     (auto elim: misma_forma_tabla_ok simp: misma_forma_vivos)

lemma misma_forma_ok:
  assumes m: "misma_forma w w'" and ok: "forma_ok w"
  shows "forma_ok w'"
proof -
  have "tablas_ok w'"
  proof -
    have "identificador (the (file_tags w' r)) = identificador (the (file_tags w r))"
      if "file_tags w r \<noteq> None" for r
      using misma_forma_ident[OF m, of r] misma_forma_vivos[OF m, of r] that
      by (cases "file_tags w' r"; cases "file_tags w r") auto
    then have eq: "map (\<lambda>r. map to_lower (identificador (the (file_tags w' r)))) (file_tag_pages w) =
        map (\<lambda>r. map to_lower (identificador (the (file_tags w r)))) (file_tag_pages w)"
      using forma_okD(2)[OF ok] by (auto simp: tablas_ok_def)
    have ftp: "file_tag_pages w' = file_tag_pages w" using m by (simp add: misma_forma_def)
    show ?thesis
      using forma_okD(2)[OF ok] unfolding tablas_ok_def ftp eq misma_forma_vivos[OF m] .
  qed
  moreover have "tamanios_ok w'" using forma_okD(1)[OF ok] m by (simp add: tamanios_ok_def misma_forma_def)
  moreover have "refs_ok w'"
  proof -
    have "paginas w' p = None \<longleftrightarrow> paginas w p = None" for p
      using misma_forma_pagina[OF m, of p "\<lambda>_. True"] by auto
    moreover have "file_tag_pages w' = file_tag_pages w" "next_ref w' = next_ref w"
      using m by (simp_all add: misma_forma_def)
    ultimately show ?thesis
      using forma_okD(3)[OF ok] unfolding refs_ok_def by (simp only: misma_forma_vivos[OF m])
  qed
  moreover have "tabla_ok w' ft'" if "file_tags w' r = Some ft'" for r ft'
    using misma_forma_tabla_ok[OF m that] forma_okD(5)[OF ok] by metis
  moreover have "marcos_tablas_ok w'"
  proof -
    have "cantidad_marcos w' = cantidad_marcos w" "bit_map w' = bit_map w"
      using m by (simp_all add: misma_forma_def)
    then show ?thesis
      using forma_okD(4)[OF ok]
      by (simp only: marcos_tablas_ok_def misma_forma_en_tabla[OF m] misma_forma_ocupa[OF m]
          misma_forma_presente[OF m])
  qed
  ultimately show ?thesis
    using forma_okD(6)[OF ok] unfolding forma_ok_def misma_forma_en_tabla[OF m] by blast
qed

section \<open>Changes of the shape\<close>

lemma presentes_menos:
  assumes "distinct ps" and "p \<in> set ps" and "presente w p"
    and "\<And>q. presente w' q \<longleftrightarrow> presente w q \<and> q \<noteq> p"
  shows "presentes w' ps + 1 = presentes w ps"
  using assms(1,2)
proof (induction ps)
  case (Cons a ps)
  show ?case
  proof (cases "a = p")
    case True
    then have "p \<notin> set ps" using Cons.prems by simp
    then have "filter (presente w') ps = filter (presente w) ps"
      using assms(4) by (intro filter_cong) auto
    then show ?thesis using True assms(3,4) by (simp add: presentes_def)
  next
    case False
    then show ?thesis using Cons assms(4) by (simp add: presentes_def)
  qed
qed simp

lemma presentes_cong:
  "(\<And>q. q \<in> set ps \<Longrightarrow> presente w' q \<longleftrightarrow> presente w q) \<Longrightarrow> presentes w' ps = presentes w ps"
  unfolding presentes_def by (metis filter_cong)

lemma presentes_cero: "presentes w ps = 0 \<longleftrightarrow> (\<forall>p \<in> set ps. \<not> presente w p)"
  by (simp add: presentes_def filter_empty_conv)

text \<open>A page leaves its frame.\<close>

definition desocupar :: "nat \<Rightarrow> nat \<Rightarrow> (nodo_pagina \<Rightarrow> nodo_pagina) \<Rightarrow> 'e worker \<Rightarrow> 'e worker" where
  "desocupar i p f w =
     w\<lparr>bit_map := (bit_map w)[i := False], paginas := (paginas w)(p := map_option f (paginas w p))\<rparr>"

lemma desocupar_ok:
  assumes ok: "forma_ok w" and oc: "ocupa w i r p" and en: "en_tabla w r p"
    and f: "\<And>pg. nro_pagina (f pg) = nro_pagina pg \<and> \<not> presencia (f pg)"
  shows "forma_ok (desocupar i p f w)"
    and "presente (desocupar i p f w) q \<longleftrightarrow> presente w q \<and> q \<noteq> p"
    and "cuentas_ok (\<lambda>r. 0) w \<Longrightarrow> cuentas_ok (\<lambda>s. if s = r then 1 else 0) (desocupar i p f w)"
proof -
  let ?w = "desocupar i p f w"
  obtain pg where pg: "paginas w p = Some pg" "presencia pg" "nro_marco pg = int i"
    and i: "i < cantidad_marcos w" "m_pagina (marco w ! i) = Some p"
    using oc by (auto simp: ocupa_def)
  have pr: "presente ?w q \<longleftrightarrow> presente w q \<and> q \<noteq> p" for q
    using f by (auto simp: presente_def desocupar_def)
  then show "presente ?w q \<longleftrightarrow> presente w q \<and> q \<noteq> p" .
  have et: "en_tabla ?w = en_tabla w" by (simp add: en_tabla_def desocupar_def fun_eq_iff)
  have len: "i < length (bit_map w)" using i(1) tamanios_okD(3)[OF ok] by simp
  have oc': "ocupa ?w j s q \<longleftrightarrow> ocupa w j s q \<and> j \<noteq> i" for j s q
  proof (cases "q = p")
    case True
    then show ?thesis using pg f by (auto simp: ocupa_def desocupar_def)
  next
    case False
    then show ?thesis using i(2) len by (auto simp: ocupa_def desocupar_def nth_list_update)
  qed
  have tok: "tabla_ok ?w ft" if "tabla_ok w ft" for ft
    using that f by (auto simp: tabla_ok_def desocupar_def)
  have 1: "\<exists>j. ocupa ?w j s q" if "en_tabla ?w s q" "presente ?w q" for s q
  proof -
    have "\<exists>j. ocupa w j s q" using marco_de_presente[OF ok, of s q] that et pr by auto
    then obtain j where j: "ocupa w j s q" by blast
    have "q \<noteq> p" using pr that(2) by blast
    moreover have "m_pagina (marco w ! j) = Some q" using j by (simp add: ocupa_def)
    ultimately have "j \<noteq> i" using i(2) by auto
    with j show ?thesis unfolding oc' by blast
  qed
  have 2: "\<exists>s q. ocupa ?w j s q \<and> en_tabla ?w s q" if "j < cantidad_marcos ?w" "bit_map ?w ! j" for j
  proof -
    have "j < cantidad_marcos w" "bit_map w ! j" "j \<noteq> i"
      using that len by (auto simp: desocupar_def nth_list_update split: if_splits)
    then show ?thesis using pagina_de_marco[OF ok, of j] unfolding et oc' by blast
  qed
  have ft: "file_tags ?w = file_tags w" by (simp add: desocupar_def)
  have "paginas ?w q = None \<longleftrightarrow> paginas w q = None" for q by (simp add: desocupar_def)
  then have "refs_ok ?w" using forma_okD(3)[OF ok] by (simp add: refs_ok_def ft) (simp add: desocupar_def)
  moreover have "tamanios_ok ?w" using forma_okD(1)[OF ok] by (simp add: tamanios_ok_def desocupar_def)
  moreover have "tablas_ok ?w" using forma_okD(2)[OF ok] by (simp add: tablas_ok_def desocupar_def)
  ultimately show "forma_ok ?w"
  proof (intro forma_okI; (elim 1 2)?)
    show "tabla_ok ?w t" if "file_tags ?w s = Some t" for s t
      using that forma_okD(5)[OF ok] tok unfolding ft by blast
    show "s = s'" if "en_tabla ?w s q" "en_tabla ?w s' q" for s s' q
      using that forma_okD(6)[OF ok] unfolding et by blast
  qed
  assume c: "cuentas_ok (\<lambda>r. 0) w"
  have "presentes ?w (tabla_paginas ft) + (if s = r then 1 else 0) = presentes w (tabla_paginas ft)"
    if ft: "file_tags w s = Some ft" for s ft
  proof (cases "s = r")
    case True
    then have "p \<in> set (tabla_paginas ft)" using en ft by (auto simp: en_tabla_def)
    moreover have "distinct (tabla_paginas ft)" using forma_okD(5)[OF ok ft] by (simp add: tabla_ok_def)
    ultimately show ?thesis
      using presentes_menos[of "tabla_paginas ft" p w ?w] ocupa_presente[OF oc] pr True by simp
  next
    case False
    then have "p \<notin> set (tabla_paginas ft)" using forma_okD(6)[OF ok en, of s] ft by (auto simp: en_tabla_def)
    then show ?thesis using False pr by (auto intro!: presentes_cong)
  qed
  then show "cuentas_ok (\<lambda>s. if s = r then 1 else 0) ?w"
    using c by (simp add: cuentas_ok_def desocupar_def)
qed

text \<open>A page takes a free frame.\<close>

definition ocupar :: "nat \<Rightarrow> nat \<Rightarrow> nat \<Rightarrow> byte list \<Rightarrow> 'e worker \<Rightarrow> 'e worker" where
  "ocupar i r p m w =
     w\<lparr>bit_map := (bit_map w)[i := True], memoria := m,
       paginas := (paginas w)(p := map_option (\<lambda>pg. pg\<lparr>nro_marco := int i, presencia := True\<rparr>) (paginas w p)),
       marco := (marco w)[i := (marco w ! i)\<lparr>m_identificador := Some r, m_pagina := Some p\<rparr>],
       file_tags := (file_tags w)(r := map_option
         (\<lambda>ft. ft\<lparr>cantidad_paginas := cantidad_paginas ft + 1\<rparr>) (file_tags w r))\<rparr>"

lemma ocupar_ok:
  assumes ok: "mem_ok w" and i: "i < cantidad_marcos w" "\<not> bit_map w ! i"
    and en: "en_tabla w r p" and np: "\<not> presente w p" and m: "length m = length (memoria w)"
  shows "mem_ok (ocupar i r p m w)"
proof -
  let ?w = "ocupar i r p m w"
  have fo: "forma_ok w" and cu: "cuentas_ok (\<lambda>r. 0) w" using ok by (simp_all add: mem_ok_def)
  have len: "i < length (bit_map w)" "i < length (marco w)"
    using i(1) tamanios_okD(2,3)[OF fo] by simp_all
  obtain ft where ft: "file_tags w r = Some ft" "p \<in> set (tabla_paginas ft)"
    using en by (auto simp: en_tabla_def)
  obtain pg where pg: "paginas w p = Some pg"
    using forma_okD(5)[OF fo ft(1)] ft(2) by (auto simp: tabla_ok_def in_set_conv_nth)
  have pr: "presente ?w q \<longleftrightarrow> presente w q \<or> q = p" for q
    using pg by (auto simp: presente_def ocupar_def)
  have et: "en_tabla ?w = en_tabla w" by (auto simp: en_tabla_def ocupar_def fun_eq_iff)
  have oc1: "ocupa ?w i r p" using i len pg by (auto simp: ocupa_def ocupar_def)
  have oc2: "ocupa ?w j s q" if "ocupa w j s q" for j s q
  proof -
    have "j \<noteq> i" using that i(2) by (auto simp: ocupa_def)
    moreover have "q \<noteq> p" using ocupa_presente[OF that] np by auto
    ultimately show ?thesis using that by (auto simp: ocupa_def ocupar_def)
  qed
  have 1: "\<exists>j. ocupa ?w j s q" if "en_tabla ?w s q" "presente ?w q" for s q
  proof (cases "q = p")
    case True
    then have "s = r" using forma_okD(6)[OF fo, of s p r] that(1) en et by metis
    with True oc1 show ?thesis by blast
  next
    case False
    then have "\<exists>j. ocupa w j s q" using marco_de_presente[OF fo, of s q] that et pr by auto
    then show ?thesis using oc2 by blast
  qed
  have 2: "\<exists>s q. ocupa ?w j s q \<and> en_tabla ?w s q" if "j < cantidad_marcos ?w" "bit_map ?w ! j" for j
  proof (cases "j = i")
    case True
    then show ?thesis using oc1 en et by metis
  next
    case False
    then have "j < cantidad_marcos w" "bit_map w ! j" using that by (auto simp: ocupar_def)
    then show ?thesis using pagina_de_marco[OF fo, of j] oc2 unfolding et by blast
  qed
  have tok: "tabla_ok ?w ft'" if "tabla_ok w ft" "tabla_paginas ft' = tabla_paginas ft" for ft ft'
    using that by (auto simp: tabla_ok_def ocupar_def)
  have tabs: "tabla_ok ?w ft'" if "file_tags ?w s = Some ft'" for s ft'
  proof -
    have "\<exists>ft0. file_tags w s = Some ft0 \<and> tabla_paginas ft' = tabla_paginas ft0"
      using that by (auto simp: ocupar_def split: if_splits)
    then show ?thesis using forma_okD(5)[OF fo] tok by blast
  qed
  have vivos: "paginas ?w q = None \<longleftrightarrow> paginas w q = None" "file_tags ?w s = None \<longleftrightarrow> file_tags w s = None" for q s
    by (simp_all add: ocupar_def)
  have "refs_ok ?w" using forma_okD(3)[OF fo] by (simp add: refs_ok_def vivos) (simp add: ocupar_def)
  moreover have "tamanios_ok ?w" using forma_okD(1)[OF fo] m by (simp add: tamanios_ok_def ocupar_def)
  moreover have "tablas_ok ?w"
  proof -
    have "identificador (the (file_tags ?w s)) = identificador (the (file_tags w s))" for s
      using ft by (simp add: ocupar_def)
    then show ?thesis using forma_okD(2)[OF fo] by (simp add: tablas_ok_def vivos) (simp add: ocupar_def)
  qed
  ultimately have "forma_ok ?w"
  proof (intro forma_okI; (elim tabs 1 2)?)
    show "s = s'" if "en_tabla ?w s q" "en_tabla ?w s' q" for s s' q
      using that forma_okD(6)[OF fo] unfolding et by blast
  qed
  moreover have "cuentas_ok (\<lambda>r. 0) ?w"
  proof -
    have a: "presentes ?w (tabla_paginas ft) = presentes w (tabla_paginas ft) + 1"
    proof (rule presentes_menos[symmetric, OF _ ft(2)])
      show "distinct (tabla_paginas ft)" using forma_okD(5)[OF fo ft(1)] by (simp add: tabla_ok_def)
      show "presente w q \<longleftrightarrow> presente ?w q \<and> q \<noteq> p" for q using pr np by blast
    qed (use pr in blast)
    have b: "presentes ?w (tabla_paginas ft') = presentes w (tabla_paginas ft')"
      if "s \<noteq> r" "file_tags w s = Some ft'" for s ft'
    proof (rule presentes_cong)
      fix q assume "q \<in> set (tabla_paginas ft')"
      then have "en_tabla w s q" using that(2) by (auto simp: en_tabla_def)
      then have "q \<noteq> p" using forma_okD(6)[OF fo _ en] that(1) by blast
      then show "presente ?w q \<longleftrightarrow> presente w q" using pr by simp
    qed
    have ft': "file_tags ?w s = (if s = r then Some (ft\<lparr>cantidad_paginas := cantidad_paginas ft + 1\<rparr>)
        else file_tags w s)" for s
      using ft by (simp add: ocupar_def)
    show ?thesis
      unfolding cuentas_ok_def ft'
      using cu ft(1) a b by (auto simp: cuentas_ok_def)
  qed
  ultimately show ?thesis by (simp add: mem_ok_def)
qed

text \<open>A File:Tag with no page in memory is freed.\<close>

definition liberar_ft :: "nat \<Rightarrow> file_tag \<Rightarrow> 'e worker \<Rightarrow> 'e worker" where
  "liberar_ft r ft w =
     w\<lparr>file_tag_pages := remove1 r (file_tag_pages w),
       paginas := (\<lambda>q. if q \<in> set (tabla_paginas ft) then None else paginas w q),
       file_tags := (file_tags w)(r := None)\<rparr>"

lemma liberar_ft_ok:
  assumes ok: "forma_ok w" and ft: "file_tags w r = Some ft"
    and np: "\<forall>p \<in> set (tabla_paginas ft). \<not> presente w p"
  shows "forma_ok (liberar_ft r ft w)"
    and "cuentas_ok h w \<Longrightarrow> cuentas_ok h (liberar_ft r ft w)"
proof -
  let ?w = "liberar_ft r ft w"
  have otra: "q \<notin> set (tabla_paginas ft)" if "en_tabla w s q" "s \<noteq> r" for s q
    using forma_okD(6)[OF ok that(1), of r] ft that(2) by (auto simp: en_tabla_def)
  have et: "en_tabla ?w s q \<longleftrightarrow> en_tabla w s q \<and> s \<noteq> r" for s q
    by (auto simp: en_tabla_def liberar_ft_def)
  have pr: "presente ?w q \<longleftrightarrow> presente w q" for q
    using np by (auto simp: presente_def liberar_ft_def)
  have oc: "ocupa ?w i s q \<longleftrightarrow> ocupa w i s q" for i s q
  proof (cases "q \<in> set (tabla_paginas ft)")
    case True
    then show ?thesis using np ocupa_presente[of w i s q] by (auto simp: ocupa_def liberar_ft_def)
  qed (simp add: ocupa_def liberar_ft_def)
  have 1: "\<exists>i. ocupa ?w i s q" if "en_tabla ?w s q" "presente ?w q" for s q
    using that marco_de_presente[OF ok, of s q] unfolding et pr oc by blast
  have 2: "\<exists>s q. ocupa ?w i s q \<and> en_tabla ?w s q" if h: "i < cantidad_marcos ?w" "bit_map ?w ! i" for i
  proof -
    have "i < cantidad_marcos w" "bit_map w ! i" using h by (simp_all add: liberar_ft_def)
    then obtain s q where sq: "ocupa w i s q" "en_tabla w s q" using pagina_de_marco[OF ok] by blast
    then have "s \<noteq> r" using np ocupa_presente[OF sq(1)] ft by (auto simp: en_tabla_def)
    with sq show ?thesis unfolding et oc by blast
  qed
  have tab: "tabla_ok ?w t" if "file_tags ?w s = Some t" for s t
  proof -
    have t: "s \<noteq> r" "file_tags w s = Some t" using that by (auto simp: liberar_ft_def split: if_splits)
    then have "\<forall>p \<in> set (tabla_paginas t). p \<notin> set (tabla_paginas ft)"
      using otra[of s] by (auto simp: en_tabla_def)
    then show ?thesis using forma_okD(5)[OF ok t(2)] by (simp add: tabla_ok_def liberar_ft_def)
  qed
  have tam: "tamanios_ok ?w" using forma_okD(1)[OF ok] by (simp add: tamanios_ok_def liberar_ft_def)
  have d: "distinct (map (\<lambda>r. map to_lower (identificador (the (file_tags w r)))) (file_tag_pages w))"
    "\<forall>r \<in> set (file_tag_pages w). file_tags w r \<noteq> None"
    using forma_okD(2)[OF ok] by (simp_all add: tablas_ok_def)
  then have dist: "distinct (file_tag_pages w)" by (simp add: distinct_map)
  have tabs: "tablas_ok ?w"
  proof -
    have "map (\<lambda>s. map to_lower (identificador (the (file_tags ?w s)))) (file_tag_pages ?w) =
        map (\<lambda>s. map to_lower (identificador (the (file_tags w s)))) (remove1 r (file_tag_pages w))"
      using dist by (auto simp: liberar_ft_def)
    moreover have "distinct (map (\<lambda>s. map to_lower (identificador (the (file_tags w s)))) (remove1 r (file_tag_pages w)))"
      using d(1) dist by (auto simp: distinct_map intro: inj_on_subset)
    ultimately have "distinct (map (\<lambda>s. map to_lower (identificador (the (file_tags ?w s)))) (file_tag_pages ?w))"
      by (simp only:)
    moreover have "\<forall>s \<in> set (file_tag_pages ?w). file_tags ?w s \<noteq> None"
      using d(2) dist by (simp add: liberar_ft_def)
    ultimately show ?thesis unfolding tablas_ok_def by blast
  qed
  have refs: "refs_ok ?w"
    using forma_okD(3)[OF ok] dist by (simp add: refs_ok_def liberar_ft_def)
  show "forma_ok ?w"
  proof (rule forma_okI[OF tam tabs refs tab _ 1 2])
    show "s = s'" if "en_tabla ?w s q" "en_tabla ?w s' q" for s s' q
      using that forma_okD(6)[OF ok] unfolding et by blast
  qed
  assume "cuentas_ok h w"
  moreover have "presente ?w = presente w" by (rule ext) (rule pr)
  then have "presentes ?w ps = presentes w ps" for ps by (simp only: presentes_def)
  ultimately show "cuentas_ok h ?w" by (simp add: cuentas_ok_def liberar_ft_def)
qed

text \<open>A table gets new pages, and a table loses pages that are not in memory.\<close>

lemma tabla_mas_ok:
  assumes ok: "forma_ok w"
    and w': "w' = w\<lparr>paginas := P, next_ref := n, file_tags := (file_tags w)(r \<mapsto> ft'), file_tag_pages := l\<rparr>"
    and t: "tabla_paginas ft' = viejas @ ps" "set viejas = {p. en_tabla w r p}"
    and nuevas: "\<forall>p \<in> set ps. paginas w p = None \<and> (\<exists>pg. P p = Some pg \<and> \<not> presencia pg)"
    and igual: "\<forall>q. q \<notin> set ps \<longrightarrow> P q = paginas w q"
    and partes: "tabla_ok w' ft'" "tablas_ok w'" "refs_ok w'"
  shows "forma_ok w'" and "presente w' = presente w"
proof -
  have pr: "presente w' q \<longleftrightarrow> presente w q" for q
  proof (cases "q \<in> set ps")
    case True
    then show ?thesis using nuevas by (auto simp: presente_def w')
  qed (use igual in \<open>simp add: presente_def w'\<close>)
  then show "presente w' = presente w" by (simp add: fun_eq_iff)
  have et: "en_tabla w' s q \<longleftrightarrow> en_tabla w s q \<or> s = r \<and> q \<in> set ps" for s q
    using t by (cases "s = r") (auto simp: en_tabla_def w')
  have viva: "q \<notin> set ps" if "en_tabla w s q" for s q
  proof -
    have "paginas w q \<noteq> None"
      using that forma_okD(5)[OF ok] by (fastforce simp: en_tabla_def tabla_ok_def in_set_conv_nth)
    then show ?thesis using nuevas by auto
  qed
  have oc: "ocupa w' i s q \<longleftrightarrow> ocupa w i s q" for i s q
  proof (cases "q \<in> set ps")
    case True
    then have "\<not> presente w q" using nuevas by (auto simp: presente_def)
    then show ?thesis using pr ocupa_presente by blast
  qed (use igual in \<open>simp add: ocupa_def w'\<close>)
  have 1: "\<exists>i. ocupa w' i s q" if h: "en_tabla w' s q" "presente w' q" for s q
  proof -
    have "presente w q" using h(2) pr by blast
    moreover have "q \<notin> set ps" using nuevas calculation by (auto simp: presente_def)
    ultimately show ?thesis using h marco_de_presente[OF ok, of s q] unfolding et oc by blast
  qed
  have 2: "\<exists>s q. ocupa w' i s q \<and> en_tabla w' s q" if h: "i < cantidad_marcos w'" "bit_map w' ! i" for i
    using h pagina_de_marco[OF ok, of i] unfolding et oc by (auto simp: w')
  have tab: "tabla_ok w' a" if "file_tags w' s = Some a" for s a
  proof (cases "s = r")
    case True
    then show ?thesis using that partes(1) by (simp add: w')
  next
    case False
    then have a: "file_tags w s = Some a" using that by (simp add: w')
    then have "\<forall>p \<in> set (tabla_paginas a). p \<notin> set ps" using viva[of s] by (auto simp: en_tabla_def)
    then show ?thesis using forma_okD(5)[OF ok a] igual by (simp add: tabla_ok_def w')
  qed
  have tam: "tamanios_ok w'" using forma_okD(1)[OF ok] by (simp add: tamanios_ok_def w')
  show "forma_ok w'"
  proof (rule forma_okI[OF tam partes(2,3) tab _ 1 2])
    show "s = s'" if "en_tabla w' s q" "en_tabla w' s' q" for s s' q
      using that forma_okD(6)[OF ok] viva unfolding et by blast
  qed
qed

lemma tabla_menos_ok:
  assumes ok: "forma_ok w" and ft: "file_tags w r = Some ft"
    and w': "w' = w\<lparr>file_tags := (file_tags w)(r \<mapsto> ft\<lparr>tabla_paginas := take k (tabla_paginas ft)\<rparr>)\<rparr>"
    and np: "\<forall>p \<in> set (drop k (tabla_paginas ft)). \<not> presente w p"
  shows "forma_ok w'"
    and "presentes w' (take k (tabla_paginas ft)) = presentes w (tabla_paginas ft)"
    and "presente w' = presente w"
proof -
  have pr: "presente w' = presente w" by (simp add: presente_def fun_eq_iff w')
  then show "presente w' = presente w" .
  have "presentes w (tabla_paginas ft) =
      presentes w (take k (tabla_paginas ft)) + presentes w (drop k (tabla_paginas ft))"
    by (metis append_take_drop_id filter_append length_append presentes_def)
  then show "presentes w' (take k (tabla_paginas ft)) = presentes w (tabla_paginas ft)"
    using np presentes_cero[of w "drop k (tabla_paginas ft)"] by (simp add: presentes_def pr)
  have oc: "ocupa w' = ocupa w" by (simp add: ocupa_def fun_eq_iff w')
  have et: "en_tabla w' s q \<Longrightarrow> en_tabla w s q" for s q
    using ft by (auto simp: en_tabla_def w' dest: in_set_takeD split: if_splits)
  have te: "en_tabla w' s q" if "en_tabla w s q" "presente w q" for s q
  proof (cases "s = r")
    case True
    then have "q \<in> set (take k (tabla_paginas ft)) \<union> set (drop k (tabla_paginas ft))"
      using that(1) ft by (metis append_take_drop_id en_tabla_def option.inject set_append)
    then show ?thesis using True that(2) np by (auto simp: en_tabla_def w')
  qed (use that(1) in \<open>simp add: en_tabla_def w'\<close>)
  have 1: "\<exists>i. ocupa w' i s q" if "en_tabla w' s q" "presente w' q" for s q
    using marco_de_presente[OF ok et[OF that(1)]] that(2) unfolding oc pr by blast
  have 2: "\<exists>s q. ocupa w' i s q \<and> en_tabla w' s q" if h: "i < cantidad_marcos w'" "bit_map w' ! i" for i
  proof -
    obtain s q where "ocupa w i s q" "en_tabla w s q"
      using h pagina_de_marco[OF ok, of i] by (auto simp: w')
    then show ?thesis using te ocupa_presente unfolding oc by blast
  qed
  have tab: "tabla_ok w' a" if "file_tags w' s = Some a" for s a
    using that forma_okD(5)[OF ok] forma_okD(5)[OF ok ft]
    by (cases "s = r") (auto simp: tabla_ok_def w')
  have vivos: "file_tags w' s = None \<longleftrightarrow> file_tags w s = None" for s using ft by (simp add: w')
  have idt: "identificador (the (file_tags w' s)) = identificador (the (file_tags w s))" for s
    using ft by (simp add: w')
  have tabs: "tablas_ok w'"
    using forma_okD(2)[OF ok] by (simp add: tablas_ok_def vivos idt) (simp add: w')
  have refs: "refs_ok w'" using forma_okD(3)[OF ok] by (simp add: refs_ok_def vivos) (simp add: w')
  have tam: "tamanios_ok w'" using forma_okD(1)[OF ok] by (simp add: tamanios_ok_def w')
  show "forma_ok w'"
  proof (rule forma_okI[OF tam tabs refs tab _ 1 2])
    show "s = s'" if "en_tabla w' s q" "en_tabla w' s' q" for s s' q
      using forma_okD(6)[OF ok et[OF that(1)] et[OF that(2)]] .
  qed
qed

end
