(* ===== verification/Worker_Inv_Ops.thy ===== *)
theory Worker_Inv_Ops
  imports Worker_Inv
begin

text \<open>
  The operations of the worker's memory keep its invariant: replacement, loading a page,
  following the size in the storage, and the access path.
\<close>

section \<open>Steps that keep the shape\<close>

lemma forma_set_pagina:
  assumes "\<And>pg. forma_pagina (f pg) = forma_pagina pg"
  shows "okE (misma_forma w) (set_pagina p f w)"
  using assms by (auto simp: set_pagina_def misma_forma_def deref_def intro!: okE_I split: option.split_asm)

lemma forma_steps:
  "okE (misma_forma w) (mem_put off bs w)"
  "okE (misma_forma w) (mover_puntero_clock k w)"
  "okE (\<lambda>(n, w'). misma_forma w w') (solicitar_metadata ext ident w)"
  "okE (misma_forma w) (notificar_cambios ext p ident off w)"
proof -
  show "okE (misma_forma w) (mem_put off bs w)"
    by (auto simp: mem_put_def misma_forma_def intro!: okE_I split: if_splits)
  show "okE (misma_forma w) (mover_puntero_clock k w)"
    by (auto simp: mover_puntero_clock_def misma_forma_def Let_def intro!: okE_I split: if_splits)
  show "okE (\<lambda>(n, w'). misma_forma w w') (solicitar_metadata ext ident w)"
    unfolding solicitar_metadata_def Let_def
    by (auto intro!: consultas simp: en_entorno_def misma_forma_def
        split: prod.split option.split list.split)
  show "okE (misma_forma w) (notificar_cambios ext p ident off w)"
    unfolding notificar_cambios_def
    by (auto intro!: consultas simp: en_entorno_def notif_query_error_def misma_forma_def
        split: prod.split option.split)
qed

lemma sello_marco [simp]:
  "m_identificador (xs[i := (xs ! i)\<lparr>m_time := t\<rparr>] ! j) = m_identificador (xs ! j)"
  "m_pagina (xs[i := (xs ! i)\<lparr>m_time := t\<rparr>] ! j) = m_pagina (xs ! j)"
proof -
  have "xs[i := (xs ! i)\<lparr>m_time := t\<rparr>] ! j = xs ! j \<or>
        xs[i := (xs ! i)\<lparr>m_time := t\<rparr>] ! j = (xs ! j)\<lparr>m_time := t\<rparr>"
  proof (cases "i < length xs")
    case True
    then show ?thesis by (cases "i = j") simp_all
  next
    case False
    then have "xs[i := (xs ! i)\<lparr>m_time := t\<rparr>] = xs" by (intro list_update_beyond) simp
    then show ?thesis by simp
  qed
  then show "m_identificador (xs[i := (xs ! i)\<lparr>m_time := t\<rparr>] ! j) = m_identificador (xs ! j)"
    "m_pagina (xs[i := (xs ! i)\<lparr>m_time := t\<rparr>] ! j) = m_pagina (xs ! j)"
    by auto
qed

lemma forma_sellar: "misma_forma w (sellar_marco ext i w)"
proof -
  obtain t e where "gettime ext (entorno w) = (t, e)" by force
  then show ?thesis by (simp add: sellar_marco_def en_entorno_def misma_forma_def)
qed

text \<open>The counts as well: the File:Tags themselves are the same.\<close>

definition mismos_ft :: "'e worker \<Rightarrow> 'e worker \<Rightarrow> bool" where
  "mismos_ft w w' \<longleftrightarrow> misma_forma w w' \<and> file_tags w' = file_tags w"

lemma mismos_ft_refl [simp]: "mismos_ft w w"
  by (simp add: mismos_ft_def)

lemma mismos_ft_trans: "mismos_ft w1 w2 \<Longrightarrow> mismos_ft w2 w3 \<Longrightarrow> mismos_ft w1 w3"
  by (auto simp: mismos_ft_def intro: misma_forma_trans)

lemma mismos_ft_cuentas: "mismos_ft w w' \<Longrightarrow> cuentas_ok h w' = cuentas_ok h w"
  unfolding mismos_ft_def cuentas_ok_def by (auto simp: misma_forma_presentes)

lemma mismos_ft_ok: "mismos_ft w w' \<Longrightarrow> mem_ok w \<Longrightarrow> mem_ok w'"
  using mismos_ft_cuentas misma_forma_ok by (auto simp: mem_ok_def mismos_ft_def)

lemma ft_set_pagina:
  assumes "\<And>pg. forma_pagina (f pg) = forma_pagina pg"
  shows "okE (mismos_ft w) (set_pagina p f w)"
  using okE_D[OF forma_set_pagina[OF assms]]
  by (auto simp: mismos_ft_def set_pagina_def intro!: okE_I)

lemma ft_usos [simp]:
  "forma_pagina (pg\<lparr>uso := b\<rparr>) = forma_pagina pg"
  "forma_pagina (pg\<lparr>modificado := b\<rparr>) = forma_pagina pg"
  "forma_pagina (pg\<lparr>modificado := b, uso := c\<rparr>) = forma_pagina pg"
  by (simp_all add: forma_pagina_def)

lemma ft_steps:
  "okE (mismos_ft w) (set_pagina p (\<lambda>pg. pg\<lparr>uso := b\<rparr>) w)"
  "okE (mismos_ft w) (set_pagina p (\<lambda>pg. pg\<lparr>modificado := b\<rparr>) w)"
  "okE (mismos_ft w) (set_pagina p (\<lambda>pg. pg\<lparr>modificado := b, uso := c\<rparr>) w)"
  "okE (mismos_ft w) (mem_put off bs w)"
  "okE (mismos_ft w) (mover_puntero_clock k w)"
  "okE (\<lambda>(n, w'). mismos_ft w w') (solicitar_metadata ext ident w)"
  "okE (mismos_ft w) (notificar_cambios ext p ident off w)"
proof -
  show "okE (mismos_ft w) (mem_put off bs w)"
    using forma_steps(1)[of w off bs]
    by (auto simp: mem_put_def mismos_ft_def intro!: okE_I split: if_splits)
  show "okE (mismos_ft w) (mover_puntero_clock k w)"
    using forma_steps(2)[of w k]
    by (auto simp: mover_puntero_clock_def mismos_ft_def Let_def misma_forma_def intro!: okE_I split: if_splits)
  show "okE (\<lambda>(n, w'). mismos_ft w w') (solicitar_metadata ext ident w)"
    unfolding solicitar_metadata_def Let_def
    by (auto intro!: consultas simp: en_entorno_def misma_forma_def mismos_ft_def
        split: prod.split option.split list.split)
  show "okE (mismos_ft w) (notificar_cambios ext p ident off w)"
    unfolding notificar_cambios_def
    by (auto intro!: consultas simp: en_entorno_def notif_query_error_def misma_forma_def mismos_ft_def
        split: prod.split option.split)
qed (rule ft_set_pagina, simp)+

lemma ft_sellar: "mismos_ft w (sellar_marco ext i w)"
  using forma_sellar[of w ext i]
  by (auto simp: sellar_marco_def en_entorno_def mismos_ft_def split: prod.split)

lemma ft_interaccion:
  "okE (mismos_ft w) (interaccion_escribir ext dest src i w)"
  "okE (\<lambda>(bs, w'). mismos_ft w w') (interaccion_leer ext src' n i w)"
  unfolding interaccion_escribir_def interaccion_leer_def
  by (auto intro!: consultas ft_steps(4)[THEN okE_mono] intro: mismos_ft_trans[OF _ ft_sellar] ft_sellar)

text \<open>The search of CLOCK-M leaves the pointer at a frame.\<close>

lemma ft_pasadas:
  "okE (\<lambda>(b, w'). mismos_ft w w') (clock_pasada_1 k w)"
  "okE (\<lambda>(b, w'). mismos_ft w w') (clock_pasada_2 k w)"
proof (induction k arbitrary: w)
  case (Suc k)
  { case 1
    show ?case
      by (auto intro!: consultas ft_steps(5)[THEN okE_mono] Suc.IH(1)[THEN okE_mono]
          intro: mismos_ft_trans)
  next
    case 2
    show ?case
      by (auto intro!: consultas ft_steps(1,5)[THEN okE_mono] Suc.IH(2)[THEN okE_mono])
         (blast intro: mismos_ft_trans)+ }
qed simp_all

lemma ft_clock: "okE (mismos_ft w) (clock_buscar v w)"
proof (induction v arbitrary: w)
  case (Suc v)
  show ?case
    by (auto intro!: ft_pasadas[THEN okE_mono] Suc.IH[THEN okE_mono]) (blast intro: mismos_ft_trans)+
qed simp

section \<open>Replacement\<close>

lemma foldE_free_pagina:
  "distinct ps \<Longrightarrow> \<forall>p \<in> set ps. paginas w p \<noteq> None \<Longrightarrow>
   foldE free_pagina ps w = Inr (w\<lparr>paginas := (\<lambda>q. if q \<in> set ps then None else paginas w q)\<rparr>)"
proof (induction ps arbitrary: w)
  case (Cons p ps)
  let ?w = "w\<lparr>paginas := (paginas w)(p := None)\<rparr>"
  have "foldE free_pagina ps ?w = Inr (?w\<lparr>paginas := (\<lambda>q. if q \<in> set ps then None else paginas ?w q)\<rparr>)"
    by (rule Cons.IH) (use Cons.prems in auto)
  moreover have "(\<lambda>q. if q \<in> set ps then None else paginas ?w q) =
      (\<lambda>q. if q \<in> set (p # ps) then None else paginas w q)" by auto
  moreover have "free_pagina p w = Inr ?w" using Cons.prems by (simp add: free_pagina_def)
  ultimately show ?case by simp
qed simp

lemma buscar_ft:
  assumes "forma_ok w" and "file_tags w r = Some ft"
  shows "buscar_file_tag (identificador ft) (file_tag_pages w) w = Inr (Some r)"
  using buscar_propio[OF _ _ refs_okD(1)[OF assms] assms(2)] forma_okD(2)[OF assms(1)]
  by (simp add: tablas_ok_def)

lemma paginas_de_tabla:
  "forma_ok w \<Longrightarrow> file_tags w r = Some ft \<Longrightarrow> p \<in> set (tabla_paginas ft) \<Longrightarrow> \<exists>pg. paginas w p = Some pg"
  using forma_okD(5)[of w r ft] by (auto simp: tabla_ok_def in_set_conv_nth)

lemma free_file_tag_eq:
  assumes ok: "forma_ok w" and ft: "file_tags w r = Some ft"
  shows "free_file_tag r w = Inr (liberar_ft r ft w)"
proof -
  have "distinct (tabla_paginas ft)" "\<forall>p \<in> set (tabla_paginas ft). paginas w p \<noteq> None"
    using forma_okD(5)[OF ok ft] paginas_de_tabla[OF ok ft] by (auto simp: tabla_ok_def)
  then show ?thesis
    using buscar_ft[OF ok ft] ft
    by (simp add: free_file_tag_def foldE_free_pagina liberar_ft_def cong del: if_weak_cong)
qed

text \<open>What replacement does to the File:Tag the new page belongs to: at most pages leave.\<close>

definition conserva :: "string \<Rightarrow> 'e worker \<Rightarrow> 'e worker \<Rightarrow> bool" where
  "conserva ident w w' \<longleftrightarrow>
     cantidad_marcos w' = cantidad_marcos w \<and>
     (\<forall>r ft. file_tags w r = Some ft \<longrightarrow> string_equals_ignore_case (identificador ft) ident \<longrightarrow>
        (\<exists>ft'. file_tags w' r = Some ft' \<and> forma_ft ft' = forma_ft ft \<and>
               (\<forall>p \<in> set (tabla_paginas ft). presente w' p \<longrightarrow> presente w p)))"

lemma conserva_refl [simp]: "conserva ident w w"
  by (simp add: conserva_def)

lemma conserva_trans:
  assumes "conserva ident w1 w2" and "conserva ident w2 w3"
  shows "conserva ident w1 w3"
  unfolding conserva_def
proof (intro conjI allI impI)
  show "cantidad_marcos w3 = cantidad_marcos w1" using assms by (simp add: conserva_def)
  fix r ft assume a: "file_tags w1 r = Some ft" "string_equals_ignore_case (identificador ft) ident"
  from assms(1) a obtain f2 where f2: "file_tags w2 r = Some f2" "forma_ft f2 = forma_ft ft"
    "\<forall>p \<in> set (tabla_paginas ft). presente w2 p \<longrightarrow> presente w1 p" unfolding conserva_def by blast
  then have "string_equals_ignore_case (identificador f2) ident" "tabla_paginas f2 = tabla_paginas ft"
    using a(2) by (simp_all add: forma_ft_def)
  with assms(2) f2 show "\<exists>ft'. file_tags w3 r = Some ft' \<and> forma_ft ft' = forma_ft ft \<and>
      (\<forall>p \<in> set (tabla_paginas ft). presente w3 p \<longrightarrow> presente w1 p)"
    unfolding conserva_def by metis
qed

lemma misma_forma_conserva: "misma_forma w w' \<Longrightarrow> conserva ident w w'"
  unfolding conserva_def
proof (intro conjI allI impI)
  assume m: "misma_forma w w'"
  then show "cantidad_marcos w' = cantidad_marcos w" by (simp add: misma_forma_def)
  fix r ft assume "file_tags w r = Some ft"
  then show "\<exists>ft'. file_tags w' r = Some ft' \<and> forma_ft ft' = forma_ft ft \<and>
      (\<forall>p \<in> set (tabla_paginas ft). presente w' p \<longrightarrow> presente w p)"
    using misma_forma_ft[OF m, of r "\<lambda>f. f = forma_ft ft"] by (auto simp: misma_forma_presente[OF m])
qed

text \<open>The count goes down by the page that left.\<close>

definition descontar :: "nat \<Rightarrow> file_tag \<Rightarrow> 'e worker \<Rightarrow> 'e worker" where
  "descontar r ft w =
     w\<lparr>file_tags := (file_tags w)(r \<mapsto> ft\<lparr>cantidad_paginas := cantidad_paginas ft - 1\<rparr>)\<rparr>"

lemma descontar_ok:
  assumes ok: "forma_ok w" and ft: "file_tags w r = Some ft"
    and c: "cuentas_ok (\<lambda>s. if s = r then 1 else 0) w"
  shows "misma_forma w (descontar r ft w)" and "mem_ok (descontar r ft w)"
proof -
  show m: "misma_forma w (descontar r ft w)" using ft by (simp add: misma_forma_def forma_ft_def descontar_def)
  have "cuentas_ok (\<lambda>r. 0) (descontar r ft w)"
    unfolding cuentas_ok_def misma_forma_presentes[OF m]
  proof (intro allI impI)
    fix s t assume "file_tags (descontar r ft w) s = Some t"
    then show "int (presentes w (tabla_paginas t) + 0) \<le> cantidad_paginas t"
      using c ft by (cases "s = r") (auto simp: cuentas_ok_def descontar_def dest: spec[of _ s])
  qed
  then show "mem_ok (descontar r ft w)" using misma_forma_ok[OF m ok] by (simp add: mem_ok_def)
qed

lemma check_file_tag_eq:
  assumes ok: "forma_ok w" and ft: "file_tags w r = Some ft"
    and c: "cuentas_ok (\<lambda>s. if s = r then 1 else 0) w"
  shows "check_file_tag ext (identificador ft) id_nueva w =
      Inr (if cantidad_paginas ft = 1 \<and> \<not> string_equals_ignore_case (identificador ft) id_nueva
           then liberar_ft r (ft\<lparr>cantidad_paginas := cantidad_paginas ft - 1\<rparr>) (descontar r ft w)
           else descontar r ft w)"
    and "cantidad_paginas ft = 1 \<Longrightarrow> \<forall>p \<in> set (tabla_paginas ft). \<not> presente (descontar r ft w) p"
proof -
  let ?ft = "ft\<lparr>cantidad_paginas := cantidad_paginas ft - 1\<rparr>"
  let ?w = "descontar r ft w"
  note d = descontar_ok[OF ok ft c]
  have fo: "forma_ok ?w" and cu: "cuentas_ok (\<lambda>r. 0) ?w" using d(2) by (simp_all add: mem_ok_def)
  have ftr: "file_tags ?w r = Some ?ft" by (simp add: descontar_def)
  have e: "file_tag_en_memoria ext (identificador ft) w = Inr (r, w)"
    using buscar_ft[OF ok ft] by (simp add: file_tag_en_memoria_def)
  have s: "set_file_tag r (\<lambda>ft. ft\<lparr>cantidad_paginas := cantidad_paginas ft - 1\<rparr>) w = Inr ?w"
    using ft by (simp add: set_file_tag_def descontar_def)
  show "check_file_tag ext (identificador ft) id_nueva w =
      Inr (if cantidad_paginas ft = 1 \<and> \<not> string_equals_ignore_case (identificador ft) id_nueva
           then liberar_ft r ?ft ?w else ?w)"
    using free_file_tag_eq[OF fo ftr] by (simp add: check_file_tag_def e s ftr)
  assume "cantidad_paginas ft = 1"
  moreover have "int (presentes ?w (tabla_paginas ?ft) + 0) \<le> cantidad_paginas ?ft"
    using cu ftr unfolding cuentas_ok_def by blast
  ultimately show "\<forall>p \<in> set (tabla_paginas ft). \<not> presente ?w p"
    using presentes_cero[of ?w "tabla_paginas ft"] by simp
qed

lemma liberar_ft_conserva:
  assumes "file_tags w r = Some ft" and "\<not> string_equals_ignore_case (identificador ft) ident"
  shows "conserva ident w (liberar_ft r ft w)"
  unfolding conserva_def
proof (intro conjI allI impI)
  fix s t assume s: "file_tags w s = Some t" "string_equals_ignore_case (identificador t) ident"
  then have "file_tags (liberar_ft r ft w) s = Some t" using assms by (auto simp: liberar_ft_def)
  moreover have "presente (liberar_ft r ft w) p \<Longrightarrow> presente w p" for p
    by (auto simp: presente_def liberar_ft_def split: if_splits)
  ultimately show "\<exists>ft'. file_tags (liberar_ft r ft w) s = Some ft' \<and> forma_ft ft' = forma_ft t \<and>
      (\<forall>p \<in> set (tabla_paginas t). presente (liberar_ft r ft w) p \<longrightarrow> presente w p)" by blast
qed (simp add: liberar_ft_def)

lemma check_file_tag_ok:
  assumes ok: "forma_ok w" and ft: "file_tags w r = Some ft"
    and c: "cuentas_ok (\<lambda>s. if s = r then 1 else 0) w"
  shows "\<exists>w'. check_file_tag ext (identificador ft) id_nueva w = Inr w' \<and>
           mem_ok w' \<and> conserva id_nueva w w' \<and> bit_map w' = bit_map w \<and> marco w' = marco w"
proof -
  let ?ft = "ft\<lparr>cantidad_paginas := cantidad_paginas ft - 1\<rparr>"
  let ?w = "descontar r ft w"
  note d = descontar_ok[OF ok ft c] and ch = check_file_tag_eq[OF ok ft c]
  have fo: "forma_ok ?w" and cu: "cuentas_ok (\<lambda>r. 0) ?w" using d(2) by (simp_all add: mem_ok_def)
  have ftr: "file_tags ?w r = Some ?ft" by (simp add: descontar_def)
  have con: "conserva id_nueva w ?w" by (rule misma_forma_conserva[OF d(1)])
  show ?thesis
  proof (cases "cantidad_paginas ft = 1 \<and> \<not> string_equals_ignore_case (identificador ft) id_nueva")
    case True
    then have "mem_ok (liberar_ft r ?ft ?w)"
      using liberar_ft_ok[OF fo ftr] ch(2) cu by (simp add: mem_ok_def)
    moreover have "conserva id_nueva w (liberar_ft r ?ft ?w)"
      using conserva_trans[OF con liberar_ft_conserva[OF ftr]] True by simp
    ultimately show ?thesis using True ch(1) by (simp add: liberar_ft_def descontar_def)
  next
    case False
    then have "check_file_tag ext (identificador ft) id_nueva w = Inr ?w" unfolding ch(1) by auto
    then show ?thesis using d(2) con by (simp add: descontar_def)
  qed
qed

text \<open>The victim leaves its frame; the algorithms differ in how they choose it.\<close>

definition evicta :: "nodo_pagina \<Rightarrow> nodo_pagina" where
  "evicta pg = pg\<lparr>presencia := False, modificado := False\<rparr>"

lemma actualizar_pagina_desocupa:
  assumes "forma_ok w" and "ocupa w i r p"
  shows "actualizar_pagina p w = Inr (int i, desocupar i p evicta w)"
proof -
  obtain pg where pg: "paginas w p = Some pg" "nro_marco pg = int i" and i: "i < cantidad_marcos w"
    using assms(2) by (auto simp: ocupa_def)
  have "i < length (bit_map w)" using i tamanios_okD(3)[OF assms(1)] by simp
  then show ?thesis
    using pg by (simp add: actualizar_pagina_def bit_clean_def set_pagina_def desocupar_def evicta_def)
qed

definition reemplazo_ok :: "string \<Rightarrow> 'e worker \<Rightarrow> int \<times> 'e worker \<Rightarrow> bool" where
  "reemplazo_ok ident w r \<longleftrightarrow>
     (case r of (n, w') \<Rightarrow>
        mem_ok w' \<and> conserva ident w w' \<and>
        (\<exists>i < cantidad_marcos w'. n = int i \<and> \<not> bit_map w' ! i))"

lemma desocupar_conserva:
  assumes "forma_ok w" and "ocupa w i r p" and "en_tabla w r p" and "\<And>pg. nro_pagina (f pg) = nro_pagina pg \<and> \<not> presencia (f pg)"
  shows "conserva ident w (desocupar i p f w)"
proof -
  have a: "file_tags (desocupar i p f w) = file_tags w" "cantidad_marcos (desocupar i p f w) = cantidad_marcos w"
    by (simp_all add: desocupar_def)
  show ?thesis
    unfolding conserva_def a
  proof (intro conjI allI impI refl)
    fix r ft assume "file_tags w r = Some ft"
    then show "\<exists>ft'. file_tags w r = Some ft' \<and> forma_ft ft' = forma_ft ft \<and>
        (\<forall>q \<in> set (tabla_paginas ft). presente (desocupar i p f w) q \<longrightarrow> presente w q)"
      using desocupar_ok(2)[OF assms(1-3), of f] assms(4) by simp
  qed
qed

lemma evicta_ok:
  assumes ok: "mem_ok w" and oc: "ocupa w i r p" and en: "en_tabla w r p" and ft: "file_tags w r = Some ft"
    and m: "mismos_ft (desocupar i p evicta w) w1"
  shows "\<exists>w'. check_file_tag ext (identificador ft) ident w1 = Inr w' \<and> reemplazo_ok ident w (int i, w') \<and>
           marco w' = marco w1"
proof -
  have fo: "forma_ok w" using ok by (simp add: mem_ok_def)
  have f: "nro_pagina (evicta pg) = nro_pagina pg \<and> \<not> presencia (evicta pg)" for pg
    by (simp add: evicta_def)
  note d = desocupar_ok[OF fo oc en f]
  have mf: "misma_forma (desocupar i p evicta w) w1" using m by (simp add: mismos_ft_def)
  have "file_tags w1 r = Some ft" using m ft by (simp add: mismos_ft_def desocupar_def)
  moreover have "cuentas_ok (\<lambda>s. if s = r then 1 else 0) w1"
    using d(3) ok mismos_ft_cuentas[OF m] by (simp add: mem_ok_def)
  ultimately obtain w' where w': "check_file_tag ext (identificador ft) ident w1 = Inr w'" "mem_ok w'"
    "conserva ident w1 w'" "bit_map w' = bit_map w1" "marco w' = marco w1"
    using check_file_tag_ok[OF misma_forma_ok[OF mf d(1)]] by blast
  have c: "conserva ident w w'"
    using conserva_trans[OF conserva_trans[OF desocupar_conserva[OF fo oc en f] misma_forma_conserva[OF mf]] w'(3)] .
  have i: "i < cantidad_marcos w" using oc by (simp add: ocupa_def)
  then have "i < length (bit_map w)" using tamanios_okD(3)[OF fo] by simp
  then have "\<not> bit_map w' ! i" using w'(4) mf by (simp add: misma_forma_def desocupar_def)
  moreover have "i < cantidad_marcos w'" using c i by (simp add: conserva_def)
  ultimately show ?thesis using w' c by (auto simp: reemplazo_ok_def)
qed

lemma marco_libre_lleno:
  assumes "marco_libre w = - 1" and "i < cantidad_marcos w"
  shows "bit_map w ! i"
  using assms by (auto simp: marco_libre_def find_None_iff split: option.split_asm)

lemma ocupa_ident:
  assumes "ocupa w i r p" and "en_tabla w r p"
  obtains ft pg where "file_tags w r = Some ft" "ident_marco (marco w ! i) w = Inr (identificador ft)"
    "m_pagina (marco w ! i) = Some p" "paginas w p = Some pg" "nro_marco pg = int i"
  using assms by (auto simp: ocupa_def en_tabla_def ident_marco_def)

lemma mismos_ft_mem_ok:
  assumes "mismos_ft w w'" and "mem_ok w"
  shows "mem_ok w'" "ocupa w' = ocupa w" "en_tabla w' = en_tabla w" "file_tags w' = file_tags w"
    "conserva ident w w'"
proof -
  have m: "misma_forma w w'" and f: "file_tags w' = file_tags w" using assms(1) by (simp_all add: mismos_ft_def)
  show "mem_ok w'" by (rule mismos_ft_ok[OF assms])
  show "file_tags w' = file_tags w" by (rule f)
  show "ocupa w' = ocupa w" "en_tabla w' = en_tabla w" "conserva ident w w'"
    by (rule misma_forma_ocupa[OF m] misma_forma_en_tabla[OF m] misma_forma_conserva[OF m])+
qed

lemma reemplazo_ok_trans:
  "conserva ident w w1 \<Longrightarrow> reemplazo_ok ident w1 (n, w2) \<Longrightarrow> reemplazo_ok ident w (n, w2)"
  by (auto simp: reemplazo_ok_def intro: conserva_trans)

lemma reemplazo_ok_mismos:
  assumes "reemplazo_ok ident w (n, w1)" and "mismos_ft w1 w2"
  shows "reemplazo_ok ident w (n, w2)"
proof -
  have "bit_map w2 = bit_map w1" "cantidad_marcos w2 = cantidad_marcos w1"
    using assms(2) by (simp_all add: mismos_ft_def misma_forma_def)
  then show ?thesis
    using assms mismos_ft_mem_ok(1,5)[OF assms(2)]
    by (auto simp: reemplazo_ok_def intro: conserva_trans)
qed

lemma lru_ok:
  assumes ok: "mem_ok w" and lleno: "marco_libre w = - 1"
  shows "okE (reemplazo_ok ident w) (algoritmo_LRU ext ident w)"
proof (cases "marco w = []")
  case False
  let ?i = "lru_victima (marco w) (cantidad_marcos w)"
  have fo: "forma_ok w" using ok by (simp add: mem_ok_def)
  have "0 < cantidad_marcos w" using False tamanios_okD(2)[OF fo] by (cases "marco w") auto
  then have i: "?i < cantidad_marcos w" unfolding lru_victima_def by (rule foldl_min_time[THEN conjunct1])
  then obtain r p where rp: "ocupa w ?i r p" "en_tabla w r p"
    using pagina_de_marco[OF fo _ marco_libre_lleno[OF lleno]] by blast
  then obtain ft pg where pg: "file_tags w r = Some ft"
    "ident_marco (marco w ! ?i) w = Inr (identificador ft)" "m_pagina (marco w ! ?i) = Some p"
    "paginas w p = Some pg"
    by (rule ocupa_ident)
  have sigue: "okE (reemplazo_ok ident w) (bindE (actualizar_pagina p w0) (\<lambda>(nro, w).
      bindE (check_file_tag ext (identificador ft) ident w) (\<lambda>w. Inr (nro, w))))" if m: "mismos_ft w w0" for w0
  proof -
    note k = mismos_ft_mem_ok[OF m ok]
    have fo0: "forma_ok w0" using k(1) by (simp add: mem_ok_def)
    obtain w' where "check_file_tag ext (identificador ft) ident (desocupar ?i p evicta w0) = Inr w'"
      "reemplazo_ok ident w0 (int ?i, w')"
      using evicta_ok[OF k(1), of ?i r p ft] rp pg(1) k(2-4) by (metis mismos_ft_refl)
    moreover have "actualizar_pagina p w0 = Inr (int ?i, desocupar ?i p evicta w0)"
      using actualizar_pagina_desocupa[OF fo0] rp(1) k(2) by simp
    ultimately show ?thesis using reemplazo_ok_trans[OF k(5)] by simp
  qed
  show ?thesis
    using False pg sigue
    by (auto simp: algoritmo_LRU_def Let_def intro!: ft_steps(7)[THEN okE_mono])
qed (simp add: algoritmo_LRU_def)

lemma clock_m_ok:
  assumes ok: "mem_ok w" and lleno: "marco_libre w = - 1"
  shows "okE (reemplazo_ok ident w) (algoritmo_CLOCK_M v ext ident w)"
proof -
  have elige: "okE (reemplazo_ok ident w)
      (bindE (puntero (victima_clock w1)) (\<lambda>i. bindE (list_get (marco w1) (int i)) (\<lambda>nm.
       bindE (puntero (m_pagina nm)) (\<lambda>p. bindE (deref (paginas w1) p) (\<lambda>pg.
       bindE (ident_marco nm w1) (\<lambda>id.
       bindE (if modificado pg then notificar_cambios ext p id (p_marco i w1) w1 else Inr w1) (\<lambda>w.
       bindE (actualizar_pagina p w) (\<lambda>(nro, w).
       bindE (set_pagina p (\<lambda>pg. pg\<lparr>uso := False\<rparr>) w) (\<lambda>w.
       bindE (check_file_tag ext id ident w) (\<lambda>w.
       bindE (mover_puntero_clock (nro + 1) w) (\<lambda>w. Inr (nro, w))))))))))))"
    if m1: "mismos_ft w w1" for w1
  proof (cases "\<exists>i < cantidad_marcos w. victima_clock w1 = Some i")
    case False
    have "length (marco w1) = cantidad_marcos w"
      using tamanios_okD(2)[of w] ok m1 by (simp add: mem_ok_def mismos_ft_def misma_forma_def)
    then show ?thesis
      using False by (cases "victima_clock w1") (auto simp: puntero_def list_get_def)
  next
    case True
    then obtain i where i: "i < cantidad_marcos w" "victima_clock w1 = Some i" by blast
    note k1 = mismos_ft_mem_ok[OF m1 ok]
    have fo: "forma_ok w" using ok by (simp add: mem_ok_def)
    obtain r p where rp: "ocupa w1 i r p" "en_tabla w1 r p"
      using pagina_de_marco[OF fo i(1) marco_libre_lleno[OF lleno i(1)]] k1(2,3) by auto
    then obtain ft pg where pg: "file_tags w1 r = Some ft"
      "ident_marco (marco w1 ! i) w1 = Inr (identificador ft)" "m_pagina (marco w1 ! i) = Some p"
      "paginas w1 p = Some pg"
      by (rule ocupa_ident)
    have len: "i < length (marco w1)"
      using i(1) tamanios_okD(2)[OF fo] m1 by (simp add: mismos_ft_def misma_forma_def)
    have sigue: "okE (reemplazo_ok ident w) (bindE (actualizar_pagina p w0) (\<lambda>(nro, w).
        bindE (set_pagina p (\<lambda>pg. pg\<lparr>uso := False\<rparr>) w) (\<lambda>w.
        bindE (check_file_tag ext (identificador ft) ident w) (\<lambda>w.
        bindE (mover_puntero_clock (nro + 1) w) (\<lambda>w. Inr (nro, w))))))" if m0: "mismos_ft w1 w0" for w0
    proof -
      note k0 = mismos_ft_mem_ok[OF m0 k1(1)]
      have fo0: "forma_ok w0" using k0(1) by (simp add: mem_ok_def)
      have a: "actualizar_pagina p w0 = Inr (int i, desocupar i p evicta w0)"
        using actualizar_pagina_desocupa[OF fo0] rp(1) k0(2) by simp
      have "okE (\<lambda>w3. okE (reemplazo_ok ident w) (bindE (mover_puntero_clock (int i + 1) w3) (\<lambda>w. Inr (int i, w))))
          (check_file_tag ext (identificador ft) ident w2)"
        if m2: "mismos_ft (desocupar i p evicta w0) w2" for w2
      proof -
        obtain w3 where w3: "check_file_tag ext (identificador ft) ident w2 = Inr w3"
          "reemplazo_ok ident w0 (int i, w3)"
          using evicta_ok[OF k0(1) _ _ _ m2] rp pg(1) k0(2-4) by metis
        have "reemplazo_ok ident w (int i, w4)" if "mismos_ft w3 w4" for w4
          using reemplazo_ok_trans[OF conserva_trans[OF k1(5) k0(5)]] reemplazo_ok_mismos[OF w3(2) that] .
        then show ?thesis using w3(1) by (simp add: ft_steps(5)[THEN okE_mono])
      qed
      then show ?thesis using a by (simp add: ft_steps(1)[THEN okE_mono])
    qed
    then show ?thesis
      using i(2) len pg by (auto intro!: ft_steps(7)[THEN okE_mono])
  qed
  show ?thesis
    unfolding algoritmo_CLOCK_M_def okE_bindE
    by (rule okE_mono[OF ft_clock]) (use elige in simp)
qed

lemma reemplazo_mem_ok:
  "mem_ok w \<Longrightarrow> marco_libre w = - 1 \<Longrightarrow> okE (reemplazo_ok ident w) (algoritmo_reemplazo v ext ident w)"
  by (simp add: algoritmo_reemplazo_def lru_ok clock_m_ok)

section \<open>Loading a page\<close>

lemma cargar_eq:
  assumes fo: "forma_ok w" and i: "i < cantidad_marcos w" and ft: "file_tags w r = Some ft"
    and h: "cargar r nro (int i) datos w = Inr (p, w')"
  shows "\<exists>m. w' = ocupar i r p m w \<and> length m = length (memoria w) \<and>
           0 \<le> nro \<and> nat nro < length (tabla_paginas ft) \<and> p = tabla_paginas ft ! nat nro \<and>
           (\<exists>c cs. datos = c # cs \<and> int i * tam_pagina w + int (length c) \<le> int (length (memoria w)) \<and>
              m = take (i * nat (tam_pagina w)) (memoria w) @ c @ drop (i * nat (tam_pagina w) + length c) (memoria w))"
proof -
  have len: "i < length (bit_map w)" "i < length (marco w)"
    using i tamanios_okD(2,3)[OF fo] by simp_all
  have n: "nat (int i * tam_pagina w) = i * nat (tam_pagina w)" by (simp add: nat_mult_distrib)
  obtain c cs where d: "datos = c # cs" using h by (cases datos) (auto simp: cargar_def)
  from h d obtain pg where k: "0 \<le> nro" "nat nro < length (tabla_paginas ft)" "p = tabla_paginas ft ! nat nro"
    "paginas w p = Some pg" "int i * tam_pagina w + int (length c) \<le> int (length (memoria w))"
    by (auto simp: cargar_def bit_set_def ft list_get_def set_pagina_def mem_put_def deref_def Let_def
        set_file_tag_def split: if_split_asm option.split_asm)
  with h d len have "w' = ocupar i r p
      (take (i * nat (tam_pagina w)) (memoria w) @ c @ drop (i * nat (tam_pagina w) + length c) (memoria w)) w"
    by (auto simp: cargar_def bit_set_def ft list_get_def set_pagina_def mem_put_def deref_def Let_def
        set_file_tag_def ocupar_def n split: if_split_asm option.split_asm)
  moreover have "i * nat (tam_pagina w) + length c \<le> length (memoria w)"
  proof -
    have "int (i * nat (tam_pagina w) + length c) = int i * tam_pagina w + int (length c)"
      using tamanios_okD(1)[OF fo] by simp
    then show ?thesis using k(5) by linarith
  qed
  ultimately show ?thesis using k(1-3,5) d by (intro exI conjI) auto
qed

lemma ft_entorno: "en_entorno f w = (x, w') \<Longrightarrow> mismos_ft w w'"
  by (auto simp: en_entorno_def mismos_ft_def misma_forma_def split: prod.split_asm)

lemma conserva_ft:
  assumes "conserva ident w w'" and "file_tags w r = Some ft"
    and "string_equals_ignore_case (identificador ft) ident"
  obtains ft' where "file_tags w' r = Some ft'" "tabla_paginas ft' = tabla_paginas ft"
    "identificador ft' = identificador ft" "\<forall>p \<in> set (tabla_paginas ft). presente w' p \<longrightarrow> presente w p"
  using assms unfolding conserva_def forma_ft_def by blast

text \<open>A frame is chosen: the first free one, or the victim's.\<close>

lemma elegir_marco:
  assumes "mem_ok w"
  shows "okE (reemplazo_ok ident w) (asignar_marco v ext ident w)"
proof (cases "marco_libre w = - 1")
  case False
  then show ?thesis
    using assms
    by (auto simp: asignar_marco_def reemplazo_ok_def marco_libre_def find_Some_iff Let_def
        split: option.splits)
qed (simp add: asignar_marco_def assms reemplazo_mem_ok)

lemma cargar_ok:
  assumes ok: "mem_ok w" and i: "i < cantidad_marcos w" "\<not> bit_map w ! i" and ft: "file_tags w r = Some ft"
    and np: "\<And>k. nro = int k \<Longrightarrow> k < length (tabla_paginas ft) \<Longrightarrow> \<not> presente w (tabla_paginas ft ! k)"
  shows "okE (\<lambda>(p, w'). mem_ok w' \<and> presente w' p) (cargar r nro (int i) datos w)"
proof -
  have fo: "forma_ok w" using ok by (simp add: mem_ok_def)
  have "mem_ok w' \<and> presente w' p" if h: "cargar r nro (int i) datos w = Inr (p, w')" for p w'
  proof -
    obtain m where m: "w' = ocupar i r p m w" "length m = length (memoria w)" "0 \<le> nro"
      "nat nro < length (tabla_paginas ft)" "p = tabla_paginas ft ! nat nro"
      using cargar_eq[OF fo i(1) ft h] by blast
    then have "\<not> presente w p" using np[of "nat nro"] by simp
    moreover have "en_tabla w r p" using m(4,5) ft by (auto simp: en_tabla_def)
    ultimately have "mem_ok w'" using ocupar_ok[OF ok i] m(1,2) by simp
    moreover have "presente w' p"
      using m paginas_de_tabla[OF fo ft, of p] by (auto simp: presente_def ocupar_def)
    ultimately show ?thesis ..
  qed
  then show ?thesis by (auto intro: okE_I)
qed

lemma solicitar_ok:
  assumes ok: "mem_ok w" and b: "buscar_file_tag ident (file_tag_pages w) w = Inr (Some r)"
    and ft: "file_tags w r = Some ft" and id: "string_equals_ignore_case (identificador ft) ident"
    and np: "\<And>k. nro = int k \<Longrightarrow> k < length (tabla_paginas ft) \<Longrightarrow> \<not> presente w (tabla_paginas ft ! k)"
  shows "okE (\<lambda>(p, w'). mem_ok w' \<and> presente w' p) (solicitar_pagina v ext ident nro w)"
proof -
  have sigue: "okE (\<lambda>a. \<forall>n w2. a = (n, w2) \<longrightarrow> okE (\<lambda>(p, w'). mem_ok w' \<and> presente w' p)
        (cargar r nro n datos w2))
      (asignar_marco v ext ident w1)"
    if m: "mismos_ft w w1" for w1 datos
  proof (rule okE_mono[OF elegir_marco[OF mismos_ft_mem_ok(1)[OF m ok], where ident = ident]])
    fix a assume a: "reemplazo_ok ident w1 a"
    obtain n w2 where n: "a = (n, w2)" by force
    with a obtain i where i: "mem_ok w2" "conserva ident w1 w2" "i < cantidad_marcos w2" "n = int i"
      "\<not> bit_map w2 ! i" by (auto simp: reemplazo_ok_def)
    note k = mismos_ft_mem_ok[OF m ok]
    obtain ft2 where ft2: "file_tags w2 r = Some ft2" "tabla_paginas ft2 = tabla_paginas ft"
      "\<forall>p \<in> set (tabla_paginas ft). presente w2 p \<longrightarrow> presente w p"
      using conserva_ft[OF conserva_trans[OF k(5) i(2)] ft id] by metis
    have "okE (\<lambda>(p, w'). mem_ok w' \<and> presente w' p) (cargar r nro (int i) datos w2)"
      by (rule cargar_ok[OF i(1,3,5) ft2(1)]) (use np ft2(2,3) in auto)
    then show "\<forall>n w2. a = (n, w2) \<longrightarrow> okE (\<lambda>(p, w'). mem_ok w' \<and> presente w' p) (cargar r nro n datos w2)"
      using n i(4) by simp
  qed
  show ?thesis
    unfolding solicitar_pagina_def file_tag_en_memoria_def b
    using sigue
    by (auto intro!: consultas dest!: ft_entorno split: prod.split option.split list.split)
qed

section \<open>Tables\<close>

lemma generar_paginas_nuevas:
  assumes "generar_paginas is w = (ps, w')"
  shows "length ps = length is \<and> distinct ps \<and> next_ref w \<le> next_ref w' \<and>
         (\<forall>p \<in> set ps. next_ref w \<le> p \<and> p < next_ref w') \<and>
         w' = w\<lparr>paginas := paginas w', next_ref := next_ref w'\<rparr> \<and>
         (\<forall>q. q \<notin> set ps \<longrightarrow> paginas w' q = paginas w q) \<and>
         (\<forall>k < length is. paginas w' (ps ! k) =
            Some \<lparr>nro_pagina = int (is ! k), nro_marco = - 1, modificado = False, uso = False, presencia = False\<rparr>)"
  using assms
proof (induction "is" arbitrary: w ps)
  case (Cons i "is")
  let ?pg = "\<lparr>nro_pagina = int i, nro_marco = - 1, modificado = False, uso = False, presencia = False\<rparr>"
  let ?w = "w\<lparr>paginas := (paginas w)(next_ref w \<mapsto> ?pg), next_ref := Suc (next_ref w)\<rparr>"
  obtain qs where qs: "generar_paginas is ?w = (qs, w')" "ps = next_ref w # qs"
    using Cons.prems by (auto simp: generar_nodo_pagina_def split: prod.split_asm)
  note IH = Cons.IH[OF qs(1)]
  then have fuera: "next_ref w \<notin> set qs" by fastforce
  obtain P n where P: "w' = ?w\<lparr>paginas := P, next_ref := n\<rparr>" using IH by blast
  have "paginas w' (next_ref w) = Some ?pg" using IH fuera by simp
  then have "\<forall>k < length (i # is). paginas w' (ps ! k) =
      Some \<lparr>nro_pagina = int ((i # is) ! k), nro_marco = - 1, modificado = False, uso = False, presencia = False\<rparr>"
    using IH by (auto simp: qs(2) nth_Cons split: nat.split)
  moreover have "\<forall>q. q \<notin> set ps \<longrightarrow> paginas w' q = paginas w q" using IH by (auto simp: qs(2))
  moreover have "w' = w\<lparr>paginas := paginas w', next_ref := next_ref w'\<rparr>" using P by simp
  ultimately show ?case using IH fuera by (auto simp: qs(2))
qed simp

lemma buscar_None:
  assumes "\<forall>r \<in> set rs. file_tags w r \<noteq> None" and "buscar_file_tag ident rs w = Inr None"
  shows "\<forall>r \<in> set rs. \<not> string_equals_ignore_case (identificador (the (file_tags w r))) ident"
  using assms by (induction rs) (auto split: if_split_asm)

lemma buscar_Some:
  "buscar_file_tag ident rs w = Inr (Some r) \<Longrightarrow>
   r \<in> set rs \<and> (\<exists>ft. file_tags w r = Some ft \<and> string_equals_ignore_case (identificador ft) ident)"
  by (induction rs) (auto simp: deref_def split: if_split_asm option.split_asm)

text \<open>The storage's answer to a request of the size of a File:Tag is that size, or -1.\<close>

definition metadata_ok :: "'e externos \<Rightarrow> bool" where
  "metadata_ok ext \<longleftrightarrow>
     (\<forall>items e b rsp e'. storage_paquete ext (INFO_FILE_TAG_STORAGE, items) e =
        (Some (INFO_FILE_TAG_WORKER, b # rsp), e') \<longrightarrow> - 1 \<le> sint (bytes_int b))"

lemma solicitar_metadata_tam:
  assumes "metadata_ok ext"
  shows "okE (\<lambda>(n, w'). 0 \<le> n \<and> mismos_ft w w') (solicitar_metadata ext ident w)"
proof -
  have "0 \<le> sint (bytes_int b)"
    if "storage_paquete ext (INFO_FILE_TAG_STORAGE, items) e = (Some (INFO_FILE_TAG_WORKER, b # rsp), e')"
      "sint (bytes_int b) \<noteq> - 1" for items e b rsp e'
  proof -
    have "- 1 \<le> sint (bytes_int b)" using assms that(1) unfolding metadata_ok_def by blast
    with that(2) show ?thesis by linarith
  qed
  then show ?thesis
    unfolding solicitar_metadata_def Let_def
    by (auto intro!: consultas simp: en_entorno_def mismos_ft_def misma_forma_def
        split: prod.split option.split list.split)
qed

text \<open>What a search that adds the File:Tag when it is missing gives.\<close>

definition hallado :: "string \<Rightarrow> nat \<Rightarrow> 'e worker \<Rightarrow> bool" where
  "hallado ident r w \<longleftrightarrow>
     mem_ok w \<and> buscar_file_tag ident (file_tag_pages w) w = Inr (Some r) \<and>
     (\<exists>ft. file_tags w r = Some ft \<and> string_equals_ignore_case (identificador ft) ident)"

lemma buscar_nueva:
  assumes "buscar_file_tag ident rs w = Inr None" and "\<forall>s \<in> set rs. s \<noteq> r"
    and "file_tags w' = (file_tags w)(r \<mapsto> ft)" and "identificador ft = ident"
  shows "buscar_file_tag ident (rs @ [r]) w' = Inr (Some r)"
  using assms by (induction rs) (auto simp: deref_def split: option.splits if_splits)

lemma tabla_nueva_ok:
  assumes ok: "mem_ok w" and b: "buscar_file_tag ident (file_tag_pages w) w = Inr None"
    and g: "generar_paginas [0..<nat cant] w = (ps, w1)" and c: "0 \<le> cant"
    and w': "w' = w1\<lparr>file_tags := (file_tags w1)(next_ref w1 \<mapsto>
                \<lparr>identificador = ident, cantidad_paginas = cant, tabla_paginas = ps\<rparr>),
              next_ref := Suc (next_ref w1), file_tag_pages := file_tag_pages w1 @ [next_ref w1]\<rparr>"
  shows "hallado ident (next_ref w1) w'"
proof -
  let ?r = "next_ref w1" and ?ft = "\<lparr>identificador = ident, cantidad_paginas = cant, tabla_paginas = ps\<rparr>"
  have fo: "forma_ok w" and cu: "cuentas_ok (\<lambda>r. 0) w" using ok by (simp_all add: mem_ok_def)
  note n = generar_paginas_nuevas[OF g]
  obtain P m where P: "w1 = w\<lparr>paginas := P, next_ref := m\<rparr>" using n by blast
  have mm: "next_ref w \<le> m" "?r = m" "\<forall>p \<in> set ps. p < m" using n by (simp_all add: P)
  have r: "file_tags w ?r = None"
  proof (rule ccontr)
    assume "file_tags w ?r \<noteq> None"
    then have "?r < next_ref w" using forma_okD(3)[OF fo] unfolding refs_ok_def by blast
    then show False using mm by simp
  qed
  have r2: "?r \<notin> set (file_tag_pages w)"
    using forma_okD(2)[OF fo] r unfolding tablas_ok_def by blast
  have eq: "w' = w\<lparr>paginas := P, next_ref := Suc m, file_tags := (file_tags w)(?r \<mapsto> ?ft),
      file_tag_pages := file_tag_pages w @ [?r]\<rparr>"
    by (simp add: w' P)
  have viv: "\<forall>s \<in> set (file_tag_pages w). file_tags w s \<noteq> None"
    and dis: "distinct (map (\<lambda>r. map to_lower (identificador (the (file_tags w r)))) (file_tag_pages w))"
    using forma_okD(2)[OF fo] by (simp_all add: tablas_ok_def)
  have nue: "\<forall>p \<in> set ps. paginas w p = None \<and> (\<exists>pg. P p = Some pg \<and> \<not> presencia pg)"
  proof
    fix p assume p: "p \<in> set ps"
    then have "next_ref w \<le> p" using n by blast
    then have "paginas w p = None" using refs_okD(3)[OF fo, of p] by (cases "paginas w p") auto
    moreover obtain k where "k < length ps" "ps ! k = p" using p by (auto simp: in_set_conv_nth)
    then have "P p = Some \<lparr>nro_pagina = int ([0..<nat cant] ! k), nro_marco = - 1, modificado = False,
        uso = False, presencia = False\<rparr>" using n by (auto simp: P)
    ultimately show "paginas w p = None \<and> (\<exists>pg. P p = Some pg \<and> \<not> presencia pg)" by simp
  qed
  have ig: "\<forall>q. q \<notin> set ps \<longrightarrow> P q = paginas w q" using n by (simp add: P)
  have tok: "tabla_ok w' ?ft" using n by (auto simp: tabla_ok_def eq P)
  have tabs: "tablas_ok w'"
  proof -
    let ?f = "\<lambda>w s. map to_lower (identificador (the (file_tags w s)))"
    have "map (?f w') (file_tag_pages w) = map (?f w) (file_tag_pages w)"
      using r2 by (auto simp: eq)
    moreover have "map (?f w') (file_tag_pages w') = map (?f w') (file_tag_pages w) @ [map to_lower ident]"
      by (simp add: eq)
    ultimately have e: "map (?f w') (file_tag_pages w') = map (?f w) (file_tag_pages w) @ [map to_lower ident]"
      by (simp only:)
    have "map to_lower ident \<notin> set (map (?f w) (file_tag_pages w))"
      using buscar_None[OF viv b] by (auto simp: string_equals_ignore_case_def)
    then have "distinct (map (?f w') (file_tag_pages w'))" unfolding e using dis by simp
    moreover have "\<forall>s \<in> set (file_tag_pages w'). file_tags w' s \<noteq> None" using viv by (simp add: eq)
    ultimately show ?thesis unfolding tablas_ok_def by blast
  qed
  have refs: "refs_ok w'"
  proof -
    have "p < Suc m" if "P p \<noteq> None" for p
    proof (cases "p \<in> set ps")
      case False
      then have "paginas w p \<noteq> None" using ig that by simp
      then have "p < next_ref w" using forma_okD(3)[OF fo] by (simp add: refs_ok_def)
      then show ?thesis using mm(1) by simp
    qed (use mm in auto)
    moreover have "s \<in> set (file_tag_pages w) \<and> s < Suc m" if "file_tags w s \<noteq> None" for s
    proof -
      have "s \<in> set (file_tag_pages w) \<and> s < next_ref w"
        using forma_okD(3)[OF fo] that unfolding refs_ok_def by blast
      then show ?thesis using mm(1) by simp
    qed
    ultimately show ?thesis using mm by (simp add: refs_ok_def eq)
  qed
  have "set [] = {p. en_tabla w ?r p}" using r by (simp add: en_tabla_def)
  then have fo': "forma_ok w'" and pr: "presente w' = presente w"
    using tabla_mas_ok[OF fo eq, of "[]" ps] nue ig tok tabs refs by simp_all
  have "cuentas_ok (\<lambda>r. 0) w'"
  proof -
    have "presentes w' ps = 0"
      using nue by (auto simp: presentes_cero pr presente_def)
    then show ?thesis
      using cu c by (auto simp: cuentas_ok_def eq presentes_def pr[unfolded eq])
  qed
  then have "mem_ok w'" using fo' by (simp add: mem_ok_def)
  moreover have "buscar_file_tag ident (file_tag_pages w @ [?r]) w' = Inr (Some ?r)"
    using buscar_nueva[OF b, of ?r w' ?ft] r2 by (auto simp: eq)
  ultimately show ?thesis by (simp add: hallado_def eq)
qed

lemma file_tag_en_memoria_ok:
  assumes md: "okE (\<lambda>(n, w'). 0 \<le> n \<and> mismos_ft w w') (solicitar_metadata ext ident w)" and ok: "mem_ok w"
  shows "okE (\<lambda>(r, w'). hallado ident r w') (file_tag_en_memoria ext ident w)"
proof -
  have viejo: "hallado ident r w" if "buscar_file_tag ident (file_tag_pages w) w = Inr (Some r)" for r
    using buscar_Some[OF that] that ok by (simp add: hallado_def)
  have nuevo: "okE (\<lambda>(r, w'). hallado ident r w') (agregar_file_tag_en_memoria ext ident w)"
    if b: "buscar_file_tag ident (file_tag_pages w) w = Inr None"
    unfolding agregar_file_tag_en_memoria_def okE_bindE
  proof (rule okE_mono[OF md])
    fix x :: "int \<times> 'a worker" assume x: "case x of (n, w') \<Rightarrow> 0 \<le> n \<and> mismos_ft w w'"
    obtain n w1 where n: "x = (n, w1)" by force
    with x have m: "0 \<le> n" "mismos_ft w w1" by simp_all
    have ok1: "mem_ok w1" by (rule mismos_ft_ok[OF m(2) ok])
    have b1: "buscar_file_tag ident (file_tag_pages w1) w1 = Inr None"
    proof -
      have "file_tag_pages w1 = file_tag_pages w" "file_tags w1 = file_tags w"
        using m(2) by (simp_all add: mismos_ft_def misma_forma_def)
      moreover have "buscar_file_tag ident rs w1 = buscar_file_tag ident rs w" if "file_tags w1 = file_tags w" for rs
        using that by (induction rs) (simp_all cong del: if_weak_cong)
      ultimately show ?thesis using b by simp
    qed
    have t: "0 < tam_pagina w1" using ok1 tamanios_okD(1)[of w1] by (simp add: mem_ok_def)
    obtain ps w2 where g: "generar_paginas [0..<nat (c_div n (tam_pagina w1))] w1 = (ps, w2)" by force
    have "0 \<le> c_div n (tam_pagina w1)" using m(1) t by (simp add: c_div_pos pos_imp_zdiv_nonneg_iff)
    from tabla_nueva_ok[OF ok1 b1 g this refl] t g
    show "okE (\<lambda>(r, w'). hallado ident r w') (case x of (size_ft, w) \<Rightarrow>
        if tam_pagina w = 0 then Inl DivByZero
        else let cant = c_div size_ft (tam_pagina w); (tabla, w) = generar_paginas [0..<nat cant] w; r = next_ref w
             in Inr (r, w\<lparr>file_tags := (file_tags w)(r \<mapsto>
                        \<lparr>identificador = ident, cantidad_paginas = cant, tabla_paginas = tabla\<rparr>),
                      next_ref := Suc r, file_tag_pages := file_tag_pages w @ [r]\<rparr>))"
      by (simp add: n Let_def)
  qed
  show ?thesis
    unfolding file_tag_en_memoria_def okE_bindE
    by (rule okE_I) (use viejo nuevo in \<open>auto split: option.split\<close>)
qed

text \<open>A table follows the size in the storage.\<close>

lemma tabla_crece_ok:
  assumes ok: "mem_ok w" and ft: "file_tags w r = Some ft"
    and g: "generar_paginas [length (tabla_paginas ft)..<n] w = (ps, w1)"
  shows "okE mem_ok (set_file_tag r (\<lambda>ft. ft\<lparr>tabla_paginas := tabla_paginas ft @ ps\<rparr>) w1)"
proof -
  let ?ft = "ft\<lparr>tabla_paginas := tabla_paginas ft @ ps\<rparr>"
  have fo: "forma_ok w" and cu: "cuentas_ok (\<lambda>r. 0) w" using ok by (simp_all add: mem_ok_def)
  note nu = generar_paginas_nuevas[OF g]
  obtain P m where P: "w1 = w\<lparr>paginas := P, next_ref := m\<rparr>" using nu by blast
  define w' where "w' = w1\<lparr>file_tags := (file_tags w1)(r \<mapsto> ?ft)\<rparr>"
  have eq: "w' = w\<lparr>paginas := P, next_ref := m, file_tags := (file_tags w)(r \<mapsto> ?ft),
      file_tag_pages := file_tag_pages w\<rparr>"
    by (simp add: w'_def P)
  have nue: "\<forall>p \<in> set ps. paginas w p = None \<and> (\<exists>pg. P p = Some pg \<and> \<not> presencia pg)"
  proof
    fix p assume p: "p \<in> set ps"
    then have "next_ref w \<le> p" using nu by blast
    then have "paginas w p = None" using refs_okD(3)[OF fo, of p] by (cases "paginas w p") auto
    moreover obtain k where "k < length ps" "ps ! k = p" using p by (auto simp: in_set_conv_nth)
    then have "P p = Some \<lparr>nro_pagina = int ([length (tabla_paginas ft)..<n] ! k), nro_marco = - 1,
        modificado = False, uso = False, presencia = False\<rparr>" using nu by (auto simp: P)
    ultimately show "paginas w p = None \<and> (\<exists>pg. P p = Some pg \<and> \<not> presencia pg)" by simp
  qed
  have ig: "\<forall>q. q \<notin> set ps \<longrightarrow> P q = paginas w q" using nu by (simp add: P)
  have viejas: "P p = paginas w p" if "p \<in> set (tabla_paginas ft)" for p
    using paginas_de_tabla[OF fo ft that] nue ig by (metis option.distinct(1))
  have tok: "tabla_ok w' ?ft"
    unfolding tabla_ok_def
  proof (intro conjI allI impI)
    have "\<forall>p \<in> set (tabla_paginas ft). p \<notin> set ps" using paginas_de_tabla[OF fo ft] nue by fastforce
    then show "distinct (tabla_paginas ?ft)"
      using nu forma_okD(5)[OF fo ft] by (auto simp: tabla_ok_def)
    fix k assume k: "k < length (tabla_paginas ?ft)"
    show "\<exists>pg. paginas w' (tabla_paginas ?ft ! k) = Some pg \<and> nro_pagina pg = int k"
    proof (cases "k < length (tabla_paginas ft)")
      case True
      then show ?thesis
        using forma_okD(5)[OF fo ft] viejas[of "tabla_paginas ft ! k"] by (simp add: tabla_ok_def eq nth_append)
    next
      case False
      then have "k - length (tabla_paginas ft) < length ps" using k by simp
      then show ?thesis using nu False by (simp add: eq P nth_append)
    qed
  qed
  have viv: "file_tags w' s = None \<longleftrightarrow> file_tags w s = None" for s using ft by (simp add: eq)
  have idt: "identificador (the (file_tags w' s)) = identificador (the (file_tags w s))" for s
    using ft by (simp add: eq)
  have tabs: "tablas_ok w'"
    using forma_okD(2)[OF fo] by (simp add: tablas_ok_def viv idt) (simp add: eq)
  have mm: "next_ref w \<le> m" "\<forall>p \<in> set ps. p < m" using nu by (simp_all add: P)
  have refs: "refs_ok w'"
  proof -
    have "p < m" if "P p \<noteq> None" for p
    proof (cases "p \<in> set ps")
      case False
      then have "paginas w p \<noteq> None" using ig that by simp
      then have "p < next_ref w" using forma_okD(3)[OF fo] by (simp add: refs_ok_def)
      then show ?thesis using mm(1) by simp
    qed (use mm in auto)
    moreover have "s \<in> set (file_tag_pages w) \<and> s < m" if "file_tags w s \<noteq> None" for s
    proof -
      have "s \<in> set (file_tag_pages w) \<and> s < next_ref w"
        using forma_okD(3)[OF fo] that unfolding refs_ok_def by blast
      then show ?thesis using mm(1) by simp
    qed
    ultimately show ?thesis unfolding refs_ok_def viv by (simp add: eq)
  qed
  have "set (tabla_paginas ft) = {p. en_tabla w r p}" using ft by (simp add: en_tabla_def)
  then have fo': "forma_ok w'" and pr: "presente w' = presente w"
    using tabla_mas_ok[OF fo eq, of "tabla_paginas ft" ps] nue ig tok tabs refs by simp_all
  have prs: "presentes w' qs = presentes w qs" for qs by (simp only: presentes_def pr)
  have "presentes w ps = 0" using nue by (auto simp: presentes_cero presente_def)
  then have m0: "presentes w (tabla_paginas ft @ ps) = presentes w (tabla_paginas ft)"
    by (simp add: presentes_def)
  have "cuentas_ok (\<lambda>r. 0) w'"
    unfolding cuentas_ok_def prs
  proof (intro allI impI)
    fix s t assume t: "file_tags w' s = Some t"
    show "int (presentes w (tabla_paginas t) + 0) \<le> cantidad_paginas t"
    proof (cases "s = r")
      case True
      then have "t = ?ft" using t by (simp add: eq)
      then show ?thesis using cu ft m0 by (simp add: cuentas_ok_def)
    next
      case False
      then have "file_tags w s = Some t" using t by (simp add: eq)
      then show ?thesis using cu unfolding cuentas_ok_def by blast
    qed
  qed
  then have "mem_ok w'" using fo' by (simp add: mem_ok_def)
  moreover have "set_file_tag r (\<lambda>ft. ft\<lparr>tabla_paginas := tabla_paginas ft @ ps\<rparr>) w1 = Inr w'"
    using ft by (simp add: set_file_tag_def w'_def P)
  ultimately show ?thesis by simp
qed

text \<open>The identifiers and the list of File:Tags stay.\<close>

definition mismos_ids :: "'e worker \<Rightarrow> 'e worker \<Rightarrow> bool" where
  "mismos_ids w w' \<longleftrightarrow>
     file_tag_pages w' = file_tag_pages w \<and>
     (\<forall>r. map_option identificador (file_tags w' r) = map_option identificador (file_tags w r))"

lemma mismos_ids_refl [simp]: "mismos_ids w w"
  by (simp add: mismos_ids_def)

lemma mismos_ids_trans: "mismos_ids w1 w2 \<Longrightarrow> mismos_ids w2 w3 \<Longrightarrow> mismos_ids w1 w3"
  by (simp add: mismos_ids_def)

lemma mismos_ft_ids: "mismos_ft w w' \<Longrightarrow> mismos_ids w w'"
  by (simp add: mismos_ids_def mismos_ft_def misma_forma_def)

lemma mismos_ids_ft:
  "mismos_ids w w' \<Longrightarrow> file_tags w r = Some ft \<Longrightarrow>
   \<exists>ft'. file_tags w' r = Some ft' \<and> identificador ft' = identificador ft"
  unfolding mismos_ids_def by (metis map_option_eq_Some option.simps(9))

lemma mismos_ids_hallado:
  assumes m: "mismos_ids w w'" and h: "hallado ident r w" and ok: "mem_ok w'"
  shows "hallado ident r w'"
proof -
  have "buscar_file_tag ident rs w' = buscar_file_tag ident rs w" for rs
  proof (induction rs)
    case (Cons a rs)
    have "map_option identificador (file_tags w' a) = map_option identificador (file_tags w a)"
      using m by (simp add: mismos_ids_def)
    then show ?case
      using Cons by (cases "file_tags w a"; cases "file_tags w' a") (simp_all add: deref_def)
  qed simp
  moreover have "file_tag_pages w' = file_tag_pages w" using m by (simp add: mismos_ids_def)
  moreover obtain ft where "file_tags w r = Some ft" "string_equals_ignore_case (identificador ft) ident"
    using h by (auto simp: hallado_def)
  then obtain ft' where "file_tags w' r = Some ft'" "string_equals_ignore_case (identificador ft') ident"
    using mismos_ids_ft[OF m] by metis
  ultimately show ?thesis using h ok by (simp add: hallado_def)
qed

lemma quitar_ultima_ok:
  assumes ok: "mem_ok w" and ft: "file_tags w r = Some ft"
  shows "okE (\<lambda>w'. mem_ok w' \<and> tabla_paginas ft \<noteq> [] \<and>
      w' = w\<lparr>file_tags := (file_tags w)(r \<mapsto> ft\<lparr>tabla_paginas := butlast (tabla_paginas ft)\<rparr>)\<rparr>)
    (quitar_ultima r w)"
proof (cases "tabla_paginas ft = []")
  case True
  then show ?thesis using ft by (simp add: quitar_ultima_def list_get_def)
next
  case False
  let ?w = "w\<lparr>file_tags := (file_tags w)(r \<mapsto> ft\<lparr>tabla_paginas := butlast (tabla_paginas ft)\<rparr>)\<rparr>"
  let ?n = "length (tabla_paginas ft) - 1"
  have fo: "forma_ok w" and cu: "cuentas_ok (\<lambda>r. 0) w" using ok by (simp_all add: mem_ok_def)
  have bl: "butlast (tabla_paginas ft) = take ?n (tabla_paginas ft)" by (simp add: butlast_conv_take)
  have la: "list_get (tabla_paginas ft) (int (length (tabla_paginas ft)) - 1) = Inr (last (tabla_paginas ft))"
    using False by (cases "length (tabla_paginas ft)") (simp_all add: list_get_def last_conv_nth)
  obtain pg where pg: "paginas w (last (tabla_paginas ft)) = Some pg"
    using paginas_de_tabla[OF fo ft, of "last (tabla_paginas ft)"] False by auto
  show ?thesis
  proof (cases "presencia pg")
    case True
    then show ?thesis
      using ft la pg by (simp add: quitar_ultima_def set_file_tag_def)
  next
    case np: False
    have dr: "drop ?n (tabla_paginas ft) = [last (tabla_paginas ft)]"
      using False by (metis append_butlast_last_id append_eq_conv_conj length_butlast)
    have "\<forall>p \<in> set (drop ?n (tabla_paginas ft)). \<not> presente w p"
      using np pg unfolding dr by (simp add: presente_def)
    note t = tabla_menos_ok[OF fo ft refl this, folded bl]
    have "cuentas_ok (\<lambda>r. 0) ?w"
      unfolding cuentas_ok_def
    proof (intro allI impI)
      fix s a assume a: "file_tags ?w s = Some a"
      have pr: "presentes ?w ps = presentes w ps" for ps by (simp only: presentes_def t(3))
      show "int (presentes ?w (tabla_paginas a) + 0) \<le> cantidad_paginas a"
      proof (cases "s = r")
        case True
        then have "a = ft\<lparr>tabla_paginas := butlast (tabla_paginas ft)\<rparr>" using a by simp
        then show ?thesis using t(2) cu ft by (simp add: cuentas_ok_def)
      next
        case False
        then have "file_tags w s = Some a" using a by simp
        then show ?thesis using cu unfolding pr cuentas_ok_def by blast
      qed
    qed
    then have "mem_ok ?w" using t(1) by (simp add: mem_ok_def)
    moreover have "quitar_ultima r w = Inr ?w"
      using ft la pg np by (simp add: quitar_ultima_def set_file_tag_def)
    ultimately show ?thesis using False by simp
  qed
qed

lemma quitar_ultimas_ok:
  assumes "mem_ok w" and "file_tags w r = Some ft"
  shows "okE (\<lambda>w'. mem_ok w' \<and> k \<le> length (tabla_paginas ft) \<and>
      w' = w\<lparr>file_tags := (file_tags w)(r \<mapsto>
             ft\<lparr>tabla_paginas := take (length (tabla_paginas ft) - k) (tabla_paginas ft)\<rparr>)\<rparr>)
    (repeatE k (quitar_ultima r) w)"
  using assms
proof (induction k arbitrary: w ft)
  case 0
  have "w\<lparr>file_tags := (file_tags w)(r \<mapsto> ft)\<rparr> = w" using 0 by (simp add: fun_upd_idem)
  then show ?case using 0 by (simp del: fun_upd_apply)
next
  case (Suc k)
  let ?ft = "ft\<lparr>tabla_paginas := butlast (tabla_paginas ft)\<rparr>"
  show ?case
    unfolding repeatE.simps okE_bindE
  proof (rule okE_mono[OF quitar_ultima_ok[OF Suc.prems]])
    fix w1
    assume w1: "mem_ok w1 \<and> tabla_paginas ft \<noteq> [] \<and> w1 = w\<lparr>file_tags := (file_tags w)(r \<mapsto> ?ft)\<rparr>"
    then have "file_tags w1 r = Some ?ft" by simp
    note IH = Suc.IH[OF conjunct1[OF w1] this]
    have "take (length (tabla_paginas ?ft) - k) (tabla_paginas ?ft) =
        take (length (tabla_paginas ft) - Suc k) (tabla_paginas ft)"
      by (simp add: butlast_conv_take)
    then show "okE (\<lambda>w'. mem_ok w' \<and> Suc k \<le> length (tabla_paginas ft) \<and>
      w' = w\<lparr>file_tags := (file_tags w)(r \<mapsto>
             ft\<lparr>tabla_paginas := take (length (tabla_paginas ft) - Suc k) (tabla_paginas ft)\<rparr>)\<rparr>)
      (repeatE k (quitar_ultima r) w1)"
    proof (intro okE_mono[OF IH])
      fix w' assume t: "take (length (tabla_paginas ?ft) - k) (tabla_paginas ?ft) =
        take (length (tabla_paginas ft) - Suc k) (tabla_paginas ft)"
      assume "mem_ok w' \<and> k \<le> length (tabla_paginas ?ft) \<and>
        w' = w1\<lparr>file_tags := (file_tags w1)(r \<mapsto>
               ?ft\<lparr>tabla_paginas := take (length (tabla_paginas ?ft) - k) (tabla_paginas ?ft)\<rparr>)\<rparr>"
      then have h: "mem_ok w'" "k \<le> length (tabla_paginas ft) - 1"
        "w' = w1\<lparr>file_tags := (file_tags w1)(r \<mapsto>
               ?ft\<lparr>tabla_paginas := take (length (tabla_paginas ft) - Suc k) (tabla_paginas ft)\<rparr>)\<rparr>"
        unfolding t by (blast, simp, blast)
      have "tabla_paginas ft \<noteq> []" using w1 by blast
      then have "Suc k \<le> length (tabla_paginas ft)" using h(2) by (cases "tabla_paginas ft") auto
      moreover have "w' = w\<lparr>file_tags := (file_tags w)(r \<mapsto>
             ft\<lparr>tabla_paginas := take (length (tabla_paginas ft) - Suc k) (tabla_paginas ft)\<rparr>)\<rparr>"
        using h(3) w1 by (simp del: fun_upd_apply)
      ultimately show "mem_ok w' \<and> Suc k \<le> length (tabla_paginas ft) \<and>
        w' = w\<lparr>file_tags := (file_tags w)(r \<mapsto>
             ft\<lparr>tabla_paginas := take (length (tabla_paginas ft) - Suc k) (tabla_paginas ft)\<rparr>)\<rparr>"
        using h(1) by blast
    qed
  qed
qed

lemma actualizar_tabla_ok:
  assumes ok: "mem_ok w" and ft: "file_tags w r = Some ft"
  shows "okE (\<lambda>w'. mem_ok w' \<and> mismos_ids w w') (actualizar_tabla ext r w)"
proof -
  let ?n = "length (tabla_paginas ft)"
  have sigue: "okE (\<lambda>w'. mem_ok w' \<and> mismos_ids w w')
      (if tam_pagina w1 = 0 then Inl DivByZero
       else
         let new_cant = c_div tam (tam_pagina w1)
         in if int ?n < new_cant then
              (let (ps, w) = generar_paginas [?n..<nat new_cant] w1
               in set_file_tag r (\<lambda>ft. ft\<lparr>tabla_paginas := tabla_paginas ft @ ps\<rparr>) w)
            else bindE (repeatE (nat (int ?n - new_cant)) (quitar_ultima r) w1) (\<lambda>w.
                   set_file_tag r (\<lambda>f. f\<lparr>tabla_paginas := take (nat new_cant) (tabla_paginas ft)\<rparr>) w))"
    if m: "mismos_ft w w1" for tam w1
  proof -
    have ok1: "mem_ok w1" by (rule mismos_ft_ok[OF m ok])
    have ft1: "file_tags w1 r = Some ft" using m ft by (simp add: mismos_ft_def)
    let ?new = "c_div tam (tam_pagina w1)"
    consider (cero) "tam_pagina w1 = 0" | (crece) "int ?n < ?new" | (menos) "?new \<le> int ?n" by linarith
    then show ?thesis
    proof cases
      case crece
      obtain ps w2 where g: "generar_paginas [?n..<nat ?new] w1 = (ps, w2)" by force
      have "mismos_ids w1 w3"
        if "set_file_tag r (\<lambda>ft. ft\<lparr>tabla_paginas := tabla_paginas ft @ ps\<rparr>) w2 = Inr w3" for w3
      proof -
        obtain P k where "w2 = w1\<lparr>paginas := P, next_ref := k\<rparr>" using generar_paginas_nuevas[OF g] by blast
        with that ft1 show ?thesis by (auto simp: set_file_tag_def mismos_ids_def)
      qed
      then show ?thesis
        using crece tabla_crece_ok[OF ok1 ft1 g] mismos_ids_trans[OF mismos_ft_ids[OF m]]
        by (auto simp: g Let_def intro!: okE_I)
    next
      case menos
      have "okE (\<lambda>w'. mem_ok w' \<and> mismos_ids w w')
          (bindE (repeatE (nat (int ?n - ?new)) (quitar_ultima r) w1) (\<lambda>w.
             set_file_tag r (\<lambda>f. f\<lparr>tabla_paginas := take (nat ?new) (tabla_paginas ft)\<rparr>) w))"
        unfolding okE_bindE
      proof (rule okE_mono[OF quitar_ultimas_ok[OF ok1 ft1]])
        fix w2
        let ?t = "ft\<lparr>tabla_paginas := take (?n - nat (int ?n - ?new)) (tabla_paginas ft)\<rparr>"
        assume w2: "mem_ok w2 \<and> nat (int ?n - ?new) \<le> ?n \<and>
            w2 = w1\<lparr>file_tags := (file_tags w1)(r \<mapsto> ?t)\<rparr>"
        then have "?n - nat (int ?n - ?new) = nat ?new" using menos by linarith
        then have "set_file_tag r (\<lambda>f. f\<lparr>tabla_paginas := take (nat ?new) (tabla_paginas ft)\<rparr>) w2 = Inr w2"
          using w2 by (simp add: set_file_tag_def)
        moreover have "mismos_ids w1 w2" using w2 ft1 by (simp add: mismos_ids_def)
        ultimately show "okE (\<lambda>w'. mem_ok w' \<and> mismos_ids w w')
            (set_file_tag r (\<lambda>f. f\<lparr>tabla_paginas := take (nat ?new) (tabla_paginas ft)\<rparr>) w2)"
          using conjunct1[OF w2] mismos_ids_trans[OF mismos_ft_ids[OF m]] by (simp only: okE_simps)
      qed
      then show ?thesis using menos by (simp add: Let_def)
    qed simp
  qed
  show ?thesis
    unfolding actualizar_tabla_def deref_Some[of "file_tags w", OF ft] bindE.simps(2) okE_bindE
  proof (rule okE_mono[OF ft_steps(6)])
    fix x :: "int \<times> 'a worker" assume x: "case x of (n, w') \<Rightarrow> mismos_ft w w'"
    obtain tam w1 where t: "x = (tam, w1)" by force
    show "okE (\<lambda>w'. mem_ok w' \<and> mismos_ids w w') (case x of (tam, w) \<Rightarrow>
        if tam_pagina w = 0 then Inl DivByZero
        else let new_cant = c_div tam (tam_pagina w); old_cant = ?n
             in if int old_cant < new_cant
                then let (ps, w) = generar_paginas [old_cant..<nat new_cant] w
                     in set_file_tag r (\<lambda>ft. ft\<lparr>tabla_paginas := tabla_paginas ft @ ps\<rparr>) w
                else let new_page_table = take (nat new_cant) (tabla_paginas ft)
                     in bindE (repeatE (nat (int old_cant - new_cant)) (quitar_ultima r) w) (\<lambda>w.
                          set_file_tag r (\<lambda>ft. ft\<lparr>tabla_paginas := new_page_table\<rparr>) w))"
      using sigue[of w1 tam] x unfolding t Let_def prod.case by simp
  qed
qed

section \<open>The access path\<close>

lemma pagina_en_Tabla_ok:
  assumes md: "metadata_ok ext" and ok: "mem_ok w"
  shows "okE (\<lambda>(p, w'). mem_ok w' \<and> (\<forall>q. p = Some q \<longrightarrow> presente w' q)) (pagina_en_Tabla v ext ident nro w)"
proof -
  let ?Q = "\<lambda>(p, w'). mem_ok w' \<and> (\<forall>q. p = Some q \<longrightarrow> presente w' q)"
  have busca: "okE ?Q (bindE (deref (file_tags w2) r) (\<lambda>ft.
       if int (length (tabla_paginas ft)) < nro then Inr (None, w2)
       else bindE (list_get (tabla_paginas ft) nro) (\<lambda>p. bindE (deref (paginas w2) p) (\<lambda>pg.
           if presencia pg then Inr (Some p, w2)
           else bindE (solicitar_pagina v ext ident nro w2) (\<lambda>(p, w). Inr (Some p, w))))))"
    if h: "hallado ident r w2" for r w2
  proof -
    obtain ft where ft: "file_tags w2 r = Some ft" "string_equals_ignore_case (identificador ft) ident"
      and b: "mem_ok w2" "buscar_file_tag ident (file_tag_pages w2) w2 = Inr (Some r)"
      using h by (auto simp: hallado_def)
    have pedir: "okE ?Q (bindE (solicitar_pagina v ext ident nro w2) (\<lambda>(p, w). Inr (Some p, w)))"
      if p: "list_get (tabla_paginas ft) nro = Inr p" "paginas w2 p = Some pg" "\<not> presencia pg" for p pg
    proof -
      have "\<not> presente w2 (tabla_paginas ft ! k)" if "nro = int k" "k < length (tabla_paginas ft)" for k
        using that p by (simp add: presente_def)
      from solicitar_ok[OF b ft this] show ?thesis
        unfolding okE_bindE by (rule okE_mono) auto
    qed
    show ?thesis
    proof (cases "int (length (tabla_paginas ft)) < nro")
      case False
      show ?thesis
      proof (cases "list_get (tabla_paginas ft) nro")
        case (Inr p)
        show ?thesis
        proof (cases "paginas w2 p")
          case (Some pg)
          then show ?thesis
            using pedir[OF Inr Some] Inr b(1) False
            by (cases "presencia pg") (simp_all add: ft(1) presente_def del: okE_bindE)
        qed (use Inr False in \<open>simp add: ft(1) deref_def\<close>)
      qed (use False in \<open>simp add: ft(1)\<close>)
    qed (use b(1) in \<open>simp add: ft(1)\<close>)
  qed
  show ?thesis
    unfolding pagina_en_Tabla_def okE_bindE[of _ "file_tag_en_memoria ext ident w"]
  proof (rule okE_mono[OF file_tag_en_memoria_ok[OF solicitar_metadata_tam[OF md] ok]])
    fix x :: "nat \<times> 'a worker" assume x: "case x of (r, w') \<Rightarrow> hallado ident r w'"
    obtain r w1 where r: "x = (r, w1)" by force
    with x have h: "hallado ident r w1" by simp
    then obtain ft where ft: "file_tags w1 r = Some ft" and ok1: "mem_ok w1" by (auto simp: hallado_def)
    have "okE (hallado ident r)
        (if int (length (tabla_paginas ft)) < nro then actualizar_tabla ext r w1 else Inr w1)"
      using h by (auto intro!: okE_mono[OF actualizar_tabla_ok[OF ok1 ft]] mismos_ids_hallado[OF _ h])
    then show "okE ?Q (case x of (r, w) \<Rightarrow> bindE (deref (file_tags w) r) (\<lambda>ft.
       bindE (if int (length (tabla_paginas ft)) < nro then actualizar_tabla ext r w else Inr w) (\<lambda>w.
       bindE (deref (file_tags w) r) (\<lambda>ft.
         if int (length (tabla_paginas ft)) < nro then Inr (None, w)
         else bindE (list_get (tabla_paginas ft) nro) (\<lambda>p. bindE (deref (paginas w) p) (\<lambda>pg.
           if presencia pg then Inr (Some p, w)
           else bindE (solicitar_pagina v ext ident nro w) (\<lambda>(p, w). Inr (Some p, w))))))))"
      unfolding r prod.case deref_Some[of "file_tags w1", OF ft] bindE.simps(2)
      by (subst okE_bindE) (erule okE_mono, rule busca)
  qed
qed

section \<open>Reading and writing\<close>

lemma mem_ok_tras: "okE (mismos_ft w) r \<Longrightarrow> mem_ok w \<Longrightarrow> okE mem_ok r"
  by (erule okE_mono) (rule mismos_ft_ok)

lemma escribir_resto_ok:
  assumes md: "metadata_ok ext"
  shows "mem_ok w \<Longrightarrow> okE (\<lambda>(q, w'). mem_ok w') (escribir_resto v ext ident k nro resto w)"
proof (induction k arbitrary: nro resto w)
  case (Suc k)
  show ?case
    by (auto intro!: consultas pagina_en_Tabla_ok[OF md Suc.prems, THEN okE_mono]
        ft_steps(3)[THEN okE_mono] ft_interaccion(1)[THEN okE_mono] Suc.IH
        simp: Let_def dest!: mismos_ft_ok)
qed simp

lemma escribir_pagina_ok:
  assumes "metadata_ok ext" and "mem_ok w"
  shows "okE (\<lambda>(q, w'). mem_ok w') (escribir_pagina v ext p ident dir datos w)"
  unfolding escribir_pagina_def Let_def
  using assms(2)
  by (auto intro!: consultas ft_steps(3)[THEN okE_mono] ft_interaccion(1)[THEN okE_mono]
      escribir_resto_ok[OF assms(1)] dest!: mismos_ft_ok)

lemma leer_resto_ok:
  assumes md: "metadata_ok ext"
  shows "mem_ok w \<Longrightarrow> okE (\<lambda>(q, w'). mem_ok w') (leer_resto v ext ident k nro resto w)"
proof (induction k arbitrary: nro resto w)
  case (Suc k)
  show ?case
    by (auto intro!: consultas pagina_en_Tabla_ok[OF md Suc.prems, THEN okE_mono]
        ft_steps(1)[THEN okE_mono] ft_interaccion(2)[THEN okE_mono] Suc.IH[THEN okE_mono]
        simp: Let_def dest!: mismos_ft_ok)
qed simp

lemma enviar_lectura_ft: "okE (mismos_ft w) (enviar_lectura ext ident lectura n w)"
  unfolding enviar_lectura_def
  by (auto dest!: ft_entorno split: prod.split option.split resultado_t.split)

lemma leer_pagina_ok:
  assumes "metadata_ok ext" and "mem_ok w"
  shows "okE mem_ok (leer_pagina v ext p ident dir n w)"
  unfolding leer_pagina_def Let_def
  using assms(2)
  by (auto intro!: consultas ft_steps(1)[THEN okE_mono] ft_interaccion(2)[THEN okE_mono]
      leer_resto_ok[OF assms(1), THEN okE_mono] mem_ok_tras[OF enviar_lectura_ft] dest!: mismos_ft_ok)

end
