(* ===== verification/Worker_Coherencia.thy ===== *)
theory Worker_Coherencia
  imports Worker_Inv_Ops
begin

text \<open>
  The worker's memory as a cache of the storage's pages. What a page reads as is its frame when
  it is in one, and the storage's page otherwise; the memory is coherent when a page that was
  not modified has in its frame what the storage has. The storage is an interface: what its
  answers promise is the locale \<open>servidor_paginas\<close>, and inside it every operation of the memory
  is proved to leave what the pages read as unchanged, until an error is reported.
\<close>

section \<open>What a page reads as\<close>

text \<open>
  How the environment is seen: the page the storage has, what holds of it all the time, that no
  error has been reported to the master, the identifiers in use and the size of a page.
\<close>

record 'e almacen_visto =
  pag :: "'e \<Rightarrow> string \<Rightarrow> int \<Rightarrow> byte list option"
  buena :: "'e \<Rightarrow> bool"
  sano :: "'e \<Rightarrow> bool"
  nombres :: "string set"
  tam_bloque :: int

definition contenido :: "nat \<Rightarrow> 'e worker \<Rightarrow> byte list" where
  "contenido i w = take (nat (tam_pagina w)) (drop (i * nat (tam_pagina w)) (memoria w))"

text \<open>The frame holds a page of the File:Tag.\<close>

definition tiene :: "'e worker \<Rightarrow> nat \<Rightarrow> string \<Rightarrow> int \<Rightarrow> bool" where
  "tiene w i ident n \<longleftrightarrow>
     bit_map w ! i \<and>
     (case m_identificador (marco w ! i) of
        None \<Rightarrow> False
      | Some r \<Rightarrow>
          (case file_tags w r of
             None \<Rightarrow> False
           | Some ft \<Rightarrow>
               identificador ft = ident \<and>
               (case m_pagina (marco w ! i) of
                  None \<Rightarrow> False
                | Some p \<Rightarrow>
                    (case paginas w p of
                       None \<Rightarrow> False
                     | Some pg \<Rightarrow> presencia pg \<and> nro_marco pg = int i \<and> nro_pagina pg = n))))"

definition vista :: "'e almacen_visto \<Rightarrow> 'e worker \<Rightarrow> string \<Rightarrow> int \<Rightarrow> byte list option" where
  "vista S w ident n =
     (case find (\<lambda>i. tiene w i ident n) [0..<cantidad_marcos w] of
        None \<Rightarrow> pag S (entorno w) ident n
      | Some i \<Rightarrow> Some (contenido i w))"

definition sucio :: "'e worker \<Rightarrow> nat \<Rightarrow> bool" where
  "sucio w i \<longleftrightarrow>
     (case m_pagina (marco w ! i) of
        None \<Rightarrow> False
      | Some p \<Rightarrow> (case paginas w p of None \<Rightarrow> False | Some pg \<Rightarrow> modificado pg))"

definition coherente :: "'e almacen_visto \<Rightarrow> 'e worker \<Rightarrow> bool" where
  "coherente S w \<longleftrightarrow>
     (\<forall>i < cantidad_marcos w. \<forall>ident n. tiene w i ident n \<longrightarrow> \<not> sucio w i \<longrightarrow>
        pag S (entorno w) ident n = Some (contenido i w))"

text \<open>What holds all the time: the memory's invariant, known identifiers, page numbers of 32 bits.\<close>

definition nros_ok :: "'e worker \<Rightarrow> bool" where
  "nros_ok w \<longleftrightarrow> (\<forall>p pg. paginas w p = Some pg \<longrightarrow> 0 \<le> nro_pagina pg \<and> nro_pagina pg < 2 ^ 31)"

definition conocidos :: "'e almacen_visto \<Rightarrow> 'e worker \<Rightarrow> bool" where
  "conocidos S w \<longleftrightarrow> (\<forall>r ft. file_tags w r = Some ft \<longrightarrow> identificador ft \<in> nombres S)"

definition basica :: "'e almacen_visto \<Rightarrow> 'e worker \<Rightarrow> bool" where
  "basica S w \<longleftrightarrow>
     forma_ok w \<and> buena S (entorno w) \<and> tam_pagina w = tam_bloque S \<and> nros_ok w \<and> conocidos S w"

definition firme :: "'e almacen_visto \<Rightarrow> 'e worker \<Rightarrow> bool" where
  "firme S w \<longleftrightarrow> mem_ok w \<and> basica S w"

definition misma_vista :: "'e almacen_visto \<Rightarrow> 'e worker \<Rightarrow> 'e worker \<Rightarrow> bool" where
  "misma_vista S w w' \<longleftrightarrow> (\<forall>ident \<in> nombres S. vista S w' ident = vista S w ident)"

definition transparente :: "'e almacen_visto \<Rightarrow> 'e worker \<Rightarrow> 'e worker \<Rightarrow> bool" where
  "transparente S w w' \<longleftrightarrow>
     (sano S (entorno w') \<longrightarrow>
        sano S (entorno w) \<and> (coherente S w \<longrightarrow> coherente S w' \<and> misma_vista S w w'))"

text \<open>An operation that neither breaks the memory nor changes what the pages read as.\<close>

definition fiel :: "'e almacen_visto \<Rightarrow> 'e worker \<Rightarrow> 'e worker \<Rightarrow> bool" where
  "fiel S w w' \<longleftrightarrow> firme S w' \<and> transparente S w w'"

text \<open>An exchange after which the storage has the same pages.\<close>

definition leal :: "'e almacen_visto \<Rightarrow> 'e \<Rightarrow> 'e \<Rightarrow> bool" where
  "leal S e e' \<longleftrightarrow>
     (buena S e \<longrightarrow> buena S e') \<and>
     (sano S e' \<longrightarrow> sano S e \<and> (buena S e \<longrightarrow> (\<forall>ident \<in> nombres S. pag S e' ident = pag S e ident)))"

lemma leal_refl [simp]: "leal S e e"
  by (simp add: leal_def)

lemma leal_trans: "leal S e1 e2 \<Longrightarrow> leal S e2 e3 \<Longrightarrow> leal S e1 e3"
  by (auto simp: leal_def)

lemma transparente_refl [simp]: "transparente S w w"
  by (simp add: transparente_def misma_vista_def)

lemma transparente_trans: "transparente S w1 w2 \<Longrightarrow> transparente S w2 w3 \<Longrightarrow> transparente S w1 w3"
  unfolding transparente_def misma_vista_def by (metis (no_types))

lemma fiel_refl: "firme S w \<Longrightarrow> fiel S w w"
  by (simp add: fiel_def)

lemma fiel_trans: "fiel S w1 w2 \<Longrightarrow> fiel S w2 w3 \<Longrightarrow> fiel S w1 w3"
  unfolding fiel_def using transparente_trans by blast

lemma basicaD:
  assumes "basica S w"
  shows "forma_ok w" "buena S (entorno w)" "tam_pagina w = tam_bloque S" "nros_ok w" "conocidos S w"
  using assms by (simp_all add: basica_def)

lemma firmeD:
  assumes "firme S w"
  shows "mem_ok w" "basica S w" "forma_ok w"
  using assms by (simp_all add: firme_def basica_def)

lemma fielD: "fiel S w w' \<Longrightarrow> firme S w'"
  by (simp add: fiel_def)

section \<open>Frames\<close>

lemma tiene_ocupa:
  "i < cantidad_marcos w \<Longrightarrow> tiene w i ident n \<longleftrightarrow>
     (\<exists>r p ft pg. ocupa w i r p \<and> file_tags w r = Some ft \<and> identificador ft = ident \<and>
        paginas w p = Some pg \<and> nro_pagina pg = n)"
  by (auto simp: tiene_def ocupa_def split: option.splits)

lemma tiene_ocupa_map:
  "i < cantidad_marcos w \<Longrightarrow> tiene w i ident n \<longleftrightarrow>
     (\<exists>r p. ocupa w i r p \<and> map_option identificador (file_tags w r) = Some ident \<and>
        map_option nro_pagina (paginas w p) = Some n)"
  unfolding tiene_ocupa by fastforce

lemma ocupa_tabla:
  assumes "forma_ok w" and "ocupa w i r p"
  shows "en_tabla w r p"
proof -
  obtain r' p' where "ocupa w i r' p'" "en_tabla w r' p'"
    using pagina_de_marco[OF assms(1), of i] assms(2) by (auto simp: ocupa_def)
  then show ?thesis using assms(2) by (auto simp: ocupa_def)
qed

lemma mismo_identificador:
  assumes "forma_ok w" and "file_tags w r = Some ft" and "file_tags w r' = Some ft'"
    and "string_equals_ignore_case (identificador ft) (identificador ft')"
  shows "r = r'"
proof -
  have "inj_on (\<lambda>r. map to_lower (identificador (the (file_tags w r)))) (set (file_tag_pages w))"
    using forma_okD(2)[OF assms(1)] by (simp add: tablas_ok_def distinct_map)
  then show ?thesis
    using refs_okD(1)[OF assms(1)] assms(2-4)
    by (auto simp: inj_on_def string_equals_ignore_case_def)
qed

lemma pagina_por_nro:
  assumes "forma_ok w" and "file_tags w r = Some ft" and "p \<in> set (tabla_paginas ft)"
    and "paginas w p = Some pg"
  shows "0 \<le> nro_pagina pg" "nat (nro_pagina pg) < length (tabla_paginas ft)"
    "p = tabla_paginas ft ! nat (nro_pagina pg)"
  using forma_okD(5)[OF assms(1,2)] assms(3,4) by (auto simp: tabla_ok_def in_set_conv_nth)

lemma tiene_unico:
  assumes fo: "forma_ok w" and i: "i < cantidad_marcos w" "tiene w i ident n"
    and j: "j < cantidad_marcos w" "tiene w j ident n"
  shows "i = j"
proof -
  from i obtain r p ft pg where a: "ocupa w i r p" "file_tags w r = Some ft" "identificador ft = ident"
    "paginas w p = Some pg" "nro_pagina pg = n" by (auto simp: tiene_ocupa)
  from j obtain s q gt qg where b: "ocupa w j s q" "file_tags w s = Some gt" "identificador gt = ident"
    "paginas w q = Some qg" "nro_pagina qg = n" by (auto simp: tiene_ocupa)
  have "r = s" using mismo_identificador[OF fo a(2) b(2)] a(3) b(3) by simp
  then have "p \<in> set (tabla_paginas ft)" "q \<in> set (tabla_paginas ft)"
    using ocupa_tabla[OF fo a(1)] ocupa_tabla[OF fo b(1)] a(2) by (auto simp: en_tabla_def)
  then have "p = q"
    using pagina_por_nro(3)[OF fo a(2), of p pg] pagina_por_nro(3)[OF fo a(2), of q qg] a(4,5) b(4,5) by simp
  then show ?thesis using a(1,4) b(1) by (auto simp: ocupa_def)
qed

lemma vista_presente:
  assumes "forma_ok w" and "i < cantidad_marcos w" and "tiene w i ident n"
  shows "vista S w ident n = Some (contenido i w)"
proof -
  have "find (\<lambda>i. tiene w i ident n) [0..<cantidad_marcos w] = Some i"
    unfolding find_Some_iff
  proof (intro exI[of _ i] conjI allI impI)
    fix j assume "j < i"
    then show "\<not> tiene w ([0..<cantidad_marcos w] ! j) ident n"
      using tiene_unico[OF assms, of j] assms(2) by auto
  qed (use assms in simp_all)
  then show ?thesis by (simp add: vista_def)
qed

lemma vista_ausente:
  "\<forall>i < cantidad_marcos w. \<not> tiene w i ident n \<Longrightarrow> vista S w ident n = pag S (entorno w) ident n"
  by (auto simp: vista_def find_None_iff split: option.split dest!: find_Some_iff[THEN iffD1])

lemma contenido_mem_get:
  assumes "forma_ok w" and "i < cantidad_marcos w"
  shows "mem_get (p_marco i w) (tam_pagina w) w = Inr (contenido i w)"
    and "length (contenido i w) = nat (tam_pagina w)"
proof -
  have t: "0 < tam_pagina w" "int (Suc i) * tam_pagina w \<le> int (length (memoria w))"
    using tamanios_okD(1,4)[OF assms(1)] assms(2) by simp_all
  then have le: "i * nat (tam_pagina w) + nat (tam_pagina w) \<le> length (memoria w)"
    by (simp add: algebra_simps flip: zle_int)
  have "p_marco i w = int (i * nat (tam_pagina w))" using t(1) by (simp add: p_marco_def)
  moreover have "int (i * nat (tam_pagina w)) + tam_pagina w \<le> int (length (memoria w))"
    using le t(1) by (simp flip: zle_int)
  ultimately show "mem_get (p_marco i w) (tam_pagina w) w = Inr (contenido i w)"
    using t(1) by (simp add: mem_get_def contenido_def del: of_nat_mult)
  show "length (contenido i w) = nat (tam_pagina w)"
    using le by (simp add: contenido_def)
qed

section \<open>Steps that leave the pages as they are\<close>

definition igual_cache :: "'e worker \<Rightarrow> 'e worker \<Rightarrow> bool" where
  "igual_cache w w' \<longleftrightarrow>
     cantidad_marcos w' = cantidad_marcos w \<and>
     (\<forall>i < cantidad_marcos w. contenido i w' = contenido i w \<and>
        (\<forall>ident n. tiene w' i ident n = tiene w i ident n \<and> (tiene w i ident n \<longrightarrow> sucio w' i = sucio w i)))"

lemma igual_cache_vista:
  assumes "igual_cache w w'" and "pag S (entorno w') ident n = pag S (entorno w) ident n"
  shows "vista S w' ident n = vista S w ident n"
proof -
  have "find (\<lambda>i. tiene w' i ident n) [0..<cantidad_marcos w] = find (\<lambda>i. tiene w i ident n) [0..<cantidad_marcos w]"
    by (rule find_cong) (use assms(1) in \<open>auto simp: igual_cache_def\<close>)
  moreover have "cantidad_marcos w' = cantidad_marcos w" using assms(1) by (simp add: igual_cache_def)
  ultimately have f: "find (\<lambda>i. tiene w' i ident n) [0..<cantidad_marcos w'] =
      find (\<lambda>i. tiene w i ident n) [0..<cantidad_marcos w]" by simp
  have "contenido i w' = contenido i w" if "find (\<lambda>i. tiene w i ident n) [0..<cantidad_marcos w] = Some i" for i
    using that assms(1) by (auto simp: find_Some_iff igual_cache_def)
  then show ?thesis unfolding vista_def f by (auto simp: assms(2) split: option.split)
qed

lemma tiene_conocido:
  "conocidos S w \<Longrightarrow> tiene w i ident n \<Longrightarrow> ident \<in> nombres S"
  by (auto simp: tiene_def conocidos_def split: option.split_asm)

lemma igual_cache_transparente:
  assumes f: "basica S w" and ig: "igual_cache w w'" and l: "leal S (entorno w) (entorno w')"
  shows "transparente S w w'"
  unfolding transparente_def
proof (intro impI conjI)
  assume s: "sano S (entorno w')"
  then show "sano S (entorno w)" using l by (simp add: leal_def)
  have p: "pag S (entorno w') ident = pag S (entorno w) ident" if "ident \<in> nombres S" for ident
    using l s f that by (simp add: leal_def basica_def)
  then show "misma_vista S w w'" using igual_cache_vista[OF ig] by (auto simp: misma_vista_def fun_eq_iff)
  assume c: "coherente S w"
  show "coherente S w'"
    unfolding coherente_def
  proof (intro allI impI)
    fix i ident n assume h: "i < cantidad_marcos w'" "tiene w' i ident n" "\<not> sucio w' i"
    then have "i < cantidad_marcos w" "tiene w i ident n" "\<not> sucio w i" "contenido i w' = contenido i w"
      using ig by (auto simp: igual_cache_def)
    then show "pag S (entorno w') ident n = Some (contenido i w')"
      using c p[OF tiene_conocido[OF basicaD(5)[OF f]]] by (simp add: coherente_def)
  qed
qed

lemma tiene_misma_forma:
  assumes "misma_forma w w'"
  shows "tiene w' i ident n = tiene w i ident n"
proof -
  note f = misma_forma_ft[OF assms] and p = misma_forma_pagina[OF assms]
  have m: "bit_map w' = bit_map w" "m_identificador (marco w' ! i) = m_identificador (marco w ! i)"
    "m_pagina (marco w' ! i) = m_pagina (marco w ! i)"
    using assms by (simp_all add: misma_forma_def)
  have ft: "map_option forma_ft (file_tags w' r) = map_option forma_ft (file_tags w r)" for r
    using assms by (simp add: misma_forma_def)
  have pg: "map_option forma_pagina (paginas w' q) = map_option forma_pagina (paginas w q)" for q
    using assms by (simp add: misma_forma_def)
  have a: "(case file_tags w' r of None \<Rightarrow> False | Some ft \<Rightarrow> identificador ft = ident \<and> P) =
      (case file_tags w r of None \<Rightarrow> False | Some ft \<Rightarrow> identificador ft = ident \<and> P)" for r P
    using ft[of r] by (cases "file_tags w r"; cases "file_tags w' r") (auto simp: forma_ft_def)
  have b: "(case paginas w' q of None \<Rightarrow> False | Some pg \<Rightarrow> presencia pg \<and> nro_marco pg = int i \<and> nro_pagina pg = n) =
      (case paginas w q of None \<Rightarrow> False | Some pg \<Rightarrow> presencia pg \<and> nro_marco pg = int i \<and> nro_pagina pg = n)" for q
    using pg[of q] by (cases "paginas w q"; cases "paginas w' q") (auto simp: forma_pagina_def)
  show ?thesis unfolding tiene_def m a b ..
qed

definition mismos_sucios :: "'e worker \<Rightarrow> 'e worker \<Rightarrow> bool" where
  "mismos_sucios w w' \<longleftrightarrow> (\<forall>p. map_option modificado (paginas w' p) = map_option modificado (paginas w p))"

lemma igual_cache_forma:
  assumes m: "misma_forma w w'" and "memoria w' = memoria w" and s: "mismos_sucios w w'"
  shows "igual_cache w w'"
proof -
  have "sucio w' i = sucio w i" for i
  proof -
    have "(case paginas w' p of None \<Rightarrow> False | Some pg \<Rightarrow> modificado pg) =
        (case paginas w p of None \<Rightarrow> False | Some pg \<Rightarrow> modificado pg)" for p
      using s[unfolded mismos_sucios_def, THEN spec, of p]
      by (cases "paginas w p"; cases "paginas w' p") simp_all
    moreover have "m_pagina (marco w' ! i) = m_pagina (marco w ! i)" using m by (simp add: misma_forma_def)
    ultimately show ?thesis unfolding sucio_def by (cases "m_pagina (marco w ! i)") simp_all
  qed
  then show ?thesis
    using tiene_misma_forma[OF m] m assms(2) by (simp add: igual_cache_def contenido_def misma_forma_def)
qed

lemma forma_nros:
  assumes "misma_forma w w'" and "nros_ok w"
  shows "nros_ok w'"
  unfolding nros_ok_def
proof (intro allI impI)
  fix p pg assume "paginas w' p = Some pg"
  then obtain pg0 where "paginas w p = Some pg0" "nro_pagina pg0 = nro_pagina pg"
    using misma_forma_pagina[OF assms(1), of p "\<lambda>f. f = forma_pagina pg"] by (auto simp: forma_pagina_def)
  then show "0 \<le> nro_pagina pg \<and> nro_pagina pg < 2 ^ 31" using assms(2) unfolding nros_ok_def by metis
qed

lemma forma_conocidos:
  assumes "misma_forma w w'" and "conocidos S w"
  shows "conocidos S w'"
  unfolding conocidos_def
proof (intro allI impI)
  fix r ft assume "file_tags w' r = Some ft"
  then obtain ft0 where "file_tags w r = Some ft0" "identificador ft0 = identificador ft"
    using misma_forma_ft[OF assms(1), of r "\<lambda>f. f = forma_ft ft"] by (auto simp: forma_ft_def)
  then show "identificador ft \<in> nombres S" using assms(2) unfolding conocidos_def by metis
qed

lemma basica_forma:
  assumes "basica S w" and m: "misma_forma w w'" and "leal S (entorno w) (entorno w')"
  shows "basica S w'"
proof -
  have "tam_pagina w' = tam_pagina w" using m by (simp add: misma_forma_def)
  then show ?thesis
    using assms misma_forma_ok[OF m] forma_nros[OF m] forma_conocidos[OF m]
    by (simp add: basica_def leal_def)
qed

text \<open>The quiet steps: use bits, times, the pointer of CLOCK-M and neutral messages.\<close>

definition quieta :: "'e almacen_visto \<Rightarrow> 'e worker \<Rightarrow> 'e worker \<Rightarrow> bool" where
  "quieta S w w' \<longleftrightarrow>
     mismos_ft w w' \<and> memoria w' = memoria w \<and> mismos_sucios w w' \<and> leal S (entorno w) (entorno w')"

lemma quieta_refl [simp]: "quieta S w w"
  by (simp add: quieta_def mismos_sucios_def)

lemma quieta_trans: "quieta S w1 w2 \<Longrightarrow> quieta S w2 w3 \<Longrightarrow> quieta S w1 w3"
  using leal_trans mismos_ft_trans by (auto simp: quieta_def mismos_sucios_def)

lemma quieta_fiel: "firme S w \<Longrightarrow> quieta S w w' \<Longrightarrow> fiel S w w'"
  using basica_forma igual_cache_transparente[OF _ igual_cache_forma] mismos_ft_ok[of w w']
  by (auto simp: fiel_def firme_def quieta_def mismos_ft_def)

lemma quieta_steps:
  "okE (quieta S w) (set_pagina p (\<lambda>pg. pg\<lparr>uso := b\<rparr>) w)"
  "okE (quieta S w) (mover_puntero_clock k w)"
proof -
  show "okE (quieta S w) (set_pagina p (\<lambda>pg. pg\<lparr>uso := b\<rparr>) w)"
    using ft_steps(1)[of w p b]
    by (auto simp: set_pagina_def quieta_def mismos_sucios_def deref_def split: option.split)
  show "okE (quieta S w) (mover_puntero_clock k w)"
    using ft_steps(5)[of w k]
    by (auto simp: mover_puntero_clock_def quieta_def mismos_sucios_def Let_def list_get_def)
qed

lemma quieta_pasadas:
  "okE (\<lambda>(b, w'). quieta S w w') (clock_pasada_1 k w)"
  "okE (\<lambda>(b, w'). quieta S w w') (clock_pasada_2 k w)"
proof (induction k arbitrary: w)
  case (Suc k)
  { case 1
    show ?case
      by (auto intro!: consultas quieta_steps(2)[THEN okE_mono] Suc.IH(1)[THEN okE_mono]
          intro: quieta_trans)
  next
    case 2
    show ?case
      by (auto intro!: consultas quieta_steps[THEN okE_mono] Suc.IH(2)[THEN okE_mono])
         (blast intro: quieta_trans)+ }
qed simp_all

lemma quieta_clock: "okE (quieta S w) (clock_buscar v w)"
proof (induction v arbitrary: w)
  case (Suc v)
  show ?case
    by (auto intro!: quieta_pasadas[where S = S, THEN okE_mono] Suc.IH[THEN okE_mono])
       (blast intro: quieta_trans)+
qed simp

section \<open>Changes of the frames\<close>

text \<open>A File:Tag with no page in memory goes: no frame is concerned.\<close>

lemma liberar_ft_igual:
  assumes fo: "forma_ok w" and ft: "file_tags w r = Some ft"
    and np: "\<forall>p \<in> set (tabla_paginas ft). \<not> presente w p"
  shows "igual_cache w (liberar_ft r ft w)"
proof -
  let ?w = "liberar_ft r ft w"
  have fuera: "p \<notin> set (tabla_paginas ft) \<and> s \<noteq> r" if "ocupa w i s p" for i s p
    using ocupa_tabla[OF fo that] ocupa_presente[OF that] np ft by (auto simp: en_tabla_def)
  have oc: "ocupa ?w i s p \<longleftrightarrow> ocupa w i s p" for i s p
  proof (cases "p \<in> set (tabla_paginas ft)")
    case True
    then show ?thesis using fuera[of i s p] by (auto simp: ocupa_def liberar_ft_def)
  qed (simp add: ocupa_def liberar_ft_def)
  have "tiene ?w i ident n = tiene w i ident n" if "i < cantidad_marcos w" for i ident n
  proof -
    have ic: "i < cantidad_marcos ?w" using that by (simp add: liberar_ft_def)
    have "paginas ?w p = paginas w p" "file_tags ?w s = file_tags w s" if "ocupa w i s p" for s p
      using fuera[OF that] by (simp_all add: liberar_ft_def)
    then show ?thesis unfolding tiene_ocupa[OF that] tiene_ocupa[OF ic] oc by metis
  qed
  moreover have "sucio ?w i = sucio w i" if "i < cantidad_marcos w" "tiene w i ident n" for i ident n
  proof -
    from that obtain s p where "ocupa w i s p" by (auto simp: tiene_ocupa)
    then show ?thesis using fuera by (auto simp: sucio_def ocupa_def liberar_ft_def)
  qed
  ultimately show ?thesis
    by (simp add: igual_cache_def) (simp add: liberar_ft_def contenido_def)
qed

lemma liberar_ft_basica:
  assumes b: "basica S w" and ft: "file_tags w r = Some ft"
    and np: "\<forall>p \<in> set (tabla_paginas ft). \<not> presente w p"
  shows "basica S (liberar_ft r ft w)" and "transparente S w (liberar_ft r ft w)"
proof -
  have "nros_ok (liberar_ft r ft w)" using basicaD(4)[OF b] by (simp add: nros_ok_def liberar_ft_def)
  moreover have "conocidos S (liberar_ft r ft w)"
    using basicaD(5)[OF b] by (simp add: conocidos_def liberar_ft_def)
  ultimately show "basica S (liberar_ft r ft w)"
    using b liberar_ft_ok(1)[OF basicaD(1)[OF b] ft np] by (simp add: basica_def) (simp add: liberar_ft_def)
  show "transparente S w (liberar_ft r ft w)"
    by (rule igual_cache_transparente[OF b liberar_ft_igual[OF basicaD(1)[OF b] ft np]])
      (simp add: liberar_ft_def)
qed

lemma check_file_tag_fiel:
  assumes b: "basica S w" and ft: "file_tags w r = Some ft"
    and c: "cuentas_ok (\<lambda>s. if s = r then 1 else 0) w"
  shows "okE (fiel S w) (check_file_tag ext (identificador ft) id_nueva w)"
proof -
  let ?ft = "ft\<lparr>cantidad_paginas := cantidad_paginas ft - 1\<rparr>"
  let ?w = "descontar r ft w"
  note fo = basicaD(1)[OF b]
  note d = descontar_ok[OF fo ft c] and ch = check_file_tag_eq[OF fo ft c]
  have e: "entorno ?w = entorno w" "memoria ?w = memoria w" "paginas ?w = paginas w"
    by (simp_all add: descontar_def)
  then have bd: "basica S ?w" and td: "transparente S w ?w"
    using basica_forma[OF b d(1)] igual_cache_transparente[OF b igual_cache_forma[OF d(1)]]
    by (simp_all add: mismos_sucios_def)
  have ftr: "file_tags ?w r = Some ?ft" by (simp add: descontar_def)
  show ?thesis
  proof (cases "cantidad_paginas ft = 1 \<and> \<not> string_equals_ignore_case (identificador ft) id_nueva")
    case True
    have np: "\<forall>p \<in> set (tabla_paginas ?ft). \<not> presente ?w p" using ch(2) True by simp
    have "mem_ok (liberar_ft r ?ft ?w)"
      using liberar_ft_ok[OF _ ftr np] d(2) by (simp add: mem_ok_def)
    then have "fiel S w (liberar_ft r ?ft ?w)"
      using liberar_ft_basica[OF bd ftr np] transparente_trans[OF td] by (simp add: fiel_def firme_def)
    then show ?thesis using True unfolding ch(1) by simp
  next
    case False
    then have "check_file_tag ext (identificador ft) id_nueva w = Inr ?w" unfolding ch(1) by auto
    then show ?thesis using bd td d(2) by (simp add: fiel_def firme_def)
  qed
qed

text \<open>A page leaves its frame: its contents are the ones the storage has.\<close>

definition publicado :: "'e almacen_visto \<Rightarrow> nat \<Rightarrow> 'e worker \<Rightarrow> bool" where
  "publicado S i w \<longleftrightarrow> (\<forall>ident n. tiene w i ident n \<longrightarrow> pag S (entorno w) ident n = Some (contenido i w))"

lemma desocupar_tiene:
  assumes fo: "forma_ok w" and oc: "ocupa w i r p" and j: "j < cantidad_marcos w"
  shows "tiene (desocupar i p evicta w) j ident n \<longleftrightarrow> tiene w j ident n \<and> j \<noteq> i"
    and "j \<noteq> i \<Longrightarrow> tiene w j ident n \<Longrightarrow> sucio (desocupar i p evicta w) j = sucio w j"
proof -
  let ?w = "desocupar i p evicta w"
  have len: "i < length (bit_map w)" using oc tamanios_okD(3)[OF fo] by (simp add: ocupa_def)
  have otra: "q \<noteq> p" if "ocupa w j s q" "j \<noteq> i" for s q
    using that oc by (auto simp: ocupa_def)
  have "\<not> tiene ?w i ident n" using len by (simp add: tiene_def desocupar_def)
  moreover have "tiene ?w j ident n = tiene w j ident n" if "j \<noteq> i"
  proof -
    have jc: "j < cantidad_marcos ?w" using j by (simp add: desocupar_def)
    have "ocupa ?w j s q \<longleftrightarrow> ocupa w j s q" for s q
    proof (cases "q = p")
      case True
      then show ?thesis using otra[of s q] that by (auto simp: ocupa_def desocupar_def evicta_def)
    qed (use that in \<open>simp add: ocupa_def desocupar_def\<close>)
    moreover have "paginas ?w q = paginas w q" if "ocupa w j s q" for s q
      using otra[OF that \<open>j \<noteq> i\<close>] by (simp add: desocupar_def)
    moreover have "file_tags ?w = file_tags w" by (simp add: desocupar_def)
    ultimately show ?thesis unfolding tiene_ocupa[OF j] tiene_ocupa[OF jc] by metis
  qed
  ultimately show "tiene ?w j ident n \<longleftrightarrow> tiene w j ident n \<and> j \<noteq> i" by blast
  assume "j \<noteq> i" "tiene w j ident n"
  then obtain s q where "ocupa w j s q" using j by (auto simp: tiene_ocupa)
  then show "sucio ?w j = sucio w j"
    using otra[OF _ \<open>j \<noteq> i\<close>] by (auto simp: sucio_def ocupa_def desocupar_def)
qed

lemma desocupar_vista:
  assumes b: "basica S w" and oc: "ocupa w i r p" and pu: "publicado S i w" and c: "coherente S w"
  shows "coherente S (desocupar i p evicta w)" and "misma_vista S w (desocupar i p evicta w)"
proof -
  let ?w = "desocupar i p evicta w"
  note fo = basicaD(1)[OF b] and t = desocupar_tiene[OF basicaD(1)[OF b] oc]
  have m: "cantidad_marcos ?w = cantidad_marcos w" "contenido j ?w = contenido j w" "entorno ?w = entorno w" for j
    by (simp_all add: desocupar_def contenido_def)
  show "coherente S ?w" using c t unfolding coherente_def m by blast
  have d1: "forma_ok ?w"
    by (rule desocupar_ok(1)[OF fo oc ocupa_tabla[OF fo oc]]) (simp add: evicta_def)
  have "vista S ?w ident n = vista S w ident n" for ident n
  proof (cases "\<exists>j < cantidad_marcos w. tiene w j ident n")
    case True
    then obtain j where j: "j < cantidad_marcos w" "tiene w j ident n" by blast
    note v = vista_presente[OF fo j, of S]
    show ?thesis
    proof (cases "j = i")
      case False
      then show ?thesis using vista_presente[OF d1, of j ident n S] t(1)[OF j(1)] j v m by simp
    next
      case True
      then have "\<forall>k < cantidad_marcos ?w. \<not> tiene ?w k ident n"
        using t(1) tiene_unico[OF fo j] unfolding m by blast
      then have "vista S ?w ident n = pag S (entorno w) ident n" by (simp add: vista_ausente m)
      then show ?thesis using pu j True v by (simp add: publicado_def)
    qed
  next
    case False
    then have "\<forall>k < cantidad_marcos ?w. \<not> tiene ?w k ident n" using t(1) unfolding m by blast
    then show ?thesis using False by (simp add: vista_ausente m)
  qed
  then show "misma_vista S w ?w" by (simp add: misma_vista_def fun_eq_iff)
qed

lemma desocupar_basica:
  assumes b: "basica S w" and oc: "ocupa w i r p"
  shows "basica S (desocupar i p evicta w)"
proof -
  note fo = basicaD(1)[OF b]
  have "forma_ok (desocupar i p evicta w)"
    by (rule desocupar_ok(1)[OF fo oc ocupa_tabla[OF fo oc]]) (simp add: evicta_def)
  moreover have "nros_ok (desocupar i p evicta w)"
    using basicaD(4)[OF b] by (auto simp: nros_ok_def desocupar_def evicta_def)
  ultimately show ?thesis using b by (simp add: basica_def) (simp add: conocidos_def desocupar_def)
qed

section \<open>The storage as the worker relies on it\<close>

locale servidor_paginas =
  fixes ext :: "'e externos" and S :: "'e almacen_visto"
  assumes sin_caso: "a \<in> nombres S \<Longrightarrow> b \<in> nombres S \<Longrightarrow> string_equals_ignore_case a b \<Longrightarrow> a = b"
    and reloj: "gettime ext e = (t, e') \<Longrightarrow> leal S e e'"
    and lectura: "master_rta ext m e = (res, e') \<Longrightarrow> leal S e e'"
    and consulta: "storage_paquete ext (INFO_FILE_TAG_STORAGE, items) e = (rsp, e') \<Longrightarrow> leal S e e'"
    and tamanio_ft: "buena S e \<Longrightarrow> ident \<in> nombres S \<Longrightarrow> agregar_file_tag ext ident = Inr items \<Longrightarrow>
      storage_paquete ext (INFO_FILE_TAG_STORAGE, items) e = (Some (INFO_FILE_TAG_WORKER, tam # rest), e') \<Longrightarrow>
      - 1 \<le> sint (bytes_int tam)"
    and pedido: "storage_paquete ext (SOLICITUD_STORAGE, items) e = (rsp, e') \<Longrightarrow> leal S e e'"
    and pagina: "buena S e \<Longrightarrow> ident \<in> nombres S \<Longrightarrow> agregar_file_tag ext ident = Inr items \<Longrightarrow>
      storage_paquete ext (SOLICITUD_STORAGE, items @ [int_bytes n, q]) e =
        (Some (PAGINA_WORKER, rta # contents # rest), e') \<Longrightarrow>
      rta_of (bytes_int rta) = Some OP_EXITOSA \<Longrightarrow>
      pag S e ident (sint n) = Some contents \<and> int (length contents) = tam_bloque S"
    and cambios: "buena S e \<Longrightarrow> ident \<in> nombres S \<Longrightarrow> agregar_file_tag ext ident = Inr items \<Longrightarrow>
      int (length contents) = tam_bloque S \<Longrightarrow>
      storage_rta ext (MODIFICACIONES_STORAGE, items @ [int_bytes n, contents, q]) e = (res', e') \<Longrightarrow>
      buena S e' \<and>
      (sano S e' \<longrightarrow> sano S e \<and>
        (res' = Some OP_EXITOSA \<longrightarrow>
           (\<forall>a \<in> nombres S. pag S e' a =
              (if a = ident then (pag S e ident)(sint n \<mapsto> contents) else pag S e a))))"
    and aviso: "(buena S e \<longrightarrow> buena S (master_envio ext (ERROR_AT_EXEC, items) e)) \<and>
      \<not> sano S (master_envio ext (ERROR_AT_EXEC, items) e)"
begin

lemma quieta_entorno:
  assumes "en_entorno f w = (x, w')" and "\<And>x e'. f (entorno w) = (x, e') \<Longrightarrow> leal S (entorno w) e'"
  shows "quieta S w w'"
  using assms ft_entorno[OF assms(1)]
  by (auto simp: en_entorno_def quieta_def mismos_sucios_def split: prod.split_asm)

lemma quieta_sellar: "quieta S w (sellar_marco ext i w)"
  using ft_sellar[of w ext i] reloj
  by (auto simp: sellar_marco_def en_entorno_def quieta_def mismos_sucios_def split: prod.split)

lemma quieta_lectura: "okE (quieta S w) (enviar_lectura ext ident bs n w)"
  unfolding enviar_lectura_def
  by (auto dest!: quieta_entorno[OF _ lectura] split: prod.split option.split resultado_t.split)

lemma quieta_metadata:
  assumes "buena S (entorno w)" and "ident \<in> nombres S"
  shows "okE (\<lambda>(n, w'). 0 \<le> n \<and> n < 2 ^ 31 \<and> quieta S w w') (solicitar_metadata ext ident w)"
proof -
  have n: "sint (bytes_int b) < 2 ^ 31" for b
    using sint_lt[of "bytes_int b"] by simp
  have "okE (\<lambda>(n, w'). 0 \<le> n \<and> n < 2 ^ 31 \<and> quieta S w w')
      (case en_entorno (storage_paquete ext (INFO_FILE_TAG_STORAGE, items)) w of
         (None, w) \<Rightarrow> Inl ExitFailure
       | (Some (codigo, rsp), w) \<Rightarrow>
           if codigo \<noteq> INFO_FILE_TAG_WORKER then Inl ExitFailure
           else (case rsp of [] \<Rightarrow> Inl NullDeref
              | b # _ \<Rightarrow> if sint (bytes_int b) = - 1 then Inl ExitFailure else Inr (sint (bytes_int b), w)))"
    if it: "agregar_file_tag ext ident = Inr items" for items
  proof -
    obtain r e' where r: "storage_paquete ext (INFO_FILE_TAG_STORAGE, items) (entorno w) = (r, e')" by force
    then have en: "en_entorno (storage_paquete ext (INFO_FILE_TAG_STORAGE, items)) w = (r, w\<lparr>entorno := e'\<rparr>)"
      by (simp add: en_entorno_def)
    have q: "quieta S w (w\<lparr>entorno := e'\<rparr>)" by (rule quieta_entorno[OF en consulta])
    have "0 \<le> sint (bytes_int b)"
      if "r = Some (INFO_FILE_TAG_WORKER, b # rest)" "sint (bytes_int b) \<noteq> - 1" for b rest
    proof -
      have "- 1 \<le> sint (bytes_int b)" using tamanio_ft[OF assms it] r that(1) by blast
      with that(2) show ?thesis by linarith
    qed
    then show ?thesis using q n unfolding en by (auto split: option.split list.split)
  qed
  then show ?thesis
    unfolding solicitar_metadata_def Let_def
    by (cases "agregar_file_tag ext ident") simp_all
qed

end

section \<open>Replacement\<close>

text \<open>A page is sent: the storage has it from then on, or an error has been reported.\<close>

definition publica :: "'e almacen_visto \<Rightarrow> nat \<Rightarrow> 'e worker \<Rightarrow> 'e worker \<Rightarrow> bool" where
  "publica S i w w' \<longleftrightarrow>
     w' = w\<lparr>entorno := entorno w'\<rparr> \<and> buena S (entorno w') \<and>
     (sano S (entorno w') \<longrightarrow>
        sano S (entorno w) \<and>
        (coherente S w \<longrightarrow> coherente S w' \<and> misma_vista S w w' \<and> publicado S i w'))"

lemma otro_entorno [simp]:
  "tiene (w\<lparr>entorno := e\<rparr>) = tiene w" "sucio (w\<lparr>entorno := e\<rparr>) = sucio w"
  "contenido i (w\<lparr>entorno := e\<rparr>) = contenido i w" "ocupa (w\<lparr>entorno := e\<rparr>) = ocupa w"
  "forma_ok (w\<lparr>entorno := e\<rparr>) = forma_ok w"
proof -
  show "forma_ok (w\<lparr>entorno := e\<rparr>) = forma_ok w"
    using misma_forma_ok[of w "w\<lparr>entorno := e\<rparr>"] misma_forma_ok[of "w\<lparr>entorno := e\<rparr>" w]
    by (auto simp: misma_forma_def)
qed (simp_all add: tiene_def sucio_def contenido_def ocupa_def fun_eq_iff cong: option.case_cong)

lemma vista_entorno:
  "pag S e ident n = pag S (entorno w) ident n \<Longrightarrow> vista S (w\<lparr>entorno := e\<rparr>) ident n = vista S w ident n"
  by (simp add: vista_def cong: option.case_cong)

lemma nro_word:
  "nros_ok w \<Longrightarrow> paginas w p = Some pg \<Longrightarrow> sint (word_of_int (nro_pagina pg) :: int32) = nro_pagina pg"
  unfolding nros_ok_def by (subst sint_sbintrunc') (fastforce intro!: signed_take_bit_int_eq_self)

lemma publica_entorno:
  assumes b: "basica S w" and i: "i < cantidad_marcos w" "tiene w i ident n"
    and p: "\<forall>a \<in> nombres S. pag S e a =
      (if a = ident then (pag S (entorno w) ident)(n \<mapsto> contenido i w) else pag S (entorno w) a)"
    and c: "coherente S w"
  shows "coherente S (w\<lparr>entorno := e\<rparr>)" and "misma_vista S w (w\<lparr>entorno := e\<rparr>)"
    and "publicado S i (w\<lparr>entorno := e\<rparr>)"
proof -
  note fo = basicaD(1)[OF b]
  have N: "a \<in> nombres S" if "tiene w j a m" for j a m by (rule tiene_conocido[OF basicaD(5)[OF b] that])
  have pe: "pag S e a m = (if a = ident \<and> m = n then Some (contenido i w) else pag S (entorno w) a m)"
    if "a \<in> nombres S" for a m
    using p that by auto
  show "coherente S (w\<lparr>entorno := e\<rparr>)"
    unfolding coherente_def
  proof (intro allI impI)
    fix j a m assume h: "j < cantidad_marcos (w\<lparr>entorno := e\<rparr>)" "tiene (w\<lparr>entorno := e\<rparr>) j a m"
      "\<not> sucio (w\<lparr>entorno := e\<rparr>) j"
    show "pag S (entorno (w\<lparr>entorno := e\<rparr>)) a m = Some (contenido j (w\<lparr>entorno := e\<rparr>))"
    proof (cases "a = ident \<and> m = n")
      case True
      then have "j = i" using tiene_unico[OF fo _ _ i] h by simp
      then show ?thesis using pe[OF N[OF i(2)]] True by simp
    next
      case False
      then have "pag S e a m = pag S (entorno w) a m" using pe[OF N[of j a m], of m] h by auto
      then show ?thesis using c h by (simp add: coherente_def)
    qed
  qed
  have "vista S (w\<lparr>entorno := e\<rparr>) a m = vista S w a m" if "a \<in> nombres S" for a m
  proof (cases "a = ident \<and> m = n")
    case True
    then show ?thesis
      using vista_presente[OF fo i, of S] vista_presente[of "w\<lparr>entorno := e\<rparr>" i ident n S] fo i by simp
  next
    case False
    then show ?thesis using pe[OF that, of m] by (intro vista_entorno) auto
  qed
  then show "misma_vista S w (w\<lparr>entorno := e\<rparr>)" by (simp add: misma_vista_def fun_eq_iff)
  have "a = ident \<and> m = n" if "tiene w i a m" for a m
    using that i(2) by (auto simp: tiene_def split: option.split_asm)
  then show "publicado S i (w\<lparr>entorno := e\<rparr>)"
    using pe[OF N[OF i(2)]] by (auto simp: publicado_def)
qed

context servidor_paginas
begin

lemma notificar_publica:
  assumes b: "basica S w" and oc: "ocupa w i r p" and ft: "file_tags w r = Some ft"
  shows "okE (publica S i w) (notificar_cambios ext p (identificador ft) (p_marco i w) w)"
proof -
  let ?id = "identificador ft"
  note fo = basicaD(1)[OF b] and bu = basicaD(2)[OF b]
  have i: "i < cantidad_marcos w" using oc by (simp add: ocupa_def)
  obtain pg where pg: "paginas w p = Some pg" using oc by (auto simp: ocupa_def)
  have N: "?id \<in> nombres S" using basicaD(5)[OF b] ft by (auto simp: conocidos_def)
  have ti: "tiene w i ?id (nro_pagina pg)" using i oc ft pg by (auto simp: tiene_ocupa)
  note m = contenido_mem_get[OF fo i]
  have len: "int (length (contenido i w)) = tam_bloque S"
    using m(2) tamanios_okD(1)[OF fo] basicaD(3)[OF b] by simp
  have rta: "okE (publica S i w)
      (case en_entorno (storage_rta ext (MODIFICACIONES_STORAGE,
              items @ [int_bytes (word_of_int (nro_pagina pg)), contenido i w, cstr (query_id w)])) w of
         (None, w) \<Rightarrow> Inl ExitFailure
       | (Some result, w) \<Rightarrow> Inr (if result \<noteq> OP_EXITOSA then notif_query_error ext result w else w))"
    if it: "agregar_file_tag ext ?id = Inr items" for items
  proof -
    obtain r e where r: "storage_rta ext (MODIFICACIONES_STORAGE,
        items @ [int_bytes (word_of_int (nro_pagina pg)), contenido i w, cstr (query_id w)]) (entorno w) = (r, e)"
      by force
    note c = cambios[OF bu N it len r, unfolded nro_word[OF basicaD(4)[OF b] pg]]
    have "publica S i w (w\<lparr>entorno := e\<rparr>)" if "r = Some OP_EXITOSA"
      using c that publica_entorno[OF b i ti, of e] by (simp add: publica_def)
    moreover have "publica S i w (notif_query_error ext result (w\<lparr>entorno := e\<rparr>))" for result
      using c aviso by (simp add: publica_def notif_query_error_def)
    ultimately show ?thesis by (simp add: en_entorno_def r split: option.split)
  qed
  show ?thesis
    unfolding notificar_cambios_def deref_Some[of "paginas w", OF pg] bindE.simps(2) m(1)
    by (cases "agregar_file_tag ext ?id") (simp_all add: rta)
qed

lemma publica_si_sucia:
  assumes b: "basica S w" and oc: "ocupa w i r p" and ft: "file_tags w r = Some ft" and pg: "paginas w p = Some pg"
  shows "okE (publica S i w)
    (if modificado pg then notificar_cambios ext p (identificador ft) (p_marco i w) w else Inr w)"
proof (cases "modificado pg")
  case False
  have i: "i < cantidad_marcos w" using oc by (simp add: ocupa_def)
  have "publicado S i w" if c: "coherente S w"
  proof -
    have "\<not> sucio w i" using oc pg False by (simp add: sucio_def ocupa_def)
    then show ?thesis using c i by (simp add: coherente_def publicado_def)
  qed
  then show ?thesis using False basicaD(2)[OF b] by (simp add: publica_def misma_vista_def)
qed (simp add: notificar_publica[OF b oc ft])

text \<open>The whole of an eviction.\<close>

lemma evicta_fiel:
  assumes f: "firme S w" and oc: "ocupa w i r p" and ft: "file_tags w r = Some ft"
    and pu: "publica S i w w0" and q: "quieta S (desocupar i p evicta w0) w1"
  shows "okE (fiel S w) (check_file_tag ext (identificador ft) ident w1)"
proof -
  obtain e where e: "w0 = w\<lparr>entorno := e\<rparr>" using pu unfolding publica_def by blast
  have oc0: "ocupa w0 i r p" and ft0: "file_tags w0 r = Some ft" using oc ft by (simp_all add: e)
  have m0: "misma_forma w w0" by (simp add: e misma_forma_def)
  have "conocidos S w0" "nros_ok w0"
    using forma_conocidos[OF m0] forma_nros[OF m0] basicaD(4,5)[OF firmeD(2)[OF f]] by blast+
  then have b0: "basica S w0"
    using firmeD(2)[OF f] pu misma_forma_ok[OF m0] by (simp add: basica_def publica_def) (simp add: e)
  note bd = desocupar_basica[OF b0 oc0]
  have m1: "misma_forma (desocupar i p evicta w0) w1" "leal S (entorno (desocupar i p evicta w0)) (entorno w1)"
    using q by (simp_all add: quieta_def mismos_ft_def)
  note b1 = basica_forma[OF bd m1]
  have t1: "transparente S (desocupar i p evicta w0) w1"
    using igual_cache_transparente[OF bd igual_cache_forma[OF m1(1)] m1(2)] q by (simp add: quieta_def)
  have t: "transparente S w w1"
    unfolding transparente_def
  proof (intro impI)
    assume s: "sano S (entorno w1)"
    then have "sano S (entorno w0)" using t1 by (simp add: transparente_def) (simp add: desocupar_def)
    then have w0: "sano S (entorno w)"
      "coherente S w \<Longrightarrow> coherente S w0 \<and> misma_vista S w w0 \<and> publicado S i w0"
      using pu by (simp_all add: publica_def)
    moreover have "coherente S w1 \<and> misma_vista S w w1" if c: "coherente S w"
    proof -
      note d = desocupar_vista[OF b0 oc0]
      have "coherente S (desocupar i p evicta w0)" "misma_vista S w0 (desocupar i p evicta w0)"
        using d w0(2)[OF c] by blast+
      moreover have "misma_vista S w w0" using w0(2)[OF c] by blast
      ultimately show ?thesis using t1 s unfolding transparente_def misma_vista_def by metis
    qed
    ultimately show "sano S (entorno w) \<and> (coherente S w \<longrightarrow> coherente S w1 \<and> misma_vista S w w1)" by blast
  qed
  have ft1: "file_tags w1 r = Some ft" using q ft0 by (simp add: quieta_def mismos_ft_def desocupar_def)
  have "cuentas_ok (\<lambda>s. if s = r then 1 else 0) (desocupar i p evicta w0)"
  proof (rule desocupar_ok(3)[OF basicaD(1)[OF b0] oc0 ocupa_tabla[OF basicaD(1)[OF b0] oc0]])
    show "cuentas_ok (\<lambda>r. 0) w0"
      using firmeD(1)[OF f] mismos_ft_cuentas[of w w0] m0 by (simp add: mem_ok_def mismos_ft_def e)
  qed (simp add: evicta_def)
  then have "cuentas_ok (\<lambda>s. if s = r then 1 else 0) w1"
    using q mismos_ft_cuentas by (auto simp: quieta_def)
  from check_file_tag_fiel[OF b1 ft1 this] show ?thesis
    by (rule okE_mono) (use transparente_trans[OF t] in \<open>auto simp: fiel_def\<close>)
qed

end

end
