(* ===== verification/Worker_Transparencia.thy ===== *)
theory Worker_Transparencia
  imports Worker_Coherencia
begin

text \<open>
  Replacement, loading and the access path leave what every page reads as unchanged, whatever
  frames they take: the cache is transparent. Inside \<open>servidor_paginas\<close>.
\<close>

section \<open>Replacement\<close>

text \<open>A frame that is found holding the page.\<close>

definition de_pagina :: "'e worker \<Rightarrow> string \<Rightarrow> int \<Rightarrow> nat \<Rightarrow> bool" where
  "de_pagina w ident nro p \<longleftrightarrow>
     (\<exists>i r ft pg. ocupa w i r p \<and> file_tags w r = Some ft \<and> identificador ft = ident \<and>
        paginas w p = Some pg \<and> nro_pagina pg = nro)"

lemma publica_forma:
  assumes "firme S w" and "publica S i w w0"
  shows "forma_ok w0" "ocupa w0 = ocupa w" "file_tags w0 = file_tags w"
proof -
  obtain e where "w0 = w\<lparr>entorno := e\<rparr>" using assms(2) unfolding publica_def by blast
  then show "forma_ok w0" "ocupa w0 = ocupa w" "file_tags w0 = file_tags w"
    using firmeD(3)[OF assms(1)] by simp_all
qed

context servidor_paginas
begin

lemma lru_fiel:
  assumes f: "firme S w" and lleno: "marco_libre w = - 1"
  shows "okE (\<lambda>(n, w'). fiel S w w') (algoritmo_LRU ext ident w)"
proof (cases "marco w = []")
  case False
  let ?i = "lru_victima (marco w) (cantidad_marcos w)"
  note fo = firmeD(3)[OF f]
  have "0 < cantidad_marcos w" using False tamanios_okD(2)[OF fo] by (cases "marco w") auto
  then have i: "?i < cantidad_marcos w" unfolding lru_victima_def by (rule foldl_min_time[THEN conjunct1])
  then obtain r p where rp: "ocupa w ?i r p" "en_tabla w r p"
    using pagina_de_marco[OF fo _ marco_libre_lleno[OF lleno]] by blast
  then obtain ft pg where pg: "file_tags w r = Some ft"
    "ident_marco (marco w ! ?i) w = Inr (identificador ft)" "m_pagina (marco w ! ?i) = Some p"
    "paginas w p = Some pg"
    by (rule ocupa_ident)
  have sigue: "okE (\<lambda>(n, w'). fiel S w w') (bindE (actualizar_pagina p w0) (\<lambda>(nro, w).
      bindE (check_file_tag ext (identificador ft) ident w) (\<lambda>w. Inr (nro, w))))" if p: "publica S ?i w w0" for w0
  proof -
    note k = publica_forma[OF f p]
    have "actualizar_pagina p w0 = Inr (int ?i, desocupar ?i p evicta w0)"
      using actualizar_pagina_desocupa[OF k(1)] rp(1) k(2) by simp
    then show ?thesis
      using evicta_fiel[OF f rp(1) pg(1) p quieta_refl, of ident] by (simp add: okE_mono)
  qed
  have "okE (\<lambda>w0. okE (\<lambda>(n, w'). fiel S w w') (bindE (actualizar_pagina p w0) (\<lambda>(nro, w).
      bindE (check_file_tag ext (identificador ft) ident w) (\<lambda>w. Inr (nro, w)))))
    (if modificado pg then notificar_cambios ext p (identificador ft) (p_marco ?i w) w else Inr w)"
    by (rule okE_mono[OF publica_si_sucia[OF firmeD(2)[OF f] rp(1) pg(1,4)]]) (rule sigue)
  then show ?thesis
    using False pg by (simp add: algoritmo_LRU_def Let_def cong del: if_weak_cong)
qed (simp add: algoritmo_LRU_def)

lemma clock_m_fiel:
  assumes f: "firme S w" and lleno: "marco_libre w = - 1"
  shows "okE (\<lambda>(n, w'). fiel S w w') (algoritmo_CLOCK_M v ext ident w)"
proof -
  have elige: "okE (\<lambda>(n, w'). fiel S w w')
      (bindE (puntero (victima_clock w1)) (\<lambda>i. bindE (list_get (marco w1) (int i)) (\<lambda>nm.
       bindE (puntero (m_pagina nm)) (\<lambda>p. bindE (deref (paginas w1) p) (\<lambda>pg.
       bindE (ident_marco nm w1) (\<lambda>id.
       bindE (if modificado pg then notificar_cambios ext p id (p_marco i w1) w1 else Inr w1) (\<lambda>w.
       bindE (actualizar_pagina p w) (\<lambda>(nro, w).
       bindE (set_pagina p (\<lambda>pg. pg\<lparr>uso := False\<rparr>) w) (\<lambda>w.
       bindE (check_file_tag ext id ident w) (\<lambda>w.
       bindE (mover_puntero_clock (nro + 1) w) (\<lambda>w. Inr (nro, w))))))))))))"
    if q1: "quieta S w w1" for w1
  proof (cases "\<exists>i < cantidad_marcos w. victima_clock w1 = Some i")
    case False
    have "length (marco w1) = cantidad_marcos w"
      using tamanios_okD(2)[OF firmeD(3)[OF f]] q1 by (simp add: quieta_def mismos_ft_def misma_forma_def)
    then show ?thesis
      using False by (cases "victima_clock w1") (auto simp: puntero_def list_get_def)
  next
    case True
    then obtain i where i: "i < cantidad_marcos w" "victima_clock w1 = Some i" by blast
    have fw1: "fiel S w w1" by (rule quieta_fiel[OF f q1])
    note f1 = fielD[OF fw1]
    have m1: "mismos_ft w w1" using q1 by (simp add: quieta_def)
    note k1 = mismos_ft_mem_ok[OF m1 firmeD(1)[OF f]]
    obtain r p where rp: "ocupa w1 i r p" "en_tabla w1 r p"
      using pagina_de_marco[OF firmeD(3)[OF f] i(1) marco_libre_lleno[OF lleno i(1)]] k1(2,3) by auto
    then obtain ft pg where pg: "file_tags w1 r = Some ft"
      "ident_marco (marco w1 ! i) w1 = Inr (identificador ft)" "m_pagina (marco w1 ! i) = Some p"
      "paginas w1 p = Some pg"
      by (rule ocupa_ident)
    have len: "i < length (marco w1)"
      using i(1) tamanios_okD(2)[OF firmeD(3)[OF f]] m1 by (simp add: mismos_ft_def misma_forma_def)
    have sigue: "okE (\<lambda>(n, w'). fiel S w w') (bindE (actualizar_pagina p w0) (\<lambda>(nro, w).
        bindE (set_pagina p (\<lambda>pg. pg\<lparr>uso := False\<rparr>) w) (\<lambda>w.
        bindE (check_file_tag ext (identificador ft) ident w) (\<lambda>w.
        bindE (mover_puntero_clock (nro + 1) w) (\<lambda>w. Inr (nro, w))))))" if p0: "publica S i w1 w0" for w0
    proof -
      note k0 = publica_forma[OF f1 p0]
      have a: "actualizar_pagina p w0 = Inr (int i, desocupar i p evicta w0)"
        using actualizar_pagina_desocupa[OF k0(1)] rp(1) k0(2) by simp
      have "okE (\<lambda>w3. okE (\<lambda>(n, w'). fiel S w w') (bindE (mover_puntero_clock (int i + 1) w3) (\<lambda>w. Inr (int i, w))))
          (check_file_tag ext (identificador ft) ident w2)"
        if q2: "quieta S (desocupar i p evicta w0) w2" for w2
      proof (rule okE_mono[OF evicta_fiel[OF f1 rp(1) pg(1) p0 q2]])
        fix w3 assume w3: "fiel S w1 w3"
        have "fiel S w w4" if "quieta S w3 w4" for w4
          using fiel_trans[OF fiel_trans[OF fw1 w3] quieta_fiel[OF fielD[OF w3] that]] .
        then show "okE (\<lambda>(n, w'). fiel S w w') (bindE (mover_puntero_clock (int i + 1) w3) (\<lambda>w. Inr (int i, w)))"
          by (simp add: quieta_steps(2)[where S = S, THEN okE_mono])
      qed
      then show ?thesis using a by (simp add: quieta_steps(1)[where S = S, THEN okE_mono])
    qed
    have "okE (\<lambda>w0. okE (\<lambda>(n, w'). fiel S w w') (bindE (actualizar_pagina p w0) (\<lambda>(nro, w).
        bindE (set_pagina p (\<lambda>pg. pg\<lparr>uso := False\<rparr>) w) (\<lambda>w.
        bindE (check_file_tag ext (identificador ft) ident w) (\<lambda>w.
        bindE (mover_puntero_clock (nro + 1) w) (\<lambda>w. Inr (nro, w)))))))
      (if modificado pg then notificar_cambios ext p (identificador ft) (p_marco i w1) w1 else Inr w1)"
      by (rule okE_mono[OF publica_si_sucia[OF firmeD(2)[OF f1] rp(1) pg(1,4)]]) (rule sigue)
    then show ?thesis using i(2) len pg by (simp cong del: if_weak_cong)
  qed
  show ?thesis
    unfolding algoritmo_CLOCK_M_def okE_bindE
    by (rule okE_mono[OF quieta_clock[where S = S]]) (use elige in simp)
qed

lemma asignar_fiel:
  "firme S w \<Longrightarrow> okE (\<lambda>(n, w'). fiel S w w') (asignar_marco v ext ident w)"
  by (simp add: asignar_marco_def algoritmo_reemplazo_def lru_fiel clock_m_fiel fiel_refl Let_def)

end

section \<open>Contents of the frames\<close>

text \<open>Bytes put inside a frame.\<close>

lemma contenido_put:
  assumes fo: "forma_ok w" and i: "i < cantidad_marcos w" and j: "j < cantidad_marcos w"
    and d: "int d + int (length bs) \<le> tam_pagina w"
    and put: "mem_put (p_marco i w + int d) bs w = Inr w'"
  shows "contenido j w' =
    (if j = i then take d (contenido i w) @ bs @ drop (d + length bs) (contenido i w) else contenido j w)"
    and "\<exists>m. w' = w\<lparr>memoria := m\<rparr> \<and> length m = length (memoria w)"
proof -
  let ?T = "nat (tam_pagina w)" and ?M = "memoria w"
  have T: "0 < tam_pagina w" by (rule tamanios_okD(1)[OF fo])
  have o: "p_marco i w + int d = int (i * ?T + d)" using T by (simp add: p_marco_def)
  have dT: "d + length bs \<le> ?T" using d by linarith
  show 2: "\<exists>m. w' = w\<lparr>memoria := m\<rparr> \<and> length m = length ?M" by (rule mem_put_only[OF put])
  then have m: "misma_forma w w'" and ma: "cantidad_marcos w' = cantidad_marcos w" "tam_pagina w' = tam_pagina w"
    by (auto simp: misma_forma_def)
  have fo': "forma_ok w'" by (rule misma_forma_ok[OF m fo])
  have le: "(Suc k) * ?T \<le> length ?M" if "k < cantidad_marcos w" for k
  proof -
    have "int (Suc k * ?T) = int (Suc k) * tam_pagina w" using T by (simp only: of_nat_mult) simp
    then have "int (Suc k * ?T) \<le> int (length ?M)" using tamanios_okD(4)[OF fo that] by simp
    then show ?thesis by linarith
  qed
  show "contenido j w' =
    (if j = i then take d (contenido i w) @ bs @ drop (d + length bs) (contenido i w) else contenido j w)"
  proof (cases "j = i")
    case True
    have w': "memoria w' = take (i * ?T + d) ?M @ bs @ drop (i * ?T + d + length bs) ?M"
      using put unfolding o mem_put_def by (auto simp del: of_nat_add of_nat_mult split: if_split_asm)
    define X where "X = drop (i * ?T) ?M"
    have X: "?T \<le> length X" "i * ?T + d \<le> length ?M" using le[OF i] dT by (simp_all add: X_def)
    have "drop (i * ?T) (memoria w') = take d X @ bs @ drop (d + length bs) X"
      unfolding w' X_def using X(2) by (simp add: drop_take ac_simps)
    moreover have "take ?T (take d X @ bs @ drop (d + length bs) X) =
        take d (take ?T X) @ bs @ drop (d + length bs) (take ?T X)"
      using X(1) dT by (cases "d = ?T") (simp_all add: take_drop[symmetric] drop_take min_def)
    ultimately have "take ?T (drop (i * ?T) (memoria w')) =
        take d (take ?T (drop (i * ?T) ?M)) @ bs @ drop (d + length bs) (take ?T (drop (i * ?T) ?M))"
      unfolding X_def by simp
    then show ?thesis using True by (simp add: contenido_def ma)
  next
    case False
    have "(Suc j) * ?T \<le> i * ?T \<or> (Suc i) * ?T \<le> j * ?T"
      using False by (metis Suc_leI mult_le_mono1 nat_neq_iff)
    then have "int (Suc j * ?T) \<le> int (i * ?T) \<or> int (Suc i * ?T) \<le> int (j * ?T)" by linarith
    then have "p_marco j w + tam_pagina w \<le> p_marco i w + int d \<or>
        p_marco i w + int d + int (length bs) \<le> p_marco j w"
      using T d by (simp add: p_marco_def) linarith
    from mem_get_put(2)[OF put this] have "mem_get (p_marco j w) (tam_pagina w) w' = mem_get (p_marco j w) (tam_pagina w) w" .
    then show ?thesis
      using contenido_mem_get(1)[OF fo j] contenido_mem_get(1)[OF fo', of j] j False ma by (simp add: p_marco_def)
  qed
qed

section \<open>Loading a page\<close>

lemma ocupar_tiene:
  assumes fo: "forma_ok w" and i: "i < cantidad_marcos w" "\<not> bit_map w ! i"
    and np: "\<not> presente w p" and ft: "file_tags w r = Some ft" and pg: "paginas w p = Some pg"
    and j: "j < cantidad_marcos w"
  shows "tiene (ocupar i r p m w) j a n \<longleftrightarrow>
      (if j = i then a = identificador ft \<and> n = nro_pagina pg else tiene w j a n)"
    and "j \<noteq> i \<Longrightarrow> tiene w j a n \<Longrightarrow> sucio (ocupar i r p m w) j = sucio w j"
proof -
  let ?w = "ocupar i r p m w"
  have len: "i < length (bit_map w)" "i < length (marco w)"
    using i(1) tamanios_okD(2,3)[OF fo] by simp_all
  have otra: "q \<noteq> p" if "ocupa w j s q" for s q using ocupa_presente[OF that] np by auto
  have jc: "j < cantidad_marcos ?w" using j by (simp add: ocupar_def)
  have F: "map_option identificador (file_tags ?w s) = map_option identificador (file_tags w s)" for s
    using ft by (simp add: ocupar_def)
  show "tiene ?w j a n \<longleftrightarrow> (if j = i then a = identificador ft \<and> n = nro_pagina pg else tiene w j a n)"
  proof (cases "j = i")
    case True
    then show ?thesis using len ft pg by (auto simp: tiene_def ocupar_def)
  next
    case False
    have oc: "ocupa ?w j s q \<longleftrightarrow> ocupa w j s q \<and> q \<noteq> p" for s q
      using False otra[of s q] by (cases "q = p") (auto simp: ocupa_def ocupar_def)
    have pa: "paginas ?w q = paginas w q" if "q \<noteq> p" for q using that by (simp add: ocupar_def)
    show ?thesis
      unfolding tiene_ocupa_map[OF j] tiene_ocupa_map[OF jc] oc F if_not_P[OF False]
      by (intro arg_cong[where f = Ex] ext) (use otra pa in auto)
  qed
  assume "j \<noteq> i" "tiene w j a n"
  then obtain s q where "ocupa w j s q" using j by (auto simp: tiene_ocupa)
  then show "sucio ?w j = sucio w j"
    using otra \<open>j \<noteq> i\<close> by (auto simp: sucio_def ocupa_def ocupar_def)
qed

lemma ocupar_vista:
  assumes b: "basica S w" and i: "i < cantidad_marcos w" "\<not> bit_map w ! i"
    and np: "\<not> presente w p" and ft: "file_tags w r = Some ft" and pg: "paginas w p = Some pg"
    and en: "p \<in> set (tabla_paginas ft)" and fo': "forma_ok (ocupar i r p m w)"
    and co: "\<And>j. j < cantidad_marcos w \<Longrightarrow> contenido j (ocupar i r p m w) = (if j = i then c else contenido j w)"
    and v: "vista S w (identificador ft) (nro_pagina pg) = Some c" and coh: "coherente S w"
  shows "coherente S (ocupar i r p m w)" and "misma_vista S w (ocupar i r p m w)"
proof -
  let ?w = "ocupar i r p m w" and ?id = "identificador ft" and ?n = "nro_pagina pg"
  note fo = basicaD(1)[OF b]
  note t = ocupar_tiene[OF fo i np ft pg, where m = m]
  have ma: "cantidad_marcos ?w = cantidad_marcos w" "entorno ?w = entorno w" by (simp_all add: ocupar_def)
  have fuera: "\<not> tiene w j ?id ?n" if j: "j < cantidad_marcos w" for j
  proof
    assume "tiene w j ?id ?n"
    then obtain s q ft' qg where q: "ocupa w j s q" "file_tags w s = Some ft'" "identificador ft' = ?id"
      "paginas w q = Some qg" "nro_pagina qg = ?n" using j by (auto simp: tiene_ocupa)
    have "s = r" using mismo_identificador[OF fo q(2) ft] q(3) by simp
    then have "q \<in> set (tabla_paginas ft)" using ocupa_tabla[OF fo q(1)] ft by (auto simp: en_tabla_def)
    then have "q = p"
      using pagina_por_nro(3)[OF fo ft _ q(4)] pagina_por_nro(3)[OF fo ft en pg] q(5) by simp
    then show False using ocupa_presente[OF q(1)] np by simp
  qed
  then have pc: "pag S (entorno w) ?id ?n = Some c" using v by (simp add: vista_ausente)
  show "coherente S ?w"
    unfolding coherente_def ma
  proof (intro allI impI)
    fix j a n assume h: "j < cantidad_marcos w" "tiene ?w j a n" "\<not> sucio ?w j"
    show "pag S (entorno w) a n = Some (contenido j ?w)"
    proof (cases "j = i")
      case True
      then show ?thesis using t(1)[OF h(1)] h(2) pc co[OF h(1)] by simp
    next
      case False
      then have "tiene w j a n" "\<not> sucio w j" using t[OF h(1)] h by simp_all
      then show ?thesis using coh h(1) co[OF h(1)] False by (simp add: coherente_def)
    qed
  qed
  have "vista S ?w a n = vista S w a n" for a n
  proof (cases "\<exists>j < cantidad_marcos w. tiene ?w j a n")
    case True
    then obtain j where j: "j < cantidad_marcos w" "tiene ?w j a n" by blast
    then have "vista S ?w a n = Some (contenido j ?w)" using vista_presente[OF fo', of j a n S] ma by simp
    moreover have "vista S w a n = Some (contenido j ?w)"
    proof (cases "j = i")
      case True
      then show ?thesis using t(1)[OF j(1)] j(2) v co[OF j(1)] by simp
    next
      case False
      then show ?thesis using t(1)[OF j(1)] j vista_presente[OF fo j(1), of a n S] co[OF j(1)] by simp
    qed
    ultimately show ?thesis by simp
  next
    case False
    have "\<not> tiene w j a n" if j: "j < cantidad_marcos w" for j
      using False t(1)[OF j] fuera[OF j] j i by (cases "j = i") (auto simp: tiene_def)
    then show ?thesis using False by (simp add: vista_ausente ma)
  qed
  then show "misma_vista S w ?w" by (simp add: misma_vista_def fun_eq_iff)
qed

context servidor_paginas
begin

lemma cargar_fiel:
  assumes f0: "fiel S w0 w" and i: "i < cantidad_marcos w" "\<not> bit_map w ! i" and ft: "file_tags w r = Some ft"
    and np: "\<And>k. nro = int k \<Longrightarrow> k < length (tabla_paginas ft) \<Longrightarrow> \<not> presente w (tabla_paginas ft ! k)"
    and len: "int (length c) = tam_bloque S"
    and v: "sano S (entorno w) \<Longrightarrow> coherente S w0 \<Longrightarrow> vista S w (identificador ft) nro = Some c"
  shows "okE (\<lambda>(p, w'). fiel S w0 w' \<and> de_pagina w' (identificador ft) nro p)
    (cargar r nro (int i) (c # cs) w)"
proof (rule okE_I)
  fix x assume x: "cargar r nro (int i) (c # cs) w = Inr x"
  obtain p w' where pw: "x = (p, w')" by force
  have f: "firme S w" by (rule fielD[OF f0])
  note b = firmeD(2)[OF f] and fo = firmeD(3)[OF f]
  obtain m where m: "w' = ocupar i r p m w" "length m = length (memoria w)" "0 \<le> nro"
    "nat nro < length (tabla_paginas ft)" "p = tabla_paginas ft ! nat nro"
    "int i * tam_pagina w + int (length c) \<le> int (length (memoria w))"
    "m = take (i * nat (tam_pagina w)) (memoria w) @ c @ drop (i * nat (tam_pagina w) + length c) (memoria w)"
    using cargar_eq[OF fo i(1) ft x[unfolded pw]] by auto
  have en: "p \<in> set (tabla_paginas ft)" using m(4,5) by simp
  obtain pg where pg: "paginas w p = Some pg" using paginas_de_tabla[OF fo ft en] by blast
  have nro: "nro_pagina pg = nro"
    using forma_okD(5)[OF fo ft] m(3-5) pg by (auto simp: tabla_ok_def)
  have npp: "\<not> presente w p" using np[of "nat nro"] m(3-5) by simp
  have ent: "en_tabla w r p" using en ft by (auto simp: en_tabla_def)
  have mo: "mem_ok w'" using ocupar_ok[OF firmeD(1)[OF f] i ent npp m(2)] m(1) by simp
  have o: "p_marco i w + int 0 = int (i * nat (tam_pagina w))" "int i * tam_pagina w = int (i * nat (tam_pagina w))"
    using tamanios_okD(1)[OF fo] by (simp_all add: p_marco_def)
  have put: "mem_put (p_marco i w + int 0) c w = Inr (w\<lparr>memoria := m\<rparr>)"
    using m(6,7) unfolding o by (simp add: mem_put_def del: of_nat_mult)
  have co: "contenido j (ocupar i r p m w) = (if j = i then c else contenido j w)" if "j < cantidad_marcos w" for j
  proof -
    have "contenido j (ocupar i r p m w) = contenido j (w\<lparr>memoria := m\<rparr>)"
      by (simp add: contenido_def ocupar_def)
    also have "\<dots> = (if j = i then c else contenido j w)"
      using contenido_put(1)[OF fo i(1) that _ put] contenido_mem_get(2)[OF fo i(1)] len basicaD(3)[OF b]
      by simp
    finally show ?thesis .
  qed
  have ba: "basica S w'"
  proof -
    have "nros_ok w'" using basicaD(4)[OF b] by (auto simp: nros_ok_def m(1) ocupar_def)
    moreover have "conocidos S w'" using basicaD(5)[OF b] ft by (auto simp: conocidos_def m(1) ocupar_def)
    ultimately show ?thesis using b mo by (simp add: basica_def mem_ok_def) (simp add: m(1) ocupar_def)
  qed
  have fo': "forma_ok (ocupar i r p m w)" using mo m(1) by (simp add: mem_ok_def)
  have "transparente S w0 w'"
    unfolding transparente_def
  proof (intro impI conjI)
    assume "sano S (entorno w')"
    then have s: "sano S (entorno w)" by (simp add: m(1) ocupar_def)
    then show "sano S (entorno w0)" using f0 by (simp add: fiel_def transparente_def)
    assume c: "coherente S w0"
    have cw: "coherente S w" "misma_vista S w0 w" using f0 s c by (simp_all add: fiel_def transparente_def)
    note o = ocupar_vista[OF b i npp ft pg en fo' co v[OF s c, folded nro] cw(1)]
    show "coherente S w'" "misma_vista S w0 w'" using o cw(2) m(1) by (simp_all add: misma_vista_def)
  qed
  then have "fiel S w0 w'" using mo ba by (simp add: fiel_def firme_def)
  moreover have "de_pagina w' (identificador ft) nro p"
  proof -
    have "ocupa w' i r p" using i pg tamanios_okD(2,3)[OF fo] by (auto simp: ocupa_def m(1) ocupar_def)
    moreover have "\<exists>ft'. file_tags w' r = Some ft' \<and> identificador ft' = identificador ft"
      using ft by (simp add: m(1) ocupar_def)
    moreover have "\<exists>pg'. paginas w' p = Some pg' \<and> nro_pagina pg' = nro"
      using pg nro by (simp add: m(1) ocupar_def)
    ultimately show ?thesis unfolding de_pagina_def by blast
  qed
  ultimately show "case x of (p, w') \<Rightarrow> fiel S w0 w' \<and> de_pagina w' (identificador ft) nro p"
    by (simp add: pw)
qed

text \<open>A request answered with a page: what the page read as before.\<close>

lemma solicitar_fiel:
  assumes f: "firme S w" and N: "ident \<in> nombres S"
    and b: "buscar_file_tag ident (file_tag_pages w) w = Inr (Some r)"
    and ft: "file_tags w r = Some ft" and id: "identificador ft = ident"
    and np: "\<And>k. nro = int k \<Longrightarrow> k < length (tabla_paginas ft) \<Longrightarrow> \<not> presente w (tabla_paginas ft ! k)"
    and nro: "0 \<le> nro" "nro < 2 ^ 31"
  shows "okE (\<lambda>(p, w'). fiel S w w' \<and> de_pagina w' ident nro p) (solicitar_pagina v ext ident nro w)"
proof -
  note fo = firmeD(3)[OF f] and ba = firmeD(2)[OF f]
  have si: "sint (word_of_int nro :: int32) = nro"
    using nro by (subst sint_sbintrunc') (auto intro!: signed_take_bit_int_eq_self)
  have fuera: "\<not> tiene w j ident nro" if j: "j < cantidad_marcos w" for j
  proof
    assume "tiene w j ident nro"
    then obtain s q ft' qg where q: "ocupa w j s q" "file_tags w s = Some ft'" "identificador ft' = ident"
      "paginas w q = Some qg" "nro_pagina qg = nro" using j by (auto simp: tiene_ocupa)
    have "s = r" using mismo_identificador[OF fo q(2) ft] q(3) id by simp
    then have qt: "q \<in> set (tabla_paginas ft)" using ocupa_tabla[OF fo q(1)] ft by (auto simp: en_tabla_def)
    then show False
      using pagina_por_nro[OF fo ft qt q(4)] q(5) np[of "nat nro"] ocupa_presente[OF q(1)] by simp
  qed
  have sigue: "okE (\<lambda>a. \<forall>n w2. a = (n, w2) \<longrightarrow> okE (\<lambda>(p, w'). fiel S w w' \<and> de_pagina w' ident nro p)
        (cargar r nro n (c # cs) w2)) (asignar_marco v ext ident w1)"
    if q: "quieta S w w1" and pa: "pag S (entorno w) ident nro = Some c" and len: "int (length c) = tam_bloque S"
    for w1 c cs
  proof (rule okE_I, intro allI impI)
    fix a n w2 assume a: "asignar_marco v ext ident w1 = Inr a" "a = (n, w2)"
    have f1: "fiel S w w1" by (rule quieta_fiel[OF f q])
    have m: "mismos_ft w w1" using q by (simp add: quieta_def)
    have f2: "fiel S w1 w2" using okE_D[OF asignar_fiel[OF fielD[OF f1]] a(1)] a(2) by simp
    obtain i where i: "mem_ok w2" "conserva ident w1 w2" "i < cantidad_marcos w2" "n = int i" "\<not> bit_map w2 ! i"
      using okE_D[OF elegir_marco[OF firmeD(1)[OF fielD[OF f1]]] a(1)] a(2) by (auto simp: reemplazo_ok_def)
    obtain ft2 where ft2: "file_tags w2 r = Some ft2" "tabla_paginas ft2 = tabla_paginas ft"
      "identificador ft2 = identificador ft" "\<forall>p \<in> set (tabla_paginas ft). presente w2 p \<longrightarrow> presente w p"
      by (rule conserva_ft[OF conserva_trans[OF mismos_ft_mem_ok(5)[OF m firmeD(1)[OF f]] i(2)] ft])
        (auto simp: id)
    have f12: "fiel S w w2" by (rule fiel_trans[OF f1 f2])
    have "okE (\<lambda>(p, w'). fiel S w w' \<and> de_pagina w' (identificador ft2) nro p) (cargar r nro (int i) (c # cs) w2)"
    proof (rule cargar_fiel[OF f12 i(3,5) ft2(1) _ len])
      show "\<not> presente w2 (tabla_paginas ft2 ! k)" if "nro = int k" "k < length (tabla_paginas ft2)" for k
        using that np ft2(2,4) by auto
      assume s: "sano S (entorno w2)" and c: "coherente S w"
      have "vista S w ident nro = Some c" using pa fuera by (simp add: vista_ausente)
      then show "vista S w2 (identificador ft2) nro = Some c"
        using f12 s c N ft2(3) id by (simp add: fiel_def transparente_def misma_vista_def)
    qed
    then show "okE (\<lambda>(p, w'). fiel S w w' \<and> de_pagina w' ident nro p) (cargar r nro n (c # cs) w2)"
      using i(4) ft2(3) id by simp
  qed
  have pide: "okE (\<lambda>(p, w'). fiel S w w' \<and> de_pagina w' ident nro p)
      (case en_entorno (storage_paquete ext (SOLICITUD_STORAGE,
              items @ [int_bytes (word_of_int nro), cstr (query_id w)])) w of
         (None, w) \<Rightarrow> Inl ExitFailure
       | (Some (codigo, rsp), w) \<Rightarrow>
           if codigo \<noteq> PAGINA_WORKER then Inl ExitFailure
           else (case rsp of [] \<Rightarrow> Inl NullDeref
              | rta # datos \<Rightarrow>
                  if rta_of (bytes_int rta) \<noteq> Some OP_EXITOSA then Inl ExitFailure
                  else bindE (asignar_marco v ext ident w) (\<lambda>(indice, w). cargar r nro indice datos w)))"
    if it: "agregar_file_tag ext ident = Inr items" for items
  proof -
    let ?m = "(SOLICITUD_STORAGE, items @ [int_bytes (word_of_int nro), cstr (query_id w)])"
    obtain x e where x: "storage_paquete ext ?m (entorno w) = (x, e)" by force
    then have en: "en_entorno (storage_paquete ext ?m) w = (x, w\<lparr>entorno := e\<rparr>)" by (simp add: en_entorno_def)
    have q: "quieta S w (w\<lparr>entorno := e\<rparr>)" by (rule quieta_entorno[OF en pedido])
    show ?thesis
    proof (cases "\<exists>rta datos. x = Some (PAGINA_WORKER, rta # datos) \<and> rta_of (bytes_int rta) = Some OP_EXITOSA")
      case True
      then obtain rta datos where xx: "x = Some (PAGINA_WORKER, rta # datos)" "rta_of (bytes_int rta) = Some OP_EXITOSA"
        by blast
      show ?thesis
      proof (cases datos)
        case Nil
        have "okE (\<lambda>(p, w'). fiel S w w' \<and> de_pagina w' ident nro p) (cargar r nro n [] w2)" for n w2
          unfolding cargar_def by (auto intro!: okE_I elim!: bindE_Inl_iff[THEN iffD1] simp: bindE_Inr_iff)
        then show ?thesis unfolding en xx Nil by (simp add: okE_I split: prod.split)
      next
        case (Cons c cs)
        note pg = pagina[OF basicaD(2)[OF ba] N it x[unfolded xx Cons] xx(2), unfolded si]
        show ?thesis
          using sigue[OF q conjunct1[OF pg] conjunct2[OF pg], of cs] xx(2)
          by (auto simp: en xx(1) Cons elim!: okE_mono)
      qed
    qed (auto simp: en split: option.split list.split)
  qed
  have ftm: "file_tag_en_memoria ext ident w = Inr (r, w)" using b by (simp add: file_tag_en_memoria_def)
  show ?thesis
    unfolding solicitar_pagina_def ftm bindE.simps prod.case
    by (cases "agregar_file_tag ext ident") (simp_all add: pide del: okE_bindE)
qed

end

section \<open>Tables\<close>

text \<open>New pages and changed tables concern no frame.\<close>

lemma tablas_igual:
  assumes fo: "forma_ok w"
    and m: "cantidad_marcos w' = cantidad_marcos w" "bit_map w' = bit_map w" "marco w' = marco w"
      "memoria w' = memoria w" "tam_pagina w' = tam_pagina w"
    and p: "\<And>q pg. paginas w q = Some pg \<Longrightarrow> paginas w' q = Some pg"
    and r: "\<And>s ft. file_tags w s = Some ft \<Longrightarrow> \<exists>ft'. file_tags w' s = Some ft' \<and> identificador ft' = identificador ft"
  shows "igual_cache w w'"
proof -
  have "tiene w' i a n = tiene w i a n \<and> sucio w' i = sucio w i" if i: "i < cantidad_marcos w" "bit_map w ! i" for i a n
  proof -
    obtain s q where o: "ocupa w i s q" "en_tabla w s q" using pagina_de_marco[OF fo i] by blast
    then obtain ft pg where ft: "file_tags w s = Some ft" "m_identificador (marco w ! i) = Some s"
      "m_pagina (marco w ! i) = Some q" "paginas w q = Some pg" by (auto simp: ocupa_def en_tabla_def)
    obtain ft' where "file_tags w' s = Some ft'" "identificador ft' = identificador ft" using r[OF ft(1)] by blast
    then show ?thesis using ft p[OF ft(4)] by (simp add: tiene_def sucio_def m)
  qed
  moreover have "tiene w' i a n = tiene w i a n \<and> (tiene w i a n \<longrightarrow> sucio w' i = sucio w i)"
    if "\<not> bit_map w ! i" for i a n using that by (simp add: tiene_def m)
  ultimately show ?thesis unfolding igual_cache_def by (metis contenido_def m(1,4,5))
qed

lemma tablas_fiel:
  assumes f: "firme S w" and mo: "mem_ok w'" and e: "entorno w' = entorno w"
    and m: "cantidad_marcos w' = cantidad_marcos w" "bit_map w' = bit_map w" "marco w' = marco w"
      "memoria w' = memoria w" "tam_pagina w' = tam_pagina w"
    and p: "\<And>q pg. paginas w q = Some pg \<Longrightarrow> paginas w' q = Some pg"
    and r: "\<And>s ft. file_tags w s = Some ft \<Longrightarrow> \<exists>ft'. file_tags w' s = Some ft' \<and> identificador ft' = identificador ft"
    and n: "nros_ok w'" and c: "conocidos S w'"
  shows "fiel S w w'"
proof -
  have "basica S w'" using mo n c basicaD(2,3)[OF firmeD(2)[OF f]] by (simp add: basica_def mem_ok_def e m)
  moreover have "transparente S w w'"
    by (rule igual_cache_transparente[OF firmeD(2)[OF f] tablas_igual[OF firmeD(3)[OF f] m p r]]) (simp_all add: e)
  ultimately show ?thesis using mo by (simp add: fiel_def firme_def)
qed

lemma generar_nros:
  assumes g: "generar_paginas is w = (ps, w')" and "nros_ok w" and "\<forall>i \<in> set is. int i < 2 ^ 31"
  shows "nros_ok w'"
  unfolding nros_ok_def
proof (intro allI impI)
  fix q pg assume q: "paginas w' q = Some pg"
  note n = generar_paginas_nuevas[OF g]
  show "0 \<le> nro_pagina pg \<and> nro_pagina pg < 2 ^ 31"
  proof (cases "q \<in> set ps")
    case True
    then obtain k where k: "k < length ps" "q = ps ! k" by (auto simp: in_set_conv_nth)
    then have "k < length is" "nro_pagina pg = int (is ! k)" using n q by auto
    then show ?thesis using assms(3) by simp
  next
    case False
    then have "paginas w q = Some pg" using n q by metis
    then show ?thesis using assms(2) unfolding nros_ok_def by blast
  qed
qed

lemma generar_viejas:
  assumes "generar_paginas is w = (ps, w')" and "forma_ok w" and "paginas w q = Some pg"
  shows "paginas w' q = Some pg"
proof -
  note n = generar_paginas_nuevas[OF assms(1)]
  have "q < next_ref w" by (rule refs_okD(3)[OF assms(2,3)])
  then have "q \<notin> set ps" using n by fastforce
  then show ?thesis using n assms(3) by metis
qed

context servidor_paginas
begin

lemma metadata_de:
  "firme S w \<Longrightarrow> ident \<in> nombres S \<Longrightarrow>
   okE (\<lambda>(n, w'). 0 \<le> n \<and> mismos_ft w w') (solicitar_metadata ext ident w)"
  by (rule okE_mono[OF quieta_metadata[OF basicaD(2)[OF firmeD(2)]]]) (auto simp: quieta_def)

lemma file_tag_fiel:
  assumes f: "firme S w" and N: "ident \<in> nombres S"
  shows "okE (\<lambda>(r, w'). fiel S w w') (file_tag_en_memoria ext ident w)"
proof -
  have nuevo: "okE (\<lambda>(r, w'). fiel S w w') (agregar_file_tag_en_memoria ext ident w)"
    if b: "buscar_file_tag ident (file_tag_pages w) w = Inr None"
    unfolding agregar_file_tag_en_memoria_def okE_bindE
  proof (rule okE_mono[OF quieta_metadata[OF basicaD(2)[OF firmeD(2)[OF f]] N]])
    fix x :: "int \<times> 'e worker" assume x: "case x of (n, w') \<Rightarrow> 0 \<le> n \<and> n < 2 ^ 31 \<and> quieta S w w'"
    obtain n w1 where n: "x = (n, w1)" by force
    with x have h: "0 \<le> n" "n < 2 ^ 31" "quieta S w w1" by simp_all
    have f1: "fiel S w w1" by (rule quieta_fiel[OF f h(3)])
    have m1: "mismos_ft w w1" using h(3) by (simp add: quieta_def)
    have t: "0 < tam_pagina w1" by (rule tamanios_okD(1)[OF firmeD(3)[OF fielD[OF f1]]])
    obtain ps w2 where g: "generar_paginas [0..<nat (c_div n (tam_pagina w1))] w1 = (ps, w2)" by force
    let ?r = "next_ref w2"
    let ?w = "w2\<lparr>file_tags := (file_tags w2)(?r \<mapsto> \<lparr>identificador = ident,
        cantidad_paginas = c_div n (tam_pagina w1), tabla_paginas = ps\<rparr>),
      next_ref := Suc ?r, file_tag_pages := file_tag_pages w2 @ [?r]\<rparr>"
    note gn = generar_paginas_nuevas[OF g]
    obtain P k where P: "w2 = w1\<lparr>paginas := P, next_ref := k\<rparr>" using gn by blast
    have cero: "0 \<le> c_div n (tam_pagina w1)" using h(1) t by (simp add: c_div_pos pos_imp_zdiv_nonneg_iff)
    have b1: "buscar_file_tag ident (file_tag_pages w1) w1 = Inr None"
    proof -
      have e: "file_tag_pages w1 = file_tag_pages w" "file_tags w1 = file_tags w"
        using m1 by (simp_all add: mismos_ft_def misma_forma_def)
      then have "buscar_file_tag ident rs w1 = buscar_file_tag ident rs w" for rs
        by (induction rs) (simp_all cong del: if_weak_cong)
      then show ?thesis using b e by simp
    qed
    have mo: "mem_ok ?w"
      using tabla_nueva_ok[OF firmeD(1)[OF fielD[OF f1]] b1 g cero refl] by (simp add: hallado_def)
    have "c_div n (tam_pagina w1) \<le> n"
      using h(1) t by (simp add: c_div_pos) (metis div_by_1 int_one_le_iff_zero_less zdiv_mono2 zero_less_one)
    then have chicos: "\<forall>i \<in> set [0..<nat (c_div n (tam_pagina w1))]. int i < 2 ^ 31"
      using h(2) by auto
    have "fiel S w1 ?w"
    proof (rule tablas_fiel[OF fielD[OF f1] mo])
      show "paginas ?w q = Some pg" if "paginas w1 q = Some pg" for q pg
        using generar_viejas[OF g firmeD(3)[OF fielD[OF f1]] that] by simp
      show "\<exists>ft'. file_tags ?w s = Some ft' \<and> identificador ft' = identificador ft" if s: "file_tags w1 s = Some ft" for s ft
      proof -
        have "s < next_ref w1" by (rule refs_okD(2)[OF firmeD(3)[OF fielD[OF f1]] s])
        then show ?thesis using s gn by (simp add: P)
      qed
      show "nros_ok ?w"
        using generar_nros[OF g basicaD(4)[OF firmeD(2)[OF fielD[OF f1]]] chicos] by (simp add: nros_ok_def)
      show "conocidos S ?w"
        using basicaD(5)[OF firmeD(2)[OF fielD[OF f1]]] N by (simp add: conocidos_def P)
    qed (simp_all add: P)
    then have "fiel S w ?w" by (rule fiel_trans[OF f1])
    then show "okE (\<lambda>(r, w'). fiel S w w') (case x of (size_ft, w) \<Rightarrow>
        if tam_pagina w = 0 then Inl DivByZero
        else let cant = c_div size_ft (tam_pagina w); (tabla, w) = generar_paginas [0..<nat cant] w; r = next_ref w
             in Inr (r, w\<lparr>file_tags := (file_tags w)(r \<mapsto>
                        \<lparr>identificador = ident, cantidad_paginas = cant, tabla_paginas = tabla\<rparr>),
                      next_ref := Suc r, file_tag_pages := file_tag_pages w @ [r]\<rparr>))"
      using t by (simp add: n g Let_def)
  qed
  show ?thesis
    unfolding file_tag_en_memoria_def okE_bindE
    by (rule okE_I) (use nuevo fiel_refl[OF f] in \<open>auto split: option.split\<close>)
qed

lemma actualizar_fiel:
  assumes f: "firme S w" and ft: "file_tags w r = Some ft"
  shows "okE (fiel S w) (actualizar_tabla ext r w)"
proof (rule okE_I)
  fix w' assume a: "actualizar_tabla ext r w = Inr w'"
  let ?n = "length (tabla_paginas ft)"
  have N: "identificador ft \<in> nombres S" using basicaD(5)[OF firmeD(2)[OF f]] ft by (auto simp: conocidos_def)
  have mo: "mem_ok w'" using okE_D[OF actualizar_tabla_ok[OF firmeD(1)[OF f] ft] a] by blast
  obtain tam w1 where m: "solicitar_metadata ext (identificador ft) w = Inr (tam, w1)"
    using a ft by (auto simp: actualizar_tabla_def bindE_Inr_iff)
  then have h: "0 \<le> tam" "tam < 2 ^ 31" "quieta S w w1"
    using okE_D[OF quieta_metadata[OF basicaD(2)[OF firmeD(2)[OF f]] N] m] by simp_all
  have f1: "fiel S w w1" by (rule quieta_fiel[OF f h(3)])
  note f1' = fielD[OF f1]
  have ft1: "file_tags w1 r = Some ft" using h(3) ft by (simp add: quieta_def mismos_ft_def)
  have t: "0 < tam_pagina w1" by (rule tamanios_okD(1)[OF firmeD(3)[OF f1']])
  let ?c = "c_div tam (tam_pagina w1)"
  show "fiel S w w'"
  proof (cases "int ?n < ?c")
    case True
    obtain ps w2 where g: "generar_paginas [?n..<nat ?c] w1 = (ps, w2)" by force
    obtain P k where P: "w2 = w1\<lparr>paginas := P, next_ref := k\<rparr>" using generar_paginas_nuevas[OF g] by blast
    have w': "w' = w2\<lparr>file_tags := (file_tags w1)(r \<mapsto> ft\<lparr>tabla_paginas := tabla_paginas ft @ ps\<rparr>)\<rparr>"
      using a t True by (simp add: actualizar_tabla_def ft m g Let_def set_file_tag_def P ft1)
    have "?c \<le> tam"
      using h(1) t by (simp add: c_div_pos) (metis div_by_1 int_one_le_iff_zero_less zdiv_mono2 zero_less_one)
    then have chicos: "\<forall>i \<in> set [?n..<nat ?c]. int i < 2 ^ 31" using h(2) by auto
    have "fiel S w1 w'"
    proof (rule tablas_fiel[OF f1' mo])
      show "paginas w' q = Some pg" if "paginas w1 q = Some pg" for q pg
        using generar_viejas[OF g firmeD(3)[OF f1'] that] by (simp add: w')
      show "nros_ok w'"
        using generar_nros[OF g basicaD(4)[OF firmeD(2)[OF f1']] chicos] by (simp add: nros_ok_def w')
      show "conocidos S w'"
        using basicaD(5)[OF firmeD(2)[OF f1']] N by (simp add: conocidos_def w' P)
    qed (use ft1 in \<open>auto simp: w' P\<close>)
    then show ?thesis by (rule fiel_trans[OF f1])
  next
    case False
    then obtain w2 where w2: "repeatE (nat (int ?n - ?c)) (quitar_ultima r) w1 = Inr w2"
      "set_file_tag r (\<lambda>f. f\<lparr>tabla_paginas := take (nat ?c) (tabla_paginas ft)\<rparr>) w2 = Inr w'"
      using a t by (auto simp: actualizar_tabla_def ft m Let_def bindE_Inr_iff)
    obtain fa where fa: "w2 = w1\<lparr>file_tags := (file_tags w1)(r \<mapsto> ft\<lparr>tabla_paginas := fa\<rparr>)\<rparr>"
      using okE_D[OF quitar_ultimas_ok[OF firmeD(1)[OF f1'] ft1] w2(1)] by blast
    then obtain fb where w': "w' = w1\<lparr>file_tags := (file_tags w1)(r \<mapsto> ft\<lparr>tabla_paginas := fb\<rparr>)\<rparr>"
      using w2(2) by (auto simp: set_file_tag_def)
    have "fiel S w1 w'"
    proof (rule tablas_fiel[OF f1' mo])
      show "nros_ok w'" using basicaD(4)[OF firmeD(2)[OF f1']] by (simp add: nros_ok_def w')
      show "conocidos S w'"
        using basicaD(5)[OF firmeD(2)[OF f1']] N by (simp add: conocidos_def w')
    qed (use ft1 in \<open>auto simp: w'\<close>)
    then show ?thesis by (rule fiel_trans[OF f1])
  qed
qed

end

section \<open>The access path\<close>

context servidor_paginas
begin

lemma de_pagina_presente:
  assumes "forma_ok w" and "file_tags w r = Some ft" and "p \<in> set (tabla_paginas ft)" and "presente w p"
    and "paginas w p = Some pg"
  shows "de_pagina w (identificador ft) (nro_pagina pg) p"
proof -
  have "en_tabla w r p" using assms(2,3) by (simp add: en_tabla_def)
  then obtain i where "ocupa w i r p" using marco_de_presente[OF assms(1) _ assms(4)] by blast
  then show ?thesis using assms(2,5) unfolding de_pagina_def by blast
qed

lemma pagina_en_Tabla_fiel:
  assumes f: "firme S w" and N: "ident \<in> nombres S"
  shows "okE (\<lambda>(p, w'). fiel S w w' \<and> (\<forall>q. p = Some q \<longrightarrow> de_pagina w' ident nro q))
    (pagina_en_Tabla v ext ident nro w)"
proof (rule okE_I)
  fix x assume x: "pagina_en_Tabla v ext ident nro w = Inr x"
  obtain r w1 where r: "file_tag_en_memoria ext ident w = Inr (r, w1)"
    using x by (auto simp: pagina_en_Tabla_def bindE_Inr_iff)
  have f1: "fiel S w w1" using okE_D[OF file_tag_fiel[OF f N] r] by simp
  have h1: "hallado ident r w1"
    using okE_D[OF file_tag_en_memoria_ok[OF metadata_de[OF f N] firmeD(1)[OF f]] r] by simp
  then obtain ft1 where ft1: "file_tags w1 r = Some ft1" by (auto simp: hallado_def)
  let ?act = "if int (length (tabla_paginas ft1)) < nro then actualizar_tabla ext r w1 else Inr w1"
  obtain w2 where w2: "?act = Inr w2"
    using x ft1 r by (cases ?act) (simp_all add: pagina_en_Tabla_def)
  have f2: "fiel S w1 w2"
    using w2 okE_D[OF actualizar_fiel[OF fielD[OF f1] ft1]] fiel_refl[OF fielD[OF f1]]
    by (auto split: if_split_asm)
  have h2: "hallado ident r w2"
    using w2 h1 okE_D[OF actualizar_tabla_ok[OF firmeD(1)[OF fielD[OF f1]] ft1]] mismos_ids_hallado[OF _ h1]
    by (auto split: if_split_asm)
  note f12 = fiel_trans[OF f1 f2] and fo2 = firmeD(3)[OF fielD[OF f2]]
  obtain ft where ft: "file_tags w2 r = Some ft" "string_equals_ignore_case (identificador ft) ident"
    and b: "buscar_file_tag ident (file_tag_pages w2) w2 = Inr (Some r)"
    using h2 by (auto simp: hallado_def)
  have id: "identificador ft = ident"
    using sin_caso[OF _ N ft(2)] basicaD(5)[OF firmeD(2)[OF fielD[OF f2]]] ft(1) by (auto simp: conocidos_def)
  have x2: "(if int (length (tabla_paginas ft)) < nro then Inr (None, w2)
       else bindE (list_get (tabla_paginas ft) nro) (\<lambda>p. bindE (deref (paginas w2) p) (\<lambda>pg.
           if presencia pg then Inr (Some p, w2)
           else bindE (solicitar_pagina v ext ident nro w2) (\<lambda>(p, w). Inr (Some p, w))))) = Inr x"
    using x by (simp add: pagina_en_Tabla_def r ft1 w2 ft(1) cong del: if_weak_cong)
  show "case x of (p, w') \<Rightarrow> fiel S w w' \<and> (\<forall>q. p = Some q \<longrightarrow> de_pagina w' ident nro q)"
  proof (cases "int (length (tabla_paginas ft)) < nro")
    case False
    then obtain p pg where p: "list_get (tabla_paginas ft) nro = Inr p" "paginas w2 p = Some pg"
      and x3: "(if presencia pg then Inr (Some p, w2)
           else bindE (solicitar_pagina v ext ident nro w2) (\<lambda>(p, w). Inr (Some p, w))) = Inr x"
      using x2 by (auto simp: bindE_Inr_iff deref_def split: option.split_asm)
    have k: "0 \<le> nro" "nat nro < length (tabla_paginas ft)" "p = tabla_paginas ft ! nat nro"
      using p(1) by (auto simp: list_get_def split: if_split_asm)
    have nro: "nro_pagina pg = nro" using forma_okD(5)[OF fo2 ft(1)] k p(2) by (auto simp: tabla_ok_def)
    have chico: "nro < 2 ^ 31"
      using basicaD(4)[OF firmeD(2)[OF fielD[OF f2]]] p(2) nro unfolding nros_ok_def by blast
    show ?thesis
    proof (cases "presencia pg")
      case True
      then have "de_pagina w2 ident nro p"
        using de_pagina_presente[OF fo2 ft(1), of p pg] p(2) k nro id by (simp add: presente_def)
      then show ?thesis using x3 True f12 by auto
    next
      case np: False
      have "\<not> presente w2 (tabla_paginas ft ! n)" if "nro = int n" "n < length (tabla_paginas ft)" for n
        using that p k np by (simp add: presente_def)
      note s = solicitar_fiel[OF fielD[OF f2] N b ft(1) id this k(1) chico, of v]
      obtain q w' where q: "solicitar_pagina v ext ident nro w2 = Inr (q, w')" "x = (Some q, w')"
        using x3 np by (auto simp: bindE_Inr_iff)
      show ?thesis using okE_D[OF s q(1)] q(2) fiel_trans[OF f12] by auto
    qed
  qed (use x2 f12 in auto)
qed

end

end
