(* ===== verification/Worker_Parser.thy ===== *)
theory Worker_Parser
  imports Worker_State
begin

text \<open>
  The query parser of \<open>worker/src/parser.c\<close>. The file is cut into lines and each line into
  words by \<open>string_split\<close>; the loop takes the lines from the last and puts every instruction
  in front. A word that is not there is the NULL that ends the array.
\<close>

section \<open>The parser\<close>

record t_instrucion =
  copi :: set_instrucciones
  i_identificador :: string
  datos :: "string list"

fun nombre_instruccion :: "set_instrucciones \<Rightarrow> string" where
  "nombre_instruccion CREATE = ''CREATE''"
| "nombre_instruccion TRUNCATE = ''TRUNCATE''"
| "nombre_instruccion WRITE = ''WRITE''"
| "nombre_instruccion FLUSH = ''FLUSH''"
| "nombre_instruccion COMMIT = ''COMMIT''"
| "nombre_instruccion READ = ''READ''"
| "nombre_instruccion TAG = ''TAG''"
| "nombre_instruccion DELETE = ''DELETE''"
| "nombre_instruccion END = ''END''"

definition instrucciones_l :: "string list" where
  "instrucciones_l = map nombre_instruccion instrucciones_set"

definition cadena :: "string list \<Rightarrow> nat \<Rightarrow> fault + string" where
  "cadena xs i = (if i < length xs then Inr (xs ! i) else Inl NullDeref)"

text \<open>The words copied to \<open>datos\<close>: one, two, three or none.\<close>

definition leer_datos :: "set_instrucciones \<Rightarrow> string list \<Rightarrow> fault + string list" where
  "leer_datos c tokens =
     (if c \<in> {CREATE, COMMIT, DELETE, FLUSH} then
        bindE (cadena tokens 1) (\<lambda>a. Inr [a])
      else if c \<in> {TRUNCATE, TAG} then
        bindE (cadena tokens 1) (\<lambda>a. bindE (cadena tokens 2) (\<lambda>b. Inr [a, b]))
      else if c \<in> {READ, WRITE} then
        bindE (cadena tokens 1) (\<lambda>a. bindE (cadena tokens 2) (\<lambda>b.
        bindE (cadena tokens 3) (\<lambda>d. Inr [a, b, d])))
      else Inr [])"

definition parsear_linea :: "'e externos \<Rightarrow> string \<Rightarrow> fault + t_instrucion" where
  "parsear_linea ext linea =
     (let tokens = string_split ext linea '' ''
      in bindE (cadena tokens 0) (\<lambda>ident.
           case find (\<lambda>c. string_equals_ignore_case ident (nombre_instruccion c)) instrucciones_set of
             None \<Rightarrow> Inl ExitFailure
           | Some c \<Rightarrow>
               bindE (leer_datos c tokens) (\<lambda>ds.
                 Inr \<lparr>copi = c, i_identificador = ident, datos = ds\<rparr>)))"

text \<open>The loop that pops the last line; its list of lines is given last line first.\<close>

fun parsear_lineas ::
    "'e externos \<Rightarrow> string list \<Rightarrow> t_instrucion list \<Rightarrow> fault + t_instrucion list" where
  "parsear_lineas ext [] instrs = Inr instrs"
| "parsear_lineas ext (l # ls) instrs =
     bindE (parsear_linea ext l) (\<lambda>i. parsear_lineas ext ls (i # instrs))"

definition parsear_archivo :: "'e externos \<Rightarrow> string \<Rightarrow> fault + t_instrucion list" where
  "parsear_archivo ext contenido =
     parsear_lineas ext (rev (string_split ext contenido [CHR 0x0A])) []"

section \<open>Order and round trip\<close>

lemma parsear_lineas_iff:
  "parsear_lineas ext (rev ls) acc = Inr is \<longleftrightarrow>
   (\<exists>js. is = js @ acc \<and> list_all2 (\<lambda>l i. parsear_linea ext l = Inr i) ls js)"
proof (induction ls arbitrary: acc "is" rule: rev_induct)
  case Nil
  show ?case by auto
next
  case (snoc l ls)
  show ?case
    by (auto simp: snoc.IH list_all2_append1 list_all2_Cons1 append_eq_append_conv2 dest: list_all2_lengthD[symmetric])
qed

text \<open>The words of an instruction and its line; \<open>juntar\<close> puts a separator between parts.\<close>

fun juntar :: "string \<Rightarrow> string list \<Rightarrow> string" where
  "juntar sep [] = []"
| "juntar sep [p] = p"
| "juntar sep (p # ps) = p @ sep @ juntar sep ps"

definition palabras :: "t_instrucion \<Rightarrow> string list" where
  "palabras i = i_identificador i # datos i"

definition aridad :: "set_instrucciones \<Rightarrow> nat" where
  "aridad c = (if c \<in> {CREATE, COMMIT, DELETE, FLUSH} then 1
               else if c \<in> {TRUNCATE, TAG} then 2 else if c \<in> {READ, WRITE} then 3 else 0)"

definition instruccion_ok :: "t_instrucion \<Rightarrow> bool" where
  "instruccion_ok i \<longleftrightarrow>
     string_equals_ignore_case (i_identificador i) (nombre_instruccion (copi i)) \<and>
     length (datos i) = aridad (copi i) \<and>
     list_all (\<lambda>p. p \<noteq> [] \<and> CHR 0x20 \<notin> set p \<and> CHR 0x0A \<notin> set p) (palabras i)"

definition escribir_script :: "t_instrucion list \<Rightarrow> string" where
  "escribir_script is = juntar [CHR 0x0A] (map (\<lambda>i. juntar '' '' (palabras i)) is)"

text \<open>What the parser relies on: \<open>string_split\<close> gives back the parts that were joined.\<close>

definition separa :: "'e externos \<Rightarrow> bool" where
  "separa ext \<longleftrightarrow>
     (\<forall>c ps. ps \<noteq> [] \<and> list_all (\<lambda>p. p \<noteq> [] \<and> c \<notin> set p) ps \<longrightarrow>
        string_split ext (juntar [c] ps) [c] = ps)"

lemma separaD:
  "separa ext \<Longrightarrow> ps \<noteq> [] \<Longrightarrow> list_all (\<lambda>p. p \<noteq> [] \<and> c \<notin> set p) ps \<Longrightarrow>
   string_split ext (juntar [c] ps) [c] = ps"
  by (simp add: separa_def)

lemma nombre_lower: "map to_lower (nombre_instruccion c) =
    (case c of CREATE \<Rightarrow> ''create'' | TRUNCATE \<Rightarrow> ''truncate'' | WRITE \<Rightarrow> ''write'' | FLUSH \<Rightarrow> ''flush''
     | COMMIT \<Rightarrow> ''commit'' | READ \<Rightarrow> ''read'' | TAG \<Rightarrow> ''tag'' | DELETE \<Rightarrow> ''delete'' | END \<Rightarrow> ''end'')"
  by (cases c) (simp_all add: to_lower_def char_of_eq_iff)

lemma nombre_inj:
  "string_equals_ignore_case (nombre_instruccion c) (nombre_instruccion d) \<longleftrightarrow> c = d"
  by (simp add: string_equals_ignore_case_def nombre_lower split: set_instrucciones.split)

lemma find_instruccion:
  assumes "string_equals_ignore_case ident (nombre_instruccion c)"
  shows "find (\<lambda>d. string_equals_ignore_case ident (nombre_instruccion d)) instrucciones_set = Some c"
proof -
  have "string_equals_ignore_case ident (nombre_instruccion d) \<longleftrightarrow> c = d" for d
    using assms string_equals_ignore_case_trans string_equals_ignore_case_sym nombre_inj by metis
  then show ?thesis by (cases c) (simp_all add: instrucciones_set_def)
qed

lemma leer_datos_aridad:
  assumes "length ds = aridad c"
  shows "leer_datos c (w # ds) = Inr ds"
  using assms
  by (auto simp: leer_datos_def aridad_def cadena_def length_Suc_conv numeral_2_eq_2 numeral_3_eq_3
      split: if_splits)

lemma parsear_linea_palabras:
  assumes "separa ext" and "instruccion_ok i"
  shows "parsear_linea ext (juntar '' '' (palabras i)) = Inr i"
proof -
  have "string_split ext (juntar '' '' (palabras i)) '' '' = palabras i"
    using assms by (intro separaD) (auto simp: instruccion_ok_def palabras_def list_all_iff)
  then show ?thesis
    using assms(2) leer_datos_aridad[of "datos i" "copi i"] find_instruccion[of "i_identificador i" "copi i"]
    by (simp add: parsear_linea_def cadena_def palabras_def instruccion_ok_def)
qed

lemma set_juntar: "set (juntar sep ps) \<subseteq> set sep \<union> (\<Union>p \<in> set ps. set p)"
  by (induction sep ps rule: juntar.induct) auto

lemma juntar_not_Nil: "ps \<noteq> [] \<Longrightarrow> hd ps \<noteq> [] \<Longrightarrow> juntar sep ps \<noteq> []"
  by (induction sep ps rule: juntar.induct) auto

lemma parsear_escribir_script:
  assumes "separa ext" and "is \<noteq> []" and "list_all instruccion_ok is"
  shows "parsear_archivo ext (escribir_script is) = Inr is"
proof -
  have linea: "juntar '' '' (palabras i) \<noteq> [] \<and> CHR 0x0A \<notin> set (juntar '' '' (palabras i))"
    if "instruccion_ok i" for i
    using that set_juntar[of "'' ''" "palabras i"] juntar_not_Nil[of "palabras i" "'' ''"]
    by (auto simp: instruccion_ok_def list_all_iff palabras_def)
  have "string_split ext (escribir_script is) [CHR 0x0A] = map (\<lambda>i. juntar '' '' (palabras i)) is"
    unfolding escribir_script_def using assms linea
    by (intro separaD) (auto simp: list_all_iff)
  moreover have "list_all2 (\<lambda>l i. parsear_linea ext l = Inr i) (map (\<lambda>i. juntar '' '' (palabras i)) is) is"
    using assms(1,3) parsear_linea_palabras
    by (auto simp: list_all2_map1 list_all_iff intro: list.rel_refl_strong)
  ultimately show ?thesis
    unfolding parsear_archivo_def by (simp add: parsear_lineas_iff)
qed

end
