(* ===== verification/Worker_Interprete.thy ===== *)
theory Worker_Interprete
  imports Worker_Parser Worker_Memoria
begin

text \<open>
  The interpreter of the worker (\<open>worker/src/interpreter.c\<close>) and the loop of its \<open>main\<close> that
  takes a query from the master, runs its instructions from the program counter given and
  asks after each one whether it must leave. The first item of an instruction's packet is
  its code; log lines are left out.
\<close>

section \<open>Sending an instruction\<close>

text \<open>
  The switch of \<open>log_ejecucion\<close> covers every value of \<open>rta_storage\<close>; \<open>OK\<close> and \<open>ERROR\<close> of
  \<open>resultado_t\<close> have the values of \<open>OP_EXITOSA\<close> and \<open>NOT_DEF_ERR\<close>.
\<close>

definition log_ejecucion :: "'e externos \<Rightarrow> int32 \<Rightarrow> 'e worker \<Rightarrow> fault + 'e worker" where
  "log_ejecucion ext resultado w =
     (case rta_of resultado of
        None \<Rightarrow> Inl ExitFailure
      | Some r \<Rightarrow> if r = OP_EXITOSA then Inr w else Inr (notif_query_error ext r w))"

definition enviar_paquete_a ::
    "'e externos \<Rightarrow> mensaje \<Rightarrow> string \<Rightarrow> 'e worker \<Rightarrow> fault + 'e worker" where
  "enviar_paquete_a ext paquete a_quien w =
     (if string_equals_ignore_case a_quien ''Master''
      then case en_entorno (master_rta ext paquete) w of
             (None, w) \<Rightarrow> Inl ExitFailure
           | (Some resultado, w) \<Rightarrow> log_ejecucion ext (resultado_val resultado) w
      else case en_entorno (storage_rta ext paquete) w of
             (None, w) \<Rightarrow> Inl ExitFailure
           | (Some resultado, w) \<Rightarrow> log_ejecucion ext (rta_val resultado) w)"

definition paquete_instruccion_storage ::
    "'e externos \<Rightarrow> t_instrucion \<Rightarrow> 'e worker \<Rightarrow> fault + byte list list" where
  "paquete_instruccion_storage ext i w =
     bindE (cadena (datos i) 0) (\<lambda>ft.
     bindE (agregar_file_tag ext ft) (\<lambda>items.
       Inr ([int_bytes (copi_val (copi i))] @ items @ [cstr (query_id w)])))"

definition instruccion_simple_storage ::
    "'e externos \<Rightarrow> t_instrucion \<Rightarrow> 'e worker \<Rightarrow> fault + 'e worker" where
  "instruccion_simple_storage ext i w =
     bindE (paquete_instruccion_storage ext i w) (\<lambda>items.
       enviar_paquete_a ext (INSTRUCCION_STORAGE, items) ''Storage'' w)"

section \<open>The instructions\<close>

definition interpretar_CREATE :: "'e externos \<Rightarrow> t_instrucion \<Rightarrow> 'e worker \<Rightarrow> fault + 'e worker" where
  "interpretar_CREATE ext i w = instruccion_simple_storage ext i w"

text \<open>One page of the table: sent to the storage when it is in memory and modified.\<close>

definition flush_pagina :: "'e externos \<Rightarrow> string \<Rightarrow> nat \<Rightarrow> 'e worker \<Rightarrow> fault + 'e worker" where
  "flush_pagina ext ident p w =
     bindE (deref (paginas w) p) (\<lambda>pg.
       if modificado pg \<and> presencia pg then
         bindE (list_get (marco w) (nro_marco pg)) (\<lambda>n_marco.
         bindE (notificar_cambios ext p ident (p_marco (nat (nro_marco pg)) w) w) (\<lambda>w.
           set_pagina p (\<lambda>pg. pg\<lparr>modificado := False\<rparr>) w))
       else Inr w)"

definition interpretar_FLUSH :: "'e externos \<Rightarrow> t_instrucion \<Rightarrow> 'e worker \<Rightarrow> fault + 'e worker" where
  "interpretar_FLUSH ext i w =
     (if file_tag_pages w = [] then Inr w
      else
        bindE (cadena (datos i) 0) (\<lambda>ident.
        bindE (buscar_file_tag ident (file_tag_pages w) w) (\<lambda>r.
          case r of
            None \<Rightarrow> Inr w
          | Some r \<Rightarrow>
              bindE (deref (file_tags w) r) (\<lambda>ft. foldE (flush_pagina ext ident) (tabla_paginas ft) w))))"

definition interpretar_COMMIT :: "'e externos \<Rightarrow> t_instrucion \<Rightarrow> 'e worker \<Rightarrow> fault + 'e worker" where
  "interpretar_COMMIT ext i w =
     bindE (interpretar_FLUSH ext \<lparr>copi = FLUSH, i_identificador = ''FLUSH'', datos = datos i\<rparr> w) (\<lambda>w.
       instruccion_simple_storage ext i w)"

text \<open>The frames of the File:Tag's pages are freed until its count of pages is zero.\<close>

fun liberar_marcos :: "nat \<Rightarrow> nat list \<Rightarrow> 'e worker \<Rightarrow> fault + 'e worker" where
  "liberar_marcos r [] w = Inr w"
| "liberar_marcos r (p # ps) w =
     bindE (deref (file_tags w) r) (\<lambda>ft.
       if cantidad_paginas ft = 0 then Inr w
       else
         bindE (deref (paginas w) p) (\<lambda>pg.
           if presencia pg then
             bindE (bit_clean (nro_marco pg) w) (\<lambda>w.
             bindE (set_pagina p (\<lambda>pg. pg\<lparr>presencia := False\<rparr>) w) (\<lambda>w.
             bindE (set_file_tag r (\<lambda>ft. ft\<lparr>cantidad_paginas := cantidad_paginas ft - 1\<rparr>) w) (\<lambda>w.
               liberar_marcos r ps w)))
           else liberar_marcos r ps w))"

definition interpretar_DELETE :: "'e externos \<Rightarrow> t_instrucion \<Rightarrow> 'e worker \<Rightarrow> fault + 'e worker" where
  "interpretar_DELETE ext i w =
     bindE (if file_tag_pages w = [] then Inr w
            else
              bindE (cadena (datos i) 0) (\<lambda>ident.
              bindE (buscar_file_tag ident (file_tag_pages w) w) (\<lambda>r.
                case r of
                  None \<Rightarrow> Inr w
                | Some r \<Rightarrow>
                    bindE (deref (file_tags w) r) (\<lambda>ft.
                    bindE (liberar_marcos r (tabla_paginas ft) w) (\<lambda>w.
                      free_file_tag r (w\<lparr>file_tag_pages := remove1 r (file_tag_pages w)\<rparr>))))))
       (\<lambda>w. instruccion_simple_storage ext i w)"

text \<open>The size sent: a size that is no multiple of the page size has its remainder added.\<close>

definition tamanio_pedido :: "int \<Rightarrow> int \<Rightarrow> int" where
  "tamanio_pedido sz tam =
     (let resto = c_mod sz tam in if resto \<noteq> 0 then sz + resto else sz)"

definition interpretar_TRUNCATE :: "'e externos \<Rightarrow> t_instrucion \<Rightarrow> 'e worker \<Rightarrow> fault + 'e worker" where
  "interpretar_TRUNCATE ext i w =
     bindE (cadena (datos i) 1) (\<lambda>d1.
       if tam_pagina w = 0 then Inl DivByZero
       else
         let sz = tamanio_pedido (atoi d1) (tam_pagina w)
         in bindE (paquete_instruccion_storage ext i w) (\<lambda>items.
            bindE (enviar_paquete_a ext (INSTRUCCION_STORAGE, items @ [int_bytes (word_of_int sz)])
                     ''Storage'' w) (\<lambda>w.
            bindE (cadena (datos i) 0) (\<lambda>ident.
            bindE (file_tag_en_memoria ext ident w) (\<lambda>(r, w).
            bindE (deref (file_tags w) r) (\<lambda>ft.
              if c_div sz (tam_pagina w) \<noteq> cantidad_paginas ft then actualizar_tabla ext r w
              else Inr w))))))"

definition interpretar_TAG :: "'e externos \<Rightarrow> t_instrucion \<Rightarrow> 'e worker \<Rightarrow> fault + 'e worker" where
  "interpretar_TAG ext i w =
     bindE (paquete_instruccion_storage ext i w) (\<lambda>items.
     bindE (cadena (datos i) 1) (\<lambda>d1.
     bindE (agregar_file_tag ext d1) (\<lambda>destino.
       enviar_paquete_a ext (INSTRUCCION_STORAGE, items @ destino) ''Storage'' w)))"

definition interpretar_WRITE ::
    "nat \<Rightarrow> 'e externos \<Rightarrow> t_instrucion \<Rightarrow> 'e worker \<Rightarrow> fault + 'e worker" where
  "interpretar_WRITE vueltas ext i w =
     bindE (cadena (datos i) 0) (\<lambda>ident.
     bindE (cadena (datos i) 1) (\<lambda>d1.
     bindE (cadena (datos i) 2) (\<lambda>contenido.
       if tam_pagina w = 0 then Inl DivByZero
       else
         bindE (pagina_en_Tabla vueltas ext ident (c_div (atoi d1) (tam_pagina w)) w) (\<lambda>(p, w).
           case p of
             None \<Rightarrow> log_ejecucion ext (rta_val ERR_FUERA_LIMITE) w
           | Some p \<Rightarrow>
               bindE (escribir_pagina vueltas ext p ident (atoi d1) (map char_byte contenido) w)
                 (\<lambda>(queda, w). log_ejecucion ext (resultado_val OK) w)))))"

definition interpretar_READ ::
    "nat \<Rightarrow> 'e externos \<Rightarrow> t_instrucion \<Rightarrow> 'e worker \<Rightarrow> fault + 'e worker" where
  "interpretar_READ vueltas ext i w =
     bindE (cadena (datos i) 0) (\<lambda>ident.
     bindE (cadena (datos i) 1) (\<lambda>d1.
     bindE (cadena (datos i) 2) (\<lambda>d2.
       if tam_pagina w = 0 then Inl DivByZero
       else
         bindE (pagina_en_Tabla vueltas ext ident (c_div (atoi d1) (tam_pagina w)) w) (\<lambda>(p, w).
           case p of
             None \<Rightarrow> log_ejecucion ext (rta_val ERR_FUERA_LIMITE) w
           | Some p \<Rightarrow>
               bindE (leer_pagina vueltas ext p ident (atoi d1) (atoi d2) w)
                 (\<lambda>w. log_ejecucion ext (resultado_val OK) w)))))"

definition interpretar_END :: "'e externos \<Rightarrow> t_instrucion \<Rightarrow> 'e worker \<Rightarrow> fault + 'e worker" where
  "interpretar_END ext i w =
     enviar_paquete_a ext (INSTRUCCION_MASTER, [int_bytes (copi_val (copi i))]) ''Master'' w"

section \<open>Running a query\<close>

definition ejecutar_instruccion ::
    "nat \<Rightarrow> 'e externos \<Rightarrow> t_instrucion \<Rightarrow> 'e worker \<Rightarrow> fault + 'e worker" where
  "ejecutar_instruccion vueltas ext i w =
     (case copi i of
        CREATE \<Rightarrow> interpretar_CREATE ext i w
      | COMMIT \<Rightarrow> interpretar_COMMIT ext i w
      | DELETE \<Rightarrow> interpretar_DELETE ext i w
      | FLUSH \<Rightarrow> interpretar_FLUSH ext i w
      | TRUNCATE \<Rightarrow> interpretar_TRUNCATE ext i w
      | TAG \<Rightarrow> interpretar_TAG ext i w
      | READ \<Rightarrow> interpretar_READ vueltas ext i w
      | WRITE \<Rightarrow> interpretar_WRITE vueltas ext i w
      | END \<Rightarrow> interpretar_END ext i w)"

text \<open>Leaving on the master's request: a FLUSH of every File:Tag of the list.\<close>

definition desalojar :: "'e externos \<Rightarrow> 'e worker \<Rightarrow> fault + 'e worker" where
  "desalojar ext w =
     foldE (\<lambda>i w.
         bindE (list_get (file_tag_pages w) (int i)) (\<lambda>r.
         bindE (deref (file_tags w) r) (\<lambda>ft.
           interpretar_FLUSH ext
             \<lparr>copi = FLUSH, i_identificador = ''FLUSH'', datos = [identificador ft]\<rparr> w)))
       [0..<length (file_tag_pages w)] w"

text \<open>How the loop over the instructions ends.\<close>

datatype fin_query = Terminada | Desalojada | Sin_END

text \<open>The loop, over the instructions from the program counter on.\<close>

fun ejecutar_desde ::
    "nat \<Rightarrow> 'e externos \<Rightarrow> t_instrucion list \<Rightarrow> int \<Rightarrow> 'e worker
     \<Rightarrow> fault + (fin_query \<times> int \<times> 'e worker)" where
  "ejecutar_desde vueltas ext [] pc w = Inr (Sin_END, pc, w)"
| "ejecutar_desde vueltas ext (i # is) pc w =
     bindE (ejecutar_instruccion vueltas ext i w) (\<lambda>w.
       if copi i = END then Inr (Terminada, pc, w)
       else
         case en_entorno (consultar_interrupcion ext (word_of_int (pc + 1))) w of
           (None, w) \<Rightarrow> Inl ExitFailure
         | (Some True, w) \<Rightarrow> bindE (desalojar ext w) (\<lambda>w. Inr (Desalojada, pc + 1, w))
         | (Some False, w) \<Rightarrow> ejecutar_desde vueltas ext is (pc + 1) w)"

definition atender_query ::
    "nat \<Rightarrow> 'e externos \<Rightarrow> 'e worker \<Rightarrow> fault + (fin_query \<times> int \<times> 'e worker)" where
  "atender_query vueltas ext w =
     (case en_entorno (recibir_query ext) w of
        (None, w) \<Rightarrow> Inl NullDeref
      | (Some (codigo, items), w) \<Rightarrow>
          if codigo \<noteq> SOLICITUD_EJECUCION then Inl ExitFailure
          else
            (case items of
               path # qid # pc # _ \<Rightarrow>
                 (case of_cstr path of
                    None \<Rightarrow> Inl OutOfBounds
                  | Some path \<Rightarrow>
                      let w = w\<lparr>query_id := itoa (sint (bytes_int qid))\<rparr>; pc = sint (bytes_int pc)
                      in case script ext path of
                           None \<Rightarrow> Inl NullDeref
                         | Some contenido \<Rightarrow>
                             bindE (parsear_archivo ext contenido) (\<lambda>is.
                               if int (length is) \<le> pc then Inr (Sin_END, pc, w)
                               else if pc < 0 then Inl NullDeref
                               else ejecutar_desde vueltas ext (drop (nat pc) is) pc w))
             | _ \<Rightarrow> Inl NullDeref))"

section \<open>The worker's main\<close>

text \<open>
  The globals at the start: the configuration is read, and the rest is as a C global is, zero;
  the two lists are created empty.
\<close>

definition worker_globals :: "string \<Rightarrow> int \<Rightarrow> 'e \<Rightarrow> 'e worker" where
  "worker_globals algoritmo tam_memoria e =
     \<lparr>ALGORITMO_REEMPLAZO = algoritmo, TAM_MEMORIA = tam_memoria, tam_pagina = 0, cantidad_marcos = 0,
      query_id = '''', memoria = [], bit_map = [], marco = [], file_tag_pages = [], victima_clock = None,
      paginas = Map.empty, file_tags = Map.empty, next_ref = 0, entorno = e\<rparr>"

text \<open>The page size is what the storage answers; nothing is checked, and without an answer it stays zero.\<close>

definition worker_handshakes :: "'e externos \<Rightarrow> string \<Rightarrow> 'e worker \<Rightarrow> 'e worker" where
  "worker_handshakes ext nombre w =
     (case en_entorno (storage_handshake ext (HANDSHAKE_WORKER_STORAGE, [cstr nombre])) w of
        (r, w) \<Rightarrow>
          (let w = (case r of None \<Rightarrow> w | Some n \<Rightarrow> w\<lparr>tam_pagina := sint n\<rparr>)
           in w\<lparr>entorno := master_handshake ext (HANDSHAKE_WORKER_MASTER, [cstr nombre]) (entorno w)\<rparr>))"

fun worker_ciclo :: "nat \<Rightarrow> 'e externos \<Rightarrow> nat \<Rightarrow> 'e worker \<Rightarrow> fault + 'e worker" where
  "worker_ciclo vueltas ext 0 w = Inr w"
| "worker_ciclo vueltas ext (Suc n) w =
     bindE (atender_query vueltas ext w) (\<lambda>(fin, pc, w). worker_ciclo vueltas ext n w)"

text \<open>The worker after it has attended a number of queries.\<close>

definition worker_main ::
    "nat \<Rightarrow> 'e externos \<Rightarrow> string \<Rightarrow> int \<Rightarrow> string \<Rightarrow> nat \<Rightarrow> 'e \<Rightarrow> fault + 'e worker" where
  "worker_main vueltas ext algoritmo tam_memoria nombre n e =
     bindE (init_memoria (worker_handshakes ext nombre (worker_globals algoritmo tam_memoria e)))
       (worker_ciclo vueltas ext n)"

end
