(* ===== verification/Worker_Theorems.thy ===== *)
theory Worker_Theorems
  imports Worker_Acceso
begin

text \<open>
  The properties of the worker's memory, with a small worker they are applied to: two frames
  of four bytes, both holding pages of one File:Tag, and an environment that records the
  messages sent and answers each of them.
\<close>

section \<open>A concrete worker\<close>

fun demo_split :: "string \<Rightarrow> string \<Rightarrow> string list" where
  "demo_split [] sep = [[]]"
| "demo_split (c # cs) sep =
     (if [c] = sep then [] # demo_split cs sep
      else case demo_split cs sep of [] \<Rightarrow> [[c]] | p # ps \<Rightarrow> (c # p) # ps)"

definition demo_ext :: "mensaje list externos" where
  "demo_ext = \<lparr>string_split = demo_split,
     storage_paquete = (\<lambda>msg e.
       (if fst msg = SOLICITUD_STORAGE
        then Some (PAGINA_WORKER, [int_bytes (rta_val OP_EXITOSA), [9, 8, 7, 6]])
        else Some (INFO_FILE_TAG_WORKER, [int_bytes 8]), e @ [msg])),
     storage_rta = (\<lambda>msg e. (Some OP_EXITOSA, e @ [msg])),
     master_rta = (\<lambda>msg e. (Some OK, e @ [msg])),
     master_envio = (\<lambda>msg e. e @ [msg]),
     gettime = (\<lambda>e. (int (length e), e)),
     script = (\<lambda>path. Some (''WRITE F:T 2 AB'' @ [CHR 0x0A] @ ''END'')),
     recibir_query = (\<lambda>e. (Some (SOLICITUD_EJECUCION, [cstr ''q'', int_bytes 7, int_bytes 0]), e)),
     consultar_interrupcion = (\<lambda>pc e. (Some True, e @ [(CONSULTA_INTERRUPCION, [int_bytes pc])])),
     storage_handshake = (\<lambda>msg e. (Some 4, e @ [msg])), master_handshake = (\<lambda>msg e. e @ [msg])\<rparr>"

definition demo_pagina :: "int \<Rightarrow> bool \<Rightarrow> bool \<Rightarrow> nodo_pagina" where
  "demo_pagina i u m = \<lparr>nro_pagina = i, nro_marco = i, modificado = m, uso = u, presencia = True\<rparr>"

definition demo_worker :: "mensaje list worker" where
  "demo_worker = \<lparr>ALGORITMO_REEMPLAZO = ''CLOCK-M'', TAM_MEMORIA = 8, tam_pagina = 4,
     cantidad_marcos = 2, query_id = ''1'', memoria = [0, 0, 0, 0, 0, 0, 0, 0],
     bit_map = [True, True, False, False, False, False, False, False],
     marco = [\<lparr>m_identificador = Some 2, m_pagina = Some 0, m_time = 5\<rparr>,
              \<lparr>m_identificador = Some 2, m_pagina = Some 1, m_time = 3\<rparr>],
     file_tag_pages = [2], victima_clock = Some 0,
     paginas = [0 \<mapsto> demo_pagina 0 True False, 1 \<mapsto> demo_pagina 1 True True],
     file_tags = [2 \<mapsto> \<lparr>identificador = ''F:T'', cantidad_paginas = 4, tabla_paginas = [0, 1]\<rparr>],
     next_ref = 3, entorno = []\<rparr>"

lemma demo_marcos_ok: "marcos_ok demo_worker"
  by (simp add: marcos_ok_def demo_worker_def demo_pagina_def less_Suc_eq numeral_2_eq_2)

lemma demo_campos [simp]:
  "cantidad_marcos demo_worker = 2" "victima_clock demo_worker = Some 0" "tam_pagina demo_worker = 4"
  "paginas demo_worker 0 = Some (demo_pagina 0 True False)"
  "nro_pagina (demo_pagina i u m) = i" "nro_marco (demo_pagina i u m) = i"
  by (simp_all add: demo_worker_def demo_pagina_def)

section \<open>Replacement\<close>

text \<open>
  LRU evicts the first frame whose last access is the oldest.
\<close>

lemma lru_victima_oldest:
  assumes "0 < n"
  shows "lru_victima ms n < n \<and>
         (\<forall>j < n. m_time (ms ! lru_victima ms n) \<le> m_time (ms ! j)) \<and>
         (\<forall>j < lru_victima ms n. m_time (ms ! lru_victima ms n) < m_time (ms ! j))"
  unfolding lru_victima_def by (rule foldl_min_time[OF assms])

text \<open>
  C14: CLOCK-M's search ends within two rounds, whatever the use and modified bits are. The
  victim is unused and unmodified if any frame is, with no use bit touched; else unused and
  modified if any is; else all use bits are cleared and it is unmodified if any frame is.
  Only use bits and the pointer change.
\<close>

theorem clock_m_terminates_best_class:
  assumes "marcos_ok w" and "i < cantidad_marcos w" and "victima_clock w = Some i"
  shows "\<exists>w' j. clock_buscar (Suc (Suc vueltas)) w = Inr w' \<and> victima_clock w' = Some j \<and>
           mejor_clase (cantidad_marcos w) (uso_de w) (mod_de w) j (uso_de w') \<and>
           mod_de w' = mod_de w \<and> marcos_ok w' \<and> solo_usos w w'"
proof -
  obtain j u where r: "ref_buscar (Suc (Suc vueltas)) (cantidad_marcos w) i (uso_de w) (mod_de w) = Some (j, u)"
    "mejor_clase (cantidad_marcos w) (uso_de w) (mod_de w) j u"
    using ref_buscar_mejor[OF assms(2)] by blast
  from clock_buscar_ref[OF assms r(1)] r(2) show ?thesis by blast
qed

theorem clock_m_terminates_best_class_witness:
  "\<exists>w' j. clock_buscar 2 demo_worker = Inr w' \<and> victima_clock w' = Some j \<and>
     mejor_clase 2 (uso_de demo_worker) (mod_de demo_worker) j (uso_de w')"
proof -
  have "2 = Suc (Suc 0)" by simp
  then show ?thesis
    using clock_m_terminates_best_class[OF demo_marcos_ok, of 0 0]
    by (simp only: demo_campos) blast
qed

lemma demo_clock: "map_option (\<lambda>w'. the (victima_clock w')) (case clock_buscar 2 demo_worker of
    Inl e \<Rightarrow> None | Inr w \<Rightarrow> Some w) = Some 0"
  by code_simp

text \<open>
  \<open>marco_libre\<close> gives the first frame whose bit is clear, and -1 exactly when every frame
  is taken.
\<close>

lemma marco_libre_first:
  "(marco_libre w = - 1 \<longleftrightarrow> (\<forall>i < cantidad_marcos w. bit_map w ! i)) \<and>
   (marco_libre w \<noteq> - 1 \<longrightarrow>
      (\<exists>i < cantidad_marcos w. marco_libre w = int i \<and> \<not> bit_map w ! i \<and> (\<forall>j < i. bit_map w ! j)))"
proof (cases "find (\<lambda>i. \<not> bit_map w ! i) [0..<cantidad_marcos w]")
  case None
  then have "\<forall>i < cantidad_marcos w. bit_map w ! i" by (simp add: find_None_iff)
  with None show ?thesis by (simp add: marco_libre_def)
next
  case (Some i)
  then have "i < cantidad_marcos w \<and> \<not> bit_map w ! i \<and> (\<forall>j < i. bit_map w ! j)"
    by (auto simp: find_Some_iff)
  with Some show ?thesis by (auto simp: marco_libre_def)
qed

section \<open>Reading and writing\<close>



lemma sellar_marco_campos [simp]:
  "memoria (sellar_marco ext i w) = memoria w" "paginas (sellar_marco ext i w) = paginas w"
  "tam_pagina (sellar_marco ext i w) = tam_pagina w"
  "length (marco (sellar_marco ext i w)) = length (marco w)"
  by (auto simp: sellar_marco_def en_entorno_def split: prod.splits)

lemma mem_get_memoria: "memoria w = memoria w' \<Longrightarrow> mem_get off n w = mem_get off n w'"
  by (simp add: mem_get_def)

lemma marco_de_nat:
  "paginas w p = Some pg \<Longrightarrow> nro_marco pg = int i \<Longrightarrow> i < length (marco w) \<Longrightarrow> marco_de p w = Inr i"
  by (simp add: marco_de_def)

text \<open>
  The bytes a write puts inside one page are the bytes a read of that address sends to the
  master, and no byte outside them changes.
\<close>

lemma page_write_then_read:
  assumes "paginas w p = Some pg" and "nro_marco pg = int i" and "i < length (marco w)"
    and "int (Suc i) * tam_pagina w \<le> int (length (memoria w))"
    and "direccion - tam_pagina w * nro_pagina pg = d" and "0 \<le> d"
    and "d + int (length datos) \<le> tam_pagina w"
  shows "\<exists>w' w''. escribir_pagina v ext p ident direccion datos w = Inr ([], w') \<and>
           leer_pagina v ext p ident direccion (int (length datos)) w' =
             enviar_lectura ext ident datos (int (length datos)) w'' \<and>
           (\<forall>off n. off + n \<le> int i * tam_pagina w + d \<or>
                    int i * tam_pagina w + d + int (length datos) \<le> off \<longrightarrow>
                    mem_get off n w' = mem_get off n w)"
proof -
  let ?off = "int i * tam_pagina w + d"
  let ?w1 = "w\<lparr>paginas := (paginas w)(p \<mapsto> pg\<lparr>modificado := True, uso := True\<rparr>)\<rparr>"
  have bounds: "0 \<le> ?off" "?off + int (length datos) \<le> int (length (memoria w))"
    using assms(4,6,7) by (auto simp: distrib_right)
  obtain w2 where put: "mem_put ?off datos ?w1 = Inr w2"
    using bounds by (auto simp: mem_put_def)
  then have only: "\<exists>m. w2 = ?w1\<lparr>memoria := m\<rparr>" using mem_put_only by blast
  let ?w' = "sellar_marco ext i w2"
  have esc: "escribir_pagina v ext p ident direccion datos w = Inr ([], ?w')"
    using assms(7) put
    by (simp add: escribir_pagina_def assms(1,5) marco_de_nat[OF assms(1-3)] set_pagina_def p_marco_def
        interaccion_escribir_def)
  have same: "paginas ?w' p = Some (pg\<lparr>modificado := True, uso := True\<rparr>)" "tam_pagina ?w' = tam_pagina w"
    "length (marco ?w') = length (marco w)"
    using only by auto
  let ?w3 = "?w'\<lparr>paginas := (paginas ?w')(p \<mapsto> pg\<lparr>modificado := True, uso := True\<rparr>)\<rparr>"
  have get: "mem_get ?off (int (length datos)) ?w3 = Inr datos"
    using mem_get_put(1)[OF put] by (auto simp: mem_get_def split: if_splits)
  have lee: "leer_pagina v ext p ident direccion (int (length datos)) ?w' =
      enviar_lectura ext ident datos (int (length datos)) (sellar_marco ext i ?w3)"
    using assms(7) get same assms(3)
    by (simp add: leer_pagina_def marco_de_nat[of ?w' p _ i] assms(2,5) set_pagina_def p_marco_def
        interaccion_leer_def)
  have fuera: "mem_get off n ?w' = mem_get off n w"
    if "off + n \<le> ?off \<or> ?off + int (length datos) \<le> off" for off n
    using mem_get_put(2)[OF put that] mem_get_memoria[of ?w' w2] mem_get_memoria[of ?w1 w] by simp
  from esc lee fuera show ?thesis by blast
qed

text \<open>
  Asking for the page just past the end of a File:Tag's table is not answered with the
  missing page the caller checks for: the table is read out of range and the worker faults.
\<close>

lemma page_past_end_faults:
  assumes "buscar_file_tag ident (file_tag_pages w) w = Inr (Some r)" and "file_tags w r = Some ft"
  shows "pagina_en_Tabla v ext ident (int (length (tabla_paginas ft))) w = Inl NullDeref"
  using assms by (simp add: pagina_en_Tabla_def file_tag_en_memoria_def list_get_def)

end
