(* ===== verification/Worker_Query.thy ===== *)
theory Worker_Query
  imports Worker_Interprete Worker_Theorems Worker_Inv
begin

text \<open>
  The properties of running a query: the parser, the program counter, what FLUSH and leaving
  on the master's request do to the modified pages, and the size TRUNCATE asks for.
\<close>

section \<open>FLUSH\<close>

text \<open>A page with no change that the storage does not have.\<close>

definition limpia :: "'e worker \<Rightarrow> nat \<Rightarrow> bool" where
  "limpia w p \<longleftrightarrow> (\<exists>pg. paginas w p = Some pg \<and> \<not> (modificado pg \<and> presencia pg))"

text \<open>Only modified bits are cleared, besides the messages.\<close>

definition limpiar :: "nodo_pagina \<Rightarrow> nodo_pagina" where
  "limpiar pg = pg\<lparr>modificado := False\<rparr>"

lemma limpiar_campos [simp]:
  "limpiar (limpiar pg) = limpiar pg" "\<not> modificado (limpiar pg)" "presencia (limpiar pg) = presencia pg"
  by (simp_all add: limpiar_def)

definition solo_flush :: "'e worker \<Rightarrow> 'e worker \<Rightarrow> bool" where
  "solo_flush w w' \<longleftrightarrow>
     w' = w\<lparr>paginas := paginas w', entorno := entorno w'\<rparr> \<and>
     (\<forall>p. paginas w' p = paginas w p \<or> paginas w' p = map_option limpiar (paginas w p))"

lemma solo_flush_refl [simp]: "solo_flush w w"
  by (simp add: solo_flush_def)

lemma solo_flush_campos:
  assumes "solo_flush w w'"
  shows "file_tags w' = file_tags w" "file_tag_pages w' = file_tag_pages w" "marco w' = marco w"
    "memoria w' = memoria w" "bit_map w' = bit_map w" "tam_pagina w' = tam_pagina w"
proof -
  have "w' = w\<lparr>paginas := paginas w', entorno := entorno w'\<rparr>"
    using assms by (simp only: solo_flush_def)
  then obtain P e where "w' = w\<lparr>paginas := P, entorno := e\<rparr>" by blast
  then show "file_tags w' = file_tags w" "file_tag_pages w' = file_tag_pages w" "marco w' = marco w"
    "memoria w' = memoria w" "bit_map w' = bit_map w" "tam_pagina w' = tam_pagina w"
    by simp_all
qed

lemma solo_flush_pagina:
  "solo_flush w w' \<Longrightarrow> paginas w' p = paginas w p \<or> paginas w' p = map_option limpiar (paginas w p)"
  by (simp add: solo_flush_def)

lemma solo_flush_trans:
  assumes "solo_flush w1 w2" and "solo_flush w2 w3"
  shows "solo_flush w1 w3"
proof -
  obtain P e where "w2 = w1\<lparr>paginas := P, entorno := e\<rparr>" using assms(1) unfolding solo_flush_def by blast
  moreover obtain P' e' where "w3 = w2\<lparr>paginas := P', entorno := e'\<rparr>"
    using assms(2) unfolding solo_flush_def by blast
  ultimately have "w3 = w1\<lparr>paginas := paginas w3, entorno := entorno w3\<rparr>" by simp
  moreover have "paginas w3 p = paginas w1 p \<or> paginas w3 p = map_option limpiar (paginas w1 p)" for p
    using solo_flush_pagina[OF assms(1), of p] solo_flush_pagina[OF assms(2), of p]
    by (cases "paginas w1 p") auto
  ultimately show ?thesis unfolding solo_flush_def by blast
qed

lemma solo_flush_limpia: "solo_flush w w' \<Longrightarrow> limpia w p \<Longrightarrow> limpia w' p"
  using solo_flush_pagina[of w w' p] by (auto simp: limpia_def)

lemma notificar_cambios_solo: "okE (\<lambda>w'. w' = w\<lparr>entorno := entorno w'\<rparr>) (notificar_cambios ext p ident off w)"
  unfolding notificar_cambios_def en_entorno_def notif_query_error_def
  by (auto intro!: consultas split: prod.split option.split)

lemma flush_pagina_ok: "okE (\<lambda>w'. solo_flush w w' \<and> limpia w' p) (flush_pagina ext ident p w)"
proof (cases "paginas w p")
  case None
  then show ?thesis by (simp add: flush_pagina_def deref_def)
next
  case (Some pg)
  have sucia: "okE (\<lambda>w'. solo_flush w w' \<and> limpia w' p)
      (set_pagina p (\<lambda>pg. pg\<lparr>modificado := False\<rparr>) w1)" if e: "w1 = w\<lparr>entorno := entorno w1\<rparr>" for w1
  proof -
    obtain e where "w1 = w\<lparr>entorno := e\<rparr>" using e by blast
    then show ?thesis
      using Some by (simp add: set_pagina_def limpia_def solo_flush_def limpiar_def)
  qed
  show ?thesis
  proof (cases "modificado pg \<and> presencia pg")
    case True
    then show ?thesis
      by (auto simp: flush_pagina_def Some intro!: consultas
          okE_mono[OF notificar_cambios_solo] sucia)
  next
    case False
    then show ?thesis by (auto simp: flush_pagina_def Some limpia_def)
  qed
qed

lemma flush_paginas_ok:
  "okE (\<lambda>w'. solo_flush w w' \<and> (\<forall>p \<in> set ps. limpia w' p)) (foldE (flush_pagina ext ident) ps w)"
proof (induction ps arbitrary: w)
  case (Cons p ps)
  have "okE (\<lambda>w'. solo_flush w w' \<and> (\<forall>p \<in> set (p # ps). limpia w' p)) (foldE (flush_pagina ext ident) ps w1)"
    if "solo_flush w w1" "limpia w1 p" for w1
    by (rule okE_mono[OF Cons.IH]) (use that in \<open>auto intro: solo_flush_trans solo_flush_limpia\<close>)
  then show ?case by (auto intro!: flush_pagina_ok[THEN okE_mono])
qed simp

lemma interpretar_FLUSH_solo: "okE (solo_flush w) (interpretar_FLUSH ext i w)"
  unfolding interpretar_FLUSH_def
  by (auto intro!: okE_pure[of _ "cadena xs n" for xs n] consultas
      flush_paginas_ok[THEN okE_mono] split: option.split)

lemma interpretar_FLUSH_limpia:
  assumes "buscar_file_tag ident (file_tag_pages w) w = Inr (Some r)" and "file_tags w r = Some ft"
  shows "okE (\<lambda>w'. solo_flush w w' \<and> (\<forall>p \<in> set (tabla_paginas ft). limpia w' p))
    (interpretar_FLUSH ext \<lparr>copi = FLUSH, i_identificador = nm, datos = [ident]\<rparr> w)"
proof -
  have "file_tag_pages w \<noteq> []" using assms(1) by auto
  then show ?thesis
    using assms flush_paginas_ok by (simp add: interpretar_FLUSH_def cadena_def)
qed

section \<open>Leaving on the master's request\<close>

lemma solo_flush_tablas_ok: "solo_flush w w' \<Longrightarrow> tablas_ok w \<Longrightarrow> tablas_ok w'"
  by (simp add: tablas_ok_def solo_flush_campos)

definition todo_limpio :: "'e worker \<Rightarrow> nat list \<Rightarrow> bool" where
  "todo_limpio w rs \<longleftrightarrow>
     (\<forall>r \<in> set rs. \<forall>ft. file_tags w r = Some ft \<longrightarrow> (\<forall>p \<in> set (tabla_paginas ft). limpia w p))"

lemma desalojar_ok:
  assumes "tablas_ok w"
  shows "okE (\<lambda>w'. solo_flush w w' \<and> todo_limpio w' (file_tag_pages w)) (desalojar ext w)"
proof -
  let ?f = "\<lambda>i w. bindE (list_get (file_tag_pages w) (int i)) (\<lambda>r. bindE (deref (file_tags w) r) (\<lambda>ft.
      interpretar_FLUSH ext \<lparr>copi = FLUSH, i_identificador = ''FLUSH'', datos = [identificador ft]\<rparr> w))"
  have paso: "okE (\<lambda>w2. solo_flush w w2 \<and> todo_limpio w2 (take (Suc i) (file_tag_pages w))) (?f i w1)"
    if h: "i < length (file_tag_pages w)" "solo_flush w w1" "todo_limpio w1 (take i (file_tag_pages w))" for i w1
  proof -
    let ?r = "file_tag_pages w ! i"
    have c: "file_tag_pages w1 = file_tag_pages w" "file_tags w1 = file_tags w"
      using solo_flush_campos[OF h(2)] by simp_all
    obtain ft where ft: "file_tags w1 ?r = Some ft"
      using assms h(1) c by (force simp: tablas_ok_def)
    have b: "buscar_file_tag (identificador ft) (file_tag_pages w1) w1 = Inr (Some ?r)"
      using solo_flush_tablas_ok[OF h(2) assms] ft h(1) c
      by (intro buscar_propio) (auto simp: tablas_ok_def)
    have "okE (\<lambda>w2. solo_flush w w2 \<and> todo_limpio w2 (take (Suc i) (file_tag_pages w)))
        (interpretar_FLUSH ext \<lparr>copi = FLUSH, i_identificador = ''FLUSH'', datos = [identificador ft]\<rparr> w1)"
    proof (rule okE_mono[OF interpretar_FLUSH_limpia[OF b ft]])
      fix w2 assume 2: "solo_flush w1 w2 \<and> (\<forall>p \<in> set (tabla_paginas ft). limpia w2 p)"
      then have "file_tags w2 = file_tags w1" by (simp add: solo_flush_campos)
      with 2 h ft show "solo_flush w w2 \<and> todo_limpio w2 (take (Suc i) (file_tag_pages w))"
        by (auto simp: todo_limpio_def take_Suc_conv_app_nth intro: solo_flush_trans solo_flush_limpia)
    qed
    then show ?thesis using h(1) c ft by (simp add: list_get_nat)
  qed
  have "okE (\<lambda>w'. solo_flush w w' \<and> todo_limpio w' (take (i + n) (file_tag_pages w)))
      (foldE ?f [i..<i + n] w1)"
    if "i + n \<le> length (file_tag_pages w)" "solo_flush w w1" "todo_limpio w1 (take i (file_tag_pages w))" for i n w1
    using that
  proof (induction n arbitrary: i w1)
    case (Suc n)
    have "okE (\<lambda>w'. solo_flush w w' \<and> todo_limpio w' (take (Suc i + n) (file_tag_pages w))) (foldE ?f [Suc i..<Suc i + n] w2)"
      if "solo_flush w w2 \<and> todo_limpio w2 (take (Suc i) (file_tag_pages w))" for w2
      by (rule Suc.IH) (use Suc.prems that in auto)
    moreover have "[i..<i + Suc n] = i # [Suc i..<Suc i + n]" by (simp add: upt_rec)
    ultimately show ?case
      using okE_mono[OF paso[of i w1]] Suc.prems by simp
  qed simp
  from this[of 0 "length (file_tag_pages w)" w] show ?thesis
    by (simp add: desalojar_def todo_limpio_def)
qed


lemma demo_desalojar: "\<not> isl (desalojar demo_ext demo_worker)"
  by code_simp


section \<open>The program counter\<close>

lemma ejecutar_desde_pc:
  "ejecutar_desde vueltas ext is pc w = Inr (fin, pc', w') \<Longrightarrow>
   (\<exists>n \<le> length is. pc' = pc + int n \<and> list_all (\<lambda>i. copi i \<noteq> END) (take n is) \<and>
      (case fin of
         Terminada \<Rightarrow> n < length is \<and> copi (is ! n) = END
       | Desalojada \<Rightarrow> 0 < n
       | Sin_END \<Rightarrow> n = length is))"
proof (induction "is" arbitrary: pc w)
  case Nil
  then show ?case by simp
next
  case (Cons i "is")
  show ?case
  proof (cases "copi i = END")
    case True
    with Cons.prems show ?thesis by (intro exI[of _ 0]) auto
  next
    case False
    with Cons.prems consider
        (sale) "fin = Desalojada" "pc' = pc + 1"
      | (sigue) w1 where "ejecutar_desde vueltas ext is (pc + 1) w1 = Inr (fin, pc', w')"
    proof -
      from Cons.prems obtain w0 where "ejecutar_instruccion vueltas ext i w = Inr w0" by auto
      moreover obtain r w1 where "en_entorno (consultar_interrupcion ext (word_of_int (pc + 1))) w0 = (r, w1)"
        by force
      ultimately show thesis
        using Cons.prems False sale sigue
        by (cases r) (auto split: bool.split_asm)
    qed
    then show ?thesis
    proof cases
      case sale
      with False show ?thesis by (intro exI[of _ 1]) simp
    next
      case sigue
      from Cons.IH[OF this] obtain n where n: "n \<le> length is" "pc' = pc + 1 + int n"
        "list_all (\<lambda>i. copi i \<noteq> END) (take n is)"
        "case fin of Terminada \<Rightarrow> n < length is \<and> copi (is ! n) = END | Desalojada \<Rightarrow> 0 < n
           | Sin_END \<Rightarrow> n = length is" by blast
      then show ?thesis
        using False by (intro exI[of _ "Suc n"]) (auto split: fin_query.splits)
    qed
  qed
qed

text \<open>
  C19: the program counter a run leaves is that of the END it executed, or of the first
  instruction not executed, which the master hands out when the query is resumed. No END is
  passed over, and a run that is taken off has executed at least one instruction.
\<close>

theorem query_program_counter:
  assumes "ejecutar_desde vueltas ext (drop pc is) (int pc) w = Inr (fin, pc', w')" and "pc \<le> length is"
  shows "int pc \<le> pc' \<and> pc' \<le> int (length is) \<and>
         (\<forall>k. pc \<le> k \<and> int k < pc' \<longrightarrow> copi (is ! k) \<noteq> END) \<and>
         (fin = Terminada \<longrightarrow> pc' < int (length is) \<and> copi (is ! nat pc') = END) \<and>
         (fin = Desalojada \<longrightarrow> int pc < pc') \<and> (fin = Sin_END \<longrightarrow> pc' = int (length is))"
proof -
  obtain n where n: "n \<le> length is - pc" "pc' = int pc + int n"
    "list_all (\<lambda>i. copi i \<noteq> END) (take n (drop pc is))"
    "case fin of Terminada \<Rightarrow> n < length is - pc \<and> copi (drop pc is ! n) = END | Desalojada \<Rightarrow> 0 < n
       | Sin_END \<Rightarrow> n = length is - pc"
    using ejecutar_desde_pc[OF assms(1)] unfolding length_drop by blast
  have "copi (is ! k) \<noteq> END" if "pc \<le> k" "int k < pc'" for k
    using n(1,2,3) that assms(2) by (auto simp: list_all_length dest!: spec[of _ "k - pc"])
  with n assms(2) show ?thesis
    by (auto split: fin_query.splits simp: nat_add_distrib)
qed

definition demo_script :: "t_instrucion list" where
  "demo_script =
     [\<lparr>copi = CREATE, i_identificador = ''CREATE'', datos = [''F:T'']\<rparr>,
      \<lparr>copi = WRITE, i_identificador = ''WRITE'', datos = [''F:T'', ''0'', ''AB'']\<rparr>,
      \<lparr>copi = END, i_identificador = ''END'', datos = []\<rparr>]"

lemma demo_ejecutar:
  "(case ejecutar_desde 2 demo_ext (drop 1 demo_script) 1 demo_worker of
      Inl e \<Rightarrow> None | Inr (fin, pc, w) \<Rightarrow> Some (fin, pc)) = Some (Desalojada, 2)"
  by code_simp

theorem query_program_counter_witness:
  "\<exists>w. ejecutar_desde 2 demo_ext (drop 1 demo_script) (int 1) demo_worker = Inr (Desalojada, 2, w) \<and>
     copi (demo_script ! 1) \<noteq> END"
proof -
  obtain w where w: "ejecutar_desde 2 demo_ext (drop 1 demo_script) (int 1) demo_worker = Inr (Desalojada, 2, w)"
    using demo_ejecutar by (auto split: sum.split_asm prod.split_asm)
  from query_program_counter[OF w] have "copi (demo_script ! 1) \<noteq> END" by (simp add: demo_script_def)
  with w show ?thesis by blast
qed

section \<open>TRUNCATE\<close>

text \<open>
  TRUNCATE means to round the size up to a whole number of pages but adds the remainder
  instead of what is missing: the size sent is a multiple of the page size exactly when twice
  the size asked for is.
\<close>

lemma truncate_size_multiple:
  assumes "0 \<le> n" and "0 < tam"
  shows "tam dvd tamanio_pedido n tam \<longleftrightarrow> tam dvd 2 * n"
proof -
  have "tamanio_pedido n tam = n + n mod tam"
    using assms by (simp add: tamanio_pedido_def c_mod_pos Let_def)
  moreover have "(n + n mod tam) mod tam = (2 * n) mod tam"
    unfolding mult_2 by (rule mod_add_right_eq)
  ultimately show ?thesis unfolding dvd_eq_mod_eq_0 by (simp only:)
qed

section \<open>The parser\<close>

text \<open>
  The parser keeps the order of the file: it returns exactly one instruction per line, in
  the order of the lines, and only when every line is an instruction with its words.
\<close>

lemma parser_keeps_order:
  "parsear_archivo ext contenido = Inr is \<longleftrightarrow>
   list_all2 (\<lambda>l i. parsear_linea ext l = Inr i) (string_split ext contenido [CHR 0x0A]) is"
  unfolding parsear_archivo_def by (simp add: parsear_lineas_iff)

text \<open>
  C20: a script written out, one instruction per line and its words between spaces, parses
  back to the same instructions, when \<open>string_split\<close> separates what was joined.
\<close>

theorem script_roundtrip:
  assumes "separa ext" and "is \<noteq> []" and "list_all instruccion_ok is"
  shows "parsear_archivo ext (escribir_script is) = Inr is"
  by (rule parsear_escribir_script[OF assms])

lemma demo_split_simple: "c \<notin> set p \<Longrightarrow> demo_split p [c] = [p]"
  by (induction p) auto

lemma demo_split_parte: "c \<notin> set p \<Longrightarrow> demo_split (p @ c # cs) [c] = p # demo_split cs [c]"
  by (induction p) auto

lemma demo_separa: "separa demo_ext"
proof -
  have "demo_split (juntar [c] ps) [c] = ps" if "ps \<noteq> []" "list_all (\<lambda>p. p \<noteq> [] \<and> c \<notin> set p) ps" for c ps
    using that
    by (induction "[c]" ps rule: juntar.induct) (auto simp: demo_split_simple demo_split_parte)
  then show ?thesis by (simp add: separa_def demo_ext_def)
qed

theorem script_roundtrip_witness:
  "parsear_archivo demo_ext (escribir_script demo_script) = Inr demo_script"
  by (rule script_roundtrip[OF demo_separa])
    (simp_all add: demo_script_def instruccion_ok_def aridad_def palabras_def)

text \<open>The concrete worker runs the query its master gives it, from the first WRITE to END.\<close>

lemma demo_query:
  "(case atender_query 2 demo_ext demo_worker of
      Inl e \<Rightarrow> None | Inr (fin, pc, w) \<Rightarrow> Some (fin, pc, query_id w, entorno w)) =
   Some (Desalojada, 1, ''7'',
     [(CONSULTA_INTERRUPCION, [int_bytes 1]),
      (MODIFICACIONES_STORAGE, [cstr ''F'', cstr ''T'', int_bytes 0, [0, 0, 65, 66], cstr ''7'']),
      (MODIFICACIONES_STORAGE, [cstr ''F'', cstr ''T'', int_bytes 1, [0, 0, 0, 0], cstr ''7''])])"
  by code_simp

end
