(* ===== verification/Worker_Vista.thy ===== *)
theory Worker_Vista
  imports Worker_Transparencia Worker_Query
begin

text \<open>
  What WRITE, READ and FLUSH do to what a File:Tag reads as, byte by byte and across pages: a
  WRITE changes the bytes it writes, a READ sends the bytes to the master, and after a FLUSH
  the storage has what the worker reads. Inside \<open>servidor_paginas\<close>.
\<close>

section \<open>Bytes\<close>

text \<open>The byte of a File:Tag at an address, as the worker reads it.\<close>

definition byte_en :: "'e almacen_visto \<Rightarrow> 'e worker \<Rightarrow> string \<Rightarrow> int \<Rightarrow> byte option" where
  "byte_en S w ident a =
     (case vista S w ident (a div tam_bloque S) of
        None \<Rightarrow> None
      | Some c \<Rightarrow> Some (c ! nat (a mod tam_bloque S)))"

text \<open>The bytes are written at the address, and nothing else changes.\<close>

definition escribe :: "'e almacen_visto \<Rightarrow> string \<Rightarrow> int \<Rightarrow> byte list \<Rightarrow> 'e worker \<Rightarrow> 'e worker \<Rightarrow> bool" where
  "escribe S ident a bs w w' \<longleftrightarrow>
     firme S w' \<and>
     (sano S (entorno w') \<longrightarrow> sano S (entorno w) \<and>
       (coherente S w \<longrightarrow> coherente S w' \<and>
         (\<forall>b \<in> nombres S. \<forall>x \<ge> 0. byte_en S w' b x =
            (if b = ident \<and> a \<le> x \<and> x < a + int (length bs) then Some (bs ! nat (x - a))
             else byte_en S w b x))))"

lemma misma_vista_byte:
  "misma_vista S w w' \<Longrightarrow> b \<in> nombres S \<Longrightarrow> byte_en S w' b x = byte_en S w b x"
  by (simp add: misma_vista_def byte_en_def)

lemma fiel_escribe: "fiel S w w' \<Longrightarrow> escribe S ident a [] w w'"
  by (auto simp: fiel_def transparente_def escribe_def misma_vista_byte)

lemma escribe_vacio: "escribe S ident a [] w w' \<Longrightarrow> escribe S ident b [] w w'"
  unfolding escribe_def by auto

lemma escribe_trans:
  assumes "escribe S ident a bs w w1" and "escribe S ident (a + int (length bs)) cs w1 w2"
  shows "escribe S ident a (bs @ cs) w w2"
  unfolding escribe_def
proof (intro conjI impI)
  show "firme S w2" using assms(2) by (simp add: escribe_def)
  assume s: "sano S (entorno w2)"
  then have s1: "sano S (entorno w1)" using assms(2) by (simp add: escribe_def)
  then show "sano S (entorno w)" using assms(1) by (simp add: escribe_def)
  assume c: "coherente S w"
  then have c1: "coherente S w1" using assms(1) s1 by (simp add: escribe_def)
  then show "coherente S w2" using assms(2) s by (simp add: escribe_def)
  show "\<forall>b \<in> nombres S. \<forall>x \<ge> 0. byte_en S w2 b x =
      (if b = ident \<and> a \<le> x \<and> x < a + int (length (bs @ cs)) then Some ((bs @ cs) ! nat (x - a))
       else byte_en S w b x)"
  proof (intro ballI allI impI)
    fix b x assume b: "b \<in> nombres S" and x: "(0::int) \<le> x"
    have 2: "byte_en S w2 b x = (if b = ident \<and> a + int (length bs) \<le> x \<and> x < a + int (length bs) + int (length cs)
        then Some (cs ! nat (x - (a + int (length bs)))) else byte_en S w1 b x)"
      using assms(2) s c1 b x unfolding escribe_def by blast
    have 1: "byte_en S w1 b x = (if b = ident \<and> a \<le> x \<and> x < a + int (length bs) then Some (bs ! nat (x - a))
        else byte_en S w b x)"
      using assms(1) s1 c b x unfolding escribe_def by blast
    have "nat (x - (a + int (length bs))) = nat (x - a) - length bs" by simp
    moreover have "a \<le> x \<Longrightarrow> nat (x - a) < length bs \<longleftrightarrow> x < a + int (length bs)" by linarith
    ultimately show "byte_en S w2 b x =
      (if b = ident \<and> a \<le> x \<and> x < a + int (length (bs @ cs)) then Some ((bs @ cs) ! nat (x - a))
       else byte_en S w b x)"
      unfolding 2 1 by (auto simp: nth_append)
  qed
qed

lemma escribe_fiel: "escribe S ident a bs w w1 \<Longrightarrow> fiel S w1 w2 \<Longrightarrow> escribe S ident a bs w w2"
  using escribe_trans[OF _ fiel_escribe, of S ident a bs w w1 w2] by simp

lemma fiel_antes_escribe: "fiel S w w1 \<Longrightarrow> escribe S ident a bs w1 w2 \<Longrightarrow> escribe S ident a bs w w2"
  using escribe_trans[OF fiel_escribe, of S w w1 ident a bs w2] by simp

lemma byte_en_pagina:
  assumes "forma_ok w" and "tam_pagina w = tam_bloque S" and "i < cantidad_marcos w" and "tiene w i ident n"
    and "0 \<le> d" and "d < tam_bloque S"
  shows "byte_en S w ident (n * tam_bloque S + d) = Some (contenido i w ! nat d)"
proof -
  have "(n * tam_bloque S + d) div tam_bloque S = n" "(n * tam_bloque S + d) mod tam_bloque S = d"
    using assms(5,6) by (simp_all add: div_mult_self3)
  then show ?thesis using vista_presente[OF assms(1,3,4), of S] by (simp add: byte_en_def)
qed

section \<open>Writing inside a page\<close>

definition marcar :: "nat \<Rightarrow> 'e worker \<Rightarrow> 'e worker" where
  "marcar p w = w\<lparr>paginas := (paginas w)(p := map_option (\<lambda>pg. pg\<lparr>modificado := True, uso := True\<rparr>) (paginas w p))\<rparr>"

lemma marcar_campos:
  "misma_forma w (marcar p w)" "memoria (marcar p w) = memoria w" "entorno (marcar p w) = entorno w"
  "file_tags (marcar p w) = file_tags w" "mismos_ft w (marcar p w)" "contenido j (marcar p w) = contenido j w"
  by (cases "paginas w p"; auto simp: marcar_def misma_forma_def mismos_ft_def forma_pagina_def contenido_def)+

lemma set_pagina_marcar:
  "paginas w p = Some pg \<Longrightarrow> set_pagina p (\<lambda>pg. pg\<lparr>modificado := True, uso := True\<rparr>) w = Inr (marcar p w)"
  by (simp add: set_pagina_def marcar_def)

lemma escribir_marco:
  assumes f: "firme S w" and oc: "ocupa w i r p" and ft: "file_tags w r = Some ft" and pg: "paginas w p = Some pg"
    and d: "int d + int (length bs) \<le> tam_bloque S"
    and put: "mem_put (p_marco i (marcar p w) + int d) bs (marcar p w) = Inr w'"
  shows "escribe S (identificador ft) (nro_pagina pg * tam_bloque S + int d) bs w w'"
proof -
  let ?id = "identificador ft" and ?n = "nro_pagina pg" and ?T = "tam_bloque S" and ?w = "marcar p w"
  note b = firmeD(2)[OF f] and fo = firmeD(3)[OF f]
  have T: "0 < ?T" "tam_pagina w = ?T" using tamanios_okD(1)[OF fo] basicaD(3)[OF b] by simp_all
  have i: "i < cantidad_marcos w" using oc by (simp add: ocupa_def)
  have fo1: "forma_ok ?w" by (rule misma_forma_ok[OF marcar_campos(1) fo])
  have i1: "i < cantidad_marcos ?w" "tam_pagina ?w = ?T" using i T by (simp_all add: marcar_def)
  have d1: "int d + int (length bs) \<le> tam_pagina ?w" using d i1 by simp
  obtain m where m: "w' = ?w\<lparr>memoria := m\<rparr>" "length m = length (memoria ?w)"
    using contenido_put(2)[OF fo1 i1(1) i1(1) d1 put] by blast
  have mf: "mismos_ft ?w w'" using m by (simp add: mismos_ft_def misma_forma_def)
  have forma: "misma_forma w w'"
    by (rule misma_forma_trans[OF marcar_campos(1)[where p = p]]) (use mf in \<open>simp add: mismos_ft_def\<close>)
  have mo: "mem_ok w'"
    using mismos_ft_ok[OF mf mismos_ft_ok[OF marcar_campos(5) firmeD(1)[OF f]]] .
  have e: "entorno w' = entorno w" by (simp add: m(1) marcar_campos)
  have b': "basica S w'" by (rule basica_forma[OF b forma]) (simp add: e)
  have tiene: "tiene w' j a n = tiene w j a n" for j a n by (rule tiene_misma_forma[OF forma])
  have cm: "cantidad_marcos w' = cantidad_marcos w" using forma by (simp add: misma_forma_def)
  have co: "contenido j w' = (if j = i then take d (contenido i w) @ bs @ drop (d + length bs) (contenido i w)
      else contenido j w)" if "j < cantidad_marcos w" for j
  proof -
    have c: "contenido k ?w = contenido k w" for k by (rule marcar_campos(6))
    have "j < cantidad_marcos ?w" using that by (simp add: marcar_def)
    from contenido_put(1)[OF fo1 i1(1) this d1 put] show ?thesis unfolding c .
  qed
  have ti: "tiene w i ?id ?n" using i oc ft pg by (auto simp: tiene_ocupa)
  have len: "length (contenido i w) = nat ?T" using contenido_mem_get(2)[OF fo i] T by simp
  have coh: "coherente S w'" if c: "coherente S w"
    unfolding coherente_def e cm tiene
  proof (intro allI impI)
    fix j a n assume h: "j < cantidad_marcos w" "tiene w j a n" "\<not> sucio w' j"
    have si: "sucio w' i" using oc pg by (simp add: sucio_def m(1) marcar_def ocupa_def)
    then have ji: "j \<noteq> i" using h(3) by auto
    obtain s q where q: "ocupa w j s q" using h by (auto simp: tiene_ocupa)
    then have "q \<noteq> p" using oc ji by (auto simp: ocupa_def)
    then have "\<not> sucio w j" using h(3) q by (simp add: sucio_def m(1) marcar_def ocupa_def)
    then show "pag S (entorno w) a n = Some (contenido j w')" using c h(1,2) ji co[OF h(1)] by (simp add: coherente_def)
  qed
  have by_en: "byte_en S w' a x =
      (if a = ?id \<and> ?n * ?T + int d \<le> x \<and> x < ?n * ?T + int d + int (length bs)
       then Some (bs ! nat (x - (?n * ?T + int d))) else byte_en S w a x)" for a x
  proof (cases "\<exists>j < cantidad_marcos w. tiene w j a (x div ?T)")
    case True
    then obtain j where j: "j < cantidad_marcos w" "tiene w j a (x div ?T)" by blast
    have v: "byte_en S w' a x = Some (contenido j w' ! nat (x mod ?T))"
      "byte_en S w a x = Some (contenido j w ! nat (x mod ?T))"
      using vista_presente[OF fo j, of S] vista_presente[of w' j a "x div ?T" S] j mo
      by (simp_all add: byte_en_def tiene cm mem_ok_def)
    show ?thesis
    proof (cases "j = i")
      case True
      then have a: "a = ?id" "x div ?T = ?n" using j(2) ti by (auto simp: tiene_def split: option.split_asm)
      have x: "x = ?n * ?T + x mod ?T" using a(2) by (metis mult.commute div_mult_mod_eq mult.commute)
      define y where "y = nat (x mod ?T)"
      have y: "x = ?n * ?T + int y" "y < length (contenido i w)"
        using x T(1) len by (simp_all add: y_def)
      have "(take d (contenido i w) @ bs @ drop (d + length bs) (contenido i w)) ! y =
          (if d \<le> y \<and> y < d + length bs then bs ! (y - d) else contenido i w ! y)"
        using y(2) d len by (auto simp: nth_append min_def)
      moreover have "nat (x - (?n * ?T + int d)) = y - d" using y(1) by simp
      moreover have "byte_en S w' a x = Some ((take d (contenido i w) @ bs @ drop (d + length bs) (contenido i w)) ! y)"
        "byte_en S w a x = Some (contenido i w ! y)"
        using v co[OF i] True unfolding y_def by simp_all
      moreover have "(a = ?id \<and> ?n * ?T + int d \<le> x \<and> x < ?n * ?T + int d + int (length bs)) \<longleftrightarrow>
          d \<le> y \<and> y < d + length bs"
        using a(1) y(1) by auto
      ultimately show ?thesis by simp
    next
      case False
      have "\<not> (a = ?id \<and> ?n * ?T + int d \<le> x \<and> x < ?n * ?T + int d + int (length bs))"
      proof
        assume h: "a = ?id \<and> ?n * ?T + int d \<le> x \<and> x < ?n * ?T + int d + int (length bs)"
        then have "x - ?n * ?T < ?T" "0 \<le> x - ?n * ?T" using d by linarith+
        then have "x div ?T = ?n" using T(1) by (intro int_div_pos_eq[of _ _ _ "x - ?n * ?T"]) (auto simp: algebra_simps)
        then show False using tiene_unico[OF fo j i] ti h False by simp
      qed
      moreover have "byte_en S w' a x = byte_en S w a x" using v co[OF j(1)] False by simp
      ultimately show ?thesis by auto
    qed
  next
    case False
    have "\<not> (a = ?id \<and> ?n * ?T + int d \<le> x \<and> x < ?n * ?T + int d + int (length bs))"
    proof
      assume h: "a = ?id \<and> ?n * ?T + int d \<le> x \<and> x < ?n * ?T + int d + int (length bs)"
      then have "x - ?n * ?T < ?T" "0 \<le> x - ?n * ?T" using d by linarith+
      then have "x div ?T = ?n" using T(1) by (intro int_div_pos_eq[of _ _ _ "x - ?n * ?T"]) (auto simp: algebra_simps)
      then show False using False ti h i by auto
    qed
    moreover have "byte_en S w' a x = byte_en S w a x"
      using False by (simp add: byte_en_def vista_ausente tiene cm e)
    ultimately show ?thesis by auto
  qed
  show ?thesis
    using mo b' coh by_en by (auto simp: escribe_def firme_def e)
qed

section \<open>Writing across pages\<close>

context servidor_paginas
begin

lemma escribir_en_marco:
  assumes f: "firme S w" and oc: "ocupa w i r p" and ft: "file_tags w r = Some ft"
    and pg: "paginas w p = Some pg" and d: "int d + int (length bs) \<le> tam_bloque S"
  shows "okE (escribe S (identificador ft) (nro_pagina pg * tam_bloque S + int d) bs w)
    (interaccion_escribir ext (p_marco i (marcar p w) + int d) bs i (marcar p w))"
  unfolding interaccion_escribir_def okE_bindE
proof (rule okE_I)
  fix w2 assume "mem_put (p_marco i (marcar p w) + int d) bs (marcar p w) = Inr w2"
  note e = escribir_marco[OF f oc ft pg d this]
  then have "firme S w2" by (simp add: escribe_def)
  from escribe_fiel[OF e quieta_fiel[OF this quieta_sellar]]
  show "okE (escribe S (identificador ft) (nro_pagina pg * tam_bloque S + int d) bs w) (Inr (sellar_marco ext i w2))"
    by simp
qed

lemma marco_de_ocupa:
  assumes "forma_ok w" and "ocupa w i r p"
  shows "marco_de p w = Inr i" and "marco_de p (marcar p w) = Inr i"
proof -
  have i: "i < length (marco w)" using assms tamanios_okD(2)[OF assms(1)] by (simp add: ocupa_def)
  obtain pg where pg: "paginas w p = Some pg" "nro_marco pg = int i" using assms(2) by (auto simp: ocupa_def)
  show "marco_de p w = Inr i" using marco_de_nat[OF pg] i by simp
  have "paginas (marcar p w) p = Some (pg\<lparr>modificado := True, uso := True\<rparr>)" "marco (marcar p w) = marco w"
    using pg by (simp_all add: marcar_def)
  then show "marco_de p (marcar p w) = Inr i" using marco_de_nat[of "marcar p w" p _ i] pg i by simp
qed

text \<open>The pages after the first: what was written, and what is left.\<close>

lemma escribir_resto_vista:
  assumes N: "ident \<in> nombres S"
  shows "firme S w \<Longrightarrow> okE (\<lambda>(queda, w'). \<exists>bs. resto = bs @ queda \<and> escribe S ident (nro * tam_bloque S) bs w w')
    (escribir_resto v ext ident k nro resto w)"
proof (induction k arbitrary: nro resto w)
  case 0
  then show ?case using fiel_escribe[OF fiel_refl] by simp
next
  case (Suc k)
  let ?T = "tam_bloque S"
  have T: "0 < ?T" using tamanios_okD(1)[OF firmeD(3)[OF Suc.prems]] basicaD(3)[OF firmeD(2)[OF Suc.prems]] by simp
  let ?n = "if int (length resto) < ?T then length resto else nat ?T"
  let ?Q = "\<lambda>w. \<lambda>(queda, w'). \<exists>bs. resto = bs @ queda \<and> escribe S ident (nro * ?T) bs w w'"
  have paso: "okE (?Q w1) (bindE (set_pagina q (\<lambda>pg. pg\<lparr>modificado := True, uso := True\<rparr>) w1) (\<lambda>w.
      bindE (marco_de q w) (\<lambda>i.
        let n = (if int (length resto) < tam_pagina w then length resto else nat (tam_pagina w))
        in bindE (interaccion_escribir ext (p_marco i w) (take n resto) i w) (\<lambda>w.
            escribir_resto v ext ident k (nro + 1) (drop n resto) w))))"
    if f1: "firme S w1" and dp: "de_pagina w1 ident nro q" for w1 q
  proof -
    have corto: "int 0 + int (length (take ?n resto)) \<le> ?T" using T by auto
    obtain i r ft pg where h: "ocupa w1 i r q" "file_tags w1 r = Some ft" "identificador ft = ident"
      "paginas w1 q = Some pg" "nro_pagina pg = nro" using dp unfolding de_pagina_def by blast
    let ?w = "marcar q w1"
    have tw: "tam_pagina ?w = ?T" using basicaD(3)[OF firmeD(2)[OF f1]] by (simp add: marcar_def)
    note m = marco_de_ocupa(2)[OF firmeD(3)[OF f1] h(1)]
    have e: "okE (escribe S ident (nro * ?T) (take ?n resto) w1) (interaccion_escribir ext (p_marco i ?w) (take ?n resto) i ?w)"
      using escribir_en_marco[OF f1 h(1,2,4) corto] h(3,5) by simp
    have "okE (?Q w1) (bindE (interaccion_escribir ext (p_marco i ?w) (take ?n resto) i ?w)
        (escribir_resto v ext ident k (nro + 1) (drop ?n resto)))"
      unfolding okE_bindE
    proof (rule okE_mono[OF e])
      fix w2 assume e2: "escribe S ident (nro * ?T) (take ?n resto) w1 w2"
      then have f2: "firme S w2" by (simp add: escribe_def)
      show "okE (?Q w1) (escribir_resto v ext ident k (nro + 1) (drop ?n resto) w2)"
      proof (rule okE_mono[OF Suc.IH[OF f2]])
        fix x assume x: "case x of (queda, w') \<Rightarrow> \<exists>bs. drop ?n resto = bs @ queda \<and>
            escribe S ident ((nro + 1) * ?T) bs w2 w'"
        obtain queda w3 where q: "x = (queda, w3)" by force
        with x obtain bs where bs: "drop ?n resto = bs @ queda" "escribe S ident ((nro + 1) * ?T) bs w2 w3" by auto
        have "escribe S ident (nro * ?T + int (length (take ?n resto))) bs w2 w3"
        proof (cases "int (length resto) < ?T")
          case True
          then have "bs = []" using bs(1) by simp
          then show ?thesis using escribe_vacio bs(2) by blast
        next
          case False
          then have "int (length (take ?n resto)) = ?T" using T by simp
          then show ?thesis using bs(2) by (simp add: algebra_simps)
        qed
        from escribe_trans[OF e2 this] have "escribe S ident (nro * ?T) (take ?n resto @ bs) w1 w3" .
        moreover have "resto = (take ?n resto @ bs) @ queda" using bs(1) by (metis append_assoc append_take_drop_id)
        ultimately show "?Q w1 x" unfolding q prod.case by blast
      qed
    qed
    then show ?thesis unfolding set_pagina_marcar[OF h(4)] bindE.simps(2) m tw Let_def .
  qed
  show ?case
    unfolding escribir_resto.simps okE_bindE[of _ "pagina_en_Tabla v ext ident nro w"]
  proof (rule okE_mono[OF pagina_en_Tabla_fiel[OF Suc.prems N]])
    fix x assume x: "case x of (p, w') \<Rightarrow> fiel S w w' \<and> (\<forall>q. p = Some q \<longrightarrow> de_pagina w' ident nro q)"
    obtain p w1 where p: "x = (p, w1)" by force
    show "okE (?Q w) (case x of (p, w) \<Rightarrow> bindE (puntero_pagina p) (\<lambda>p.
       bindE (set_pagina p (\<lambda>pg. pg\<lparr>modificado := True, uso := True\<rparr>) w) (\<lambda>w.
       bindE (marco_de p w) (\<lambda>i.
         let n = (if int (length resto) < tam_pagina w then length resto else nat (tam_pagina w))
         in bindE (interaccion_escribir ext (p_marco i w) (take n resto) i w) (\<lambda>w.
              escribir_resto v ext ident k (nro + 1) (drop n resto) w)))))"
    proof (cases p)
      case (Some q)
      with x p have h: "fiel S w w1" "de_pagina w1 ident nro q" by simp_all
      have "?Q w1 y \<Longrightarrow> ?Q w y" for y using fiel_antes_escribe[OF h(1)] by (cases y) auto
      with okE_mono[OF paso[OF fielD[OF h(1)] h(2)]] show ?thesis
        unfolding p Some prod.case puntero_pagina_def option.case bindE.simps(2) by blast
    qed (simp add: p puntero_pagina_def)
  qed
qed

text \<open>A write from an address inside its first page.\<close>

lemma escribir_pagina_vista:
  assumes f: "firme S w" and N: "ident \<in> nombres S" and dp: "de_pagina w ident (dir div tam_bloque S) p"
  shows "okE (\<lambda>(queda, w'). \<exists>bs. dato = bs @ queda \<and> escribe S ident dir bs w w')
    (escribir_pagina v ext p ident dir dato w)"
proof -
  let ?T = "tam_bloque S"
  obtain i r ft pg where h: "ocupa w i r p" "file_tags w r = Some ft" "identificador ft = ident"
    "paginas w p = Some pg" "nro_pagina pg = dir div ?T" using dp unfolding de_pagina_def by blast
  have T: "0 < ?T" "tam_pagina w = ?T"
    using tamanios_okD(1)[OF firmeD(3)[OF f]] basicaD(3)[OF firmeD(2)[OF f]] by simp_all
  note m = marco_de_ocupa(1)[OF firmeD(3)[OF f] h(1)]
  define d where "d = nat (dir mod ?T)"
  have dir: "dir = nro_pagina pg * ?T + int d" using T(1) h(5) by (simp add: d_def)
  have d: "int d < ?T" using T(1) by (simp add: d_def)
  have en: "dir - ?T * nro_pagina pg = int d" by (simp add: dir)
  have pm: "p_marco i (marcar p w) = p_marco i w" "tam_pagina (marcar p w) = ?T"
    using T(2) by (simp_all add: p_marco_def marcar_def)
  have e: "okE (escribe S ident dir bs w) (interaccion_escribir ext (p_marco i w + int d) bs i (marcar p w))"
    if "int d + int (length bs) \<le> ?T" for bs
    using escribir_en_marco[OF f h(1,2,4) that] h(3) dir pm by simp
  let ?Q = "\<lambda>(queda, w'). \<exists>bs. dato = bs @ queda \<and> escribe S ident dir bs w w'"
  show ?thesis
  proof (cases "int (length dato) \<le> ?T - int d")
    case True
    have "okE ?Q (bindE (interaccion_escribir ext (p_marco i w + int d) dato i (marcar p w)) (\<lambda>w. Inr ([], w)))"
      unfolding okE_bindE by (rule okE_mono[OF e]) (use True in auto)
    then show ?thesis
      using True unfolding escribir_pagina_def deref_Some[of "paginas w", OF h(4)] bindE.simps(2) Let_def en m
        set_pagina_marcar[OF h(4)] T(2) by (simp del: okE_bindE)
  next
    case False
    let ?e = "nat (?T - int d)"
    have esp: "0 \<le> ?T - int d" "int (length (take ?e dato)) = ?T - int d" using False d by simp_all
    have "okE ?Q (bindE (interaccion_escribir ext (p_marco i w + int d) (take ?e dato) i (marcar p w)) (\<lambda>w.
        escribir_resto v ext ident (k w) (nro_pagina pg + 1) (drop ?e dato) w))" for k :: "'e worker \<Rightarrow> nat"
      unfolding okE_bindE
    proof (rule okE_mono[OF e])
      show "int d + int (length (take ?e dato)) \<le> ?T" using esp by simp
      fix w2 assume e2: "escribe S ident dir (take ?e dato) w w2"
      then have f2: "firme S w2" by (simp add: escribe_def)
      show "okE ?Q (escribir_resto v ext ident (k w2) (nro_pagina pg + 1) (drop ?e dato) w2)"
      proof (rule okE_mono[OF escribir_resto_vista[OF N f2]])
        fix x assume x: "case x of (queda, w') \<Rightarrow> \<exists>bs. drop ?e dato = bs @ queda \<and>
            escribe S ident ((nro_pagina pg + 1) * ?T) bs w2 w'"
        obtain queda w3 where q: "x = (queda, w3)" by force
        with x obtain bs where bs: "drop ?e dato = bs @ queda"
          "escribe S ident ((nro_pagina pg + 1) * ?T) bs w2 w3" by auto
        have "(nro_pagina pg + 1) * ?T = dir + int (length (take ?e dato))"
          unfolding esp(2) by (simp add: dir algebra_simps)
        then have "escribe S ident dir (take ?e dato @ bs) w w3" using escribe_trans[OF e2] bs(2) by simp
        moreover have "dato = (take ?e dato @ bs) @ queda" using bs(1) by (metis append_assoc append_take_drop_id)
        ultimately show "?Q x" unfolding q prod.case by blast
      qed
    qed
    then show ?thesis
      using False esp(1) unfolding escribir_pagina_def deref_Some[of "paginas w", OF h(4)] bindE.simps(2) Let_def en m
        set_pagina_marcar[OF h(4)] T(2) by (simp add: pm(2) not_less[symmetric] del: okE_bindE)
  qed
qed

end

section \<open>Reading\<close>

text \<open>The bytes are what the File:Tag reads as from the address on, and nothing changes.\<close>

definition lee :: "'e almacen_visto \<Rightarrow> string \<Rightarrow> int \<Rightarrow> byte list \<Rightarrow> 'e worker \<Rightarrow> 'e worker \<Rightarrow> bool" where
  "lee S ident a bs w w' \<longleftrightarrow>
     fiel S w w' \<and>
     (sano S (entorno w') \<longrightarrow> coherente S w \<longrightarrow>
        (\<forall>k < length bs. byte_en S w ident (a + int k) = Some (bs ! k)))"

lemma lee_trans:
  assumes N: "ident \<in> nombres S" and 1: "lee S ident a bs w w1" and 2: "lee S ident (a + int (length bs)) cs w1 w2"
  shows "lee S ident a (bs @ cs) w w2"
  unfolding lee_def
proof (intro conjI impI allI)
  show "fiel S w w2" using 1 2 fiel_trans unfolding lee_def by blast
  fix k assume s: "sano S (entorno w2)" and c: "coherente S w" and k: "k < length (bs @ cs)"
  have s1: "sano S (entorno w1)" using 2 s by (simp add: lee_def fiel_def transparente_def)
  have t: "coherente S w1" "misma_vista S w w1" using 1 s1 c by (simp_all add: lee_def fiel_def transparente_def)
  show "byte_en S w ident (a + int k) = Some ((bs @ cs) ! k)"
  proof (cases "k < length bs")
    case True
    then show ?thesis using 1 s1 c by (simp add: lee_def nth_append)
  next
    case False
    then obtain j where j: "k = length bs + j" "j < length cs"
      using k by (metis add_diff_inverse_nat length_append nat_add_left_cancel_less)
    then have "byte_en S w1 ident (a + int (length bs) + int j) = Some (cs ! j)"
      using 2 s t(1) unfolding lee_def by blast
    then show ?thesis using j misma_vista_byte[OF t(2) N] by (simp add: algebra_simps nth_append)
  qed
qed

lemma fiel_lee: "fiel S w w' \<Longrightarrow> lee S ident a [] w w'"
  by (simp add: lee_def)

lemma fiel_antes_lee: "ident \<in> nombres S \<Longrightarrow> fiel S w w1 \<Longrightarrow> lee S ident a bs w1 w2 \<Longrightarrow> lee S ident a bs w w2"
  using lee_trans[OF _ fiel_lee, of ident S w w1 a bs w2] by simp

lemma lee_despues_fiel: "ident \<in> nombres S \<Longrightarrow> lee S ident a bs w w1 \<Longrightarrow> fiel S w1 w2 \<Longrightarrow> lee S ident a bs w w2"
  using lee_trans[OF _ _ fiel_lee, of ident S a bs w w1 w2] by simp

lemma mem_get_marco:
  assumes fo: "forma_ok w" and i: "i < cantidad_marcos w" and d: "int d + int n \<le> tam_pagina w"
  shows "mem_get (p_marco i w + int d) (int n) w = Inr (take n (drop d (contenido i w)))"
proof -
  have T: "0 < tam_pagina w" by (rule tamanios_okD(1)[OF fo])
  have o: "p_marco i w + int d = int (i * nat (tam_pagina w) + d)" using T by (simp add: p_marco_def)
  have "int (Suc i) * tam_pagina w \<le> int (length (memoria w))" by (rule tamanios_okD(4)[OF fo i])
  moreover have "int (i * nat (tam_pagina w)) = int i * tam_pagina w" using T by simp
  ultimately have le: "int (i * nat (tam_pagina w) + d) + int n \<le> int (length (memoria w))"
    using d by (simp add: algebra_simps del: of_nat_mult)
  have "take n (drop d (contenido i w)) = take n (drop (i * nat (tam_pagina w) + d) (memoria w))"
    using d by (simp add: contenido_def drop_take min_def add.commute)
  then show ?thesis unfolding o mem_get_def using le by (simp del: of_nat_add of_nat_mult)
qed

context servidor_paginas
begin

lemma leer_en_marco:
  assumes f: "firme S w" and N: "ident \<in> nombres S" and oc: "ocupa w i r p" and ft: "file_tags w r = Some ft"
    and id: "identificador ft = ident" and pg: "paginas w p = Some pg" and d: "int d + n \<le> tam_bloque S"
  shows "okE (\<lambda>(bs, w'). int (length bs) = n \<and> lee S ident (nro_pagina pg * tam_bloque S + int d) bs w w')
    (interaccion_leer ext (p_marco i w + int d) n i w)"
proof (cases "n < 0")
  case True
  then show ?thesis by (simp add: interaccion_leer_def mem_get_def)
next
  case False
  let ?T = "tam_bloque S" and ?bs = "take (nat n) (drop d (contenido i w))"
  note b = firmeD(2)[OF f] and fo = firmeD(3)[OF f]
  have T: "0 < ?T" "tam_pagina w = ?T" using tamanios_okD(1)[OF fo] basicaD(3)[OF b] by simp_all
  have i: "i < cantidad_marcos w" using oc by (simp add: ocupa_def)
  have ti: "tiene w i ident (nro_pagina pg)" using i oc ft id pg by (auto simp: tiene_ocupa)
  have len: "length (contenido i w) = nat ?T" using contenido_mem_get(2)[OF fo i] T by simp
  have g: "mem_get (p_marco i w + int d) n w = Inr ?bs"
    using mem_get_marco[OF fo i, of d "nat n"] d False T(2) by simp
  have lb: "int (length ?bs) = n" using len d False T(1) by (simp add: nat_le_iff)
  have "lee S ident (nro_pagina pg * ?T + int d) ?bs w (sellar_marco ext i w)"
    unfolding lee_def
  proof (intro conjI impI allI)
    show "fiel S w (sellar_marco ext i w)" by (rule quieta_fiel[OF f quieta_sellar])
    fix k assume k: "k < length ?bs"
    then have "int k < n" using lb by linarith
    then have "0 \<le> int d + int k" "int d + int k < ?T" using d by linarith+
    from byte_en_pagina[OF fo T(2) i ti this]
    have "byte_en S w ident (nro_pagina pg * ?T + (int d + int k)) = Some (contenido i w ! (d + k))"
      by (simp flip: of_nat_add)
    moreover have "d \<le> length (contenido i w)" using k by (cases "d \<le> length (contenido i w)") simp_all
    then have "?bs ! k = contenido i w ! (d + k)" using k by simp
    ultimately show "byte_en S w ident (nro_pagina pg * ?T + int d + int k) = Some (?bs ! k)"
      by (simp add: add.assoc)
  qed
  then show ?thesis using lb unfolding interaccion_leer_def g bindE.simps(2) okE_simps prod.case by blast
qed

lemma usar_fiel:
  assumes f: "firme S w" and oc: "ocupa w i r p" and ft: "file_tags w r = Some ft" and pg: "paginas w p = Some pg"
  obtains w1 pg1 where "set_pagina p (\<lambda>pg. pg\<lparr>uso := True\<rparr>) w = Inr w1" "fiel S w w1" "ocupa w1 i r p"
    "file_tags w1 r = Some ft" "paginas w1 p = Some pg1" "nro_pagina pg1 = nro_pagina pg" "p_marco i w1 = p_marco i w"
    "tam_pagina w1 = tam_pagina w"
proof -
  obtain w1 where s: "set_pagina p (\<lambda>pg. pg\<lparr>uso := True\<rparr>) w = Inr w1" using pg by (simp add: set_pagina_def)
  have q: "quieta S w w1" using okE_D[OF quieta_steps(1) s] .
  then have m: "misma_forma w w1" and "file_tags w1 = file_tags w" by (simp_all add: quieta_def mismos_ft_def)
  moreover have "paginas w1 p = Some (pg\<lparr>uso := True\<rparr>)" using s pg by (auto simp: set_pagina_def)
  ultimately show thesis
    using that[OF s quieta_fiel[OF f q]] oc ft misma_forma_ocupa[OF m]
    by (auto simp: p_marco_def misma_forma_def)
qed

lemma leer_resto_vista:
  assumes N: "ident \<in> nombres S"
  shows "firme S w \<Longrightarrow> okE (\<lambda>(bs, w'). int (length bs) \<le> max 0 sz \<and> lee S ident (nro * tam_bloque S) bs w w')
    (leer_resto v ext ident k nro sz w)"
proof (induction k arbitrary: nro sz w)
  case 0
  then show ?case using fiel_lee[OF fiel_refl] by simp
next
  case (Suc k)
  let ?T = "tam_bloque S"
  have T: "0 < ?T" using tamanios_okD(1)[OF firmeD(3)[OF Suc.prems]] basicaD(3)[OF firmeD(2)[OF Suc.prems]] by simp
  let ?n = "if sz < ?T then sz else ?T"
  let ?Q = "\<lambda>w. \<lambda>(bs, w'). int (length bs) \<le> max 0 sz \<and> lee S ident (nro * ?T) bs w w'"
  have paso: "okE (?Q w1) (bindE (set_pagina q (\<lambda>pg. pg\<lparr>uso := True\<rparr>) w1) (\<lambda>w.
      bindE (marco_de q w) (\<lambda>i.
        let n = (if sz < tam_pagina w then sz else tam_pagina w)
        in bindE (interaccion_leer ext (p_marco i w) n i w) (\<lambda>(bs, w).
           bindE (leer_resto v ext ident k (nro + 1) (sz - n) w) (\<lambda>(cs, w). Inr (bs @ cs, w))))))"
    if f1: "firme S w1" and dp: "de_pagina w1 ident nro q" for w1 q
  proof -
    obtain i r ft pg where h: "ocupa w1 i r q" "file_tags w1 r = Some ft" "identificador ft = ident"
      "paginas w1 q = Some pg" "nro_pagina pg = nro" using dp unfolding de_pagina_def by blast
    obtain w2 pg2 where u: "set_pagina q (\<lambda>pg. pg\<lparr>uso := True\<rparr>) w1 = Inr w2" "fiel S w1 w2" "ocupa w2 i r q"
      "file_tags w2 r = Some ft" "paginas w2 q = Some pg2" "nro_pagina pg2 = nro"
      using usar_fiel[OF f1 h(1,2,4)] h(5) by metis
    note f2 = fielD[OF u(2)]
    have tw: "tam_pagina w2 = ?T" by (rule basicaD(3)[OF firmeD(2)[OF f2]])
    note m = marco_de_ocupa(1)[OF firmeD(3)[OF f2] u(3)]
    have "okE (?Q w1) (bindE (interaccion_leer ext (p_marco i w2) ?n i w2) (\<lambda>(bs, w).
           bindE (leer_resto v ext ident k (nro + 1) (sz - ?n) w) (\<lambda>(cs, w). Inr (bs @ cs, w))))"
      unfolding okE_bindE[of _ "interaccion_leer ext (p_marco i w2) ?n i w2"]
    proof (rule okE_mono)
      show "okE (\<lambda>(bs, w'). int (length bs) = ?n \<and> lee S ident (nro * ?T) bs w2 w')
          (interaccion_leer ext (p_marco i w2) ?n i w2)"
        using leer_en_marco[OF f2 N u(3,4) h(3) u(5), of 0 ?n] u(6) by simp
      fix x assume x: "case x of (bs, w') \<Rightarrow> int (length bs) = ?n \<and> lee S ident (nro * ?T) bs w2 w'"
      obtain bs w3 where b: "x = (bs, w3)" by force
      with x have l: "int (length bs) = ?n" "lee S ident (nro * ?T) bs w2 w3" by simp_all
      have l1: "lee S ident (nro * ?T) bs w1 w3" by (rule fiel_antes_lee[OF N u(2) l(2)])
      then have f3: "firme S w3" by (simp add: lee_def fiel_def)
      have "okE (\<lambda>y. okE (?Q w1) (case y of (cs, w) \<Rightarrow> Inr (bs @ cs, w)))
          (leer_resto v ext ident k (nro + 1) (sz - ?n) w3)"
      proof (rule okE_mono[OF Suc.IH[OF f3]])
        fix y assume y: "case y of (cs, w') \<Rightarrow> int (length cs) \<le> max 0 (sz - ?n) \<and> lee S ident ((nro + 1) * ?T) cs w3 w'"
        obtain cs w4 where c: "y = (cs, w4)" by force
        with y have h4: "int (length cs) \<le> max 0 (sz - ?n)" "lee S ident ((nro + 1) * ?T) cs w3 w4" by simp_all
        have "lee S ident (nro * ?T + int (length bs)) cs w3 w4"
        proof (cases "sz < ?T")
          case True
          then have "cs = []" using h4(1) by simp
          then show ?thesis using h4(2) by (simp add: lee_def)
        next
          case False
          then show ?thesis using h4(2) l(1) by (simp add: algebra_simps)
        qed
        from lee_trans[OF N l1 this] show "okE (?Q w1) (case y of (cs, w) \<Rightarrow> Inr (bs @ cs, w))"
          using h4(1) l(1) by (simp add: c split: if_split_asm)
      qed
      then show "okE (?Q w1) (case x of (bs, w) \<Rightarrow>
           bindE (leer_resto v ext ident k (nro + 1) (sz - ?n) w) (\<lambda>(cs, w). Inr (bs @ cs, w)))"
        unfolding b prod.case okE_bindE .
    qed
    then show ?thesis unfolding u(1) bindE.simps(2) m tw Let_def .
  qed
  show ?case
    unfolding leer_resto.simps okE_bindE[of _ "pagina_en_Tabla v ext ident nro w"]
  proof (rule okE_mono[OF pagina_en_Tabla_fiel[OF Suc.prems N]])
    fix x assume x: "case x of (p, w') \<Rightarrow> fiel S w w' \<and> (\<forall>q. p = Some q \<longrightarrow> de_pagina w' ident nro q)"
    obtain p w1 where p: "x = (p, w1)" by force
    show "okE (?Q w) (case x of (p, w) \<Rightarrow> bindE (puntero_pagina p) (\<lambda>p.
       bindE (set_pagina p (\<lambda>pg. pg\<lparr>uso := True\<rparr>) w) (\<lambda>w.
       bindE (marco_de p w) (\<lambda>i.
         let n = (if sz < tam_pagina w then sz else tam_pagina w)
         in bindE (interaccion_leer ext (p_marco i w) n i w) (\<lambda>(bs, w).
            bindE (leer_resto v ext ident k (nro + 1) (sz - n) w) (\<lambda>(cs, w). Inr (bs @ cs, w)))))))"
    proof (cases p)
      case (Some q)
      with x p have h: "fiel S w w1" "de_pagina w1 ident nro q" by simp_all
      have "?Q w1 y \<Longrightarrow> ?Q w y" for y using fiel_antes_lee[OF N h(1)] by (cases y) auto
      with okE_mono[OF paso[OF fielD[OF h(1)] h(2)]] show ?thesis
        unfolding p Some prod.case puntero_pagina_def option.case bindE.simps(2) by blast
    qed (simp add: p puntero_pagina_def)
  qed
qed

end

text \<open>What \<open>leer_pagina\<close> sends to the master.\<close>

context servidor_paginas
begin

lemma leer_pagina_vista:
  assumes f: "firme S w" and N: "ident \<in> nombres S" and dp: "de_pagina w ident (dir div tam_bloque S) p"
  shows "okE (\<lambda>w'. fiel S w w' \<and> (\<exists>bs w1. int (length bs) = n \<and> lee S ident dir bs w w1 \<and>
           master_rta ext (LECTURA_MASTER, [cstr ident, bs @ [0]]) (entorno w1) = (Some OK, entorno w')))
    (leer_pagina v ext p ident dir n w)"
proof -
  let ?T = "tam_bloque S"
  let ?Q = "\<lambda>w'. fiel S w w' \<and> (\<exists>bs w1. int (length bs) = n \<and> lee S ident dir bs w w1 \<and>
           master_rta ext (LECTURA_MASTER, [cstr ident, bs @ [0]]) (entorno w1) = (Some OK, entorno w'))"
  obtain i r ft pg where h: "ocupa w i r p" "file_tags w r = Some ft" "identificador ft = ident"
    "paginas w p = Some pg" "nro_pagina pg = dir div ?T" using dp unfolding de_pagina_def by blast
  obtain w2 pg2 where u: "set_pagina p (\<lambda>pg. pg\<lparr>uso := True\<rparr>) w = Inr w2" "fiel S w w2" "ocupa w2 i r p"
    "file_tags w2 r = Some ft" "paginas w2 p = Some pg2" "nro_pagina pg2 = nro_pagina pg"
    "p_marco i w2 = p_marco i w" "tam_pagina w2 = tam_pagina w"
    using usar_fiel[OF f h(1,2,4)] by metis
  have T: "0 < ?T" "tam_pagina w = ?T"
    using tamanios_okD(1)[OF firmeD(3)[OF f]] basicaD(3)[OF firmeD(2)[OF f]] by simp_all
  note m = marco_de_ocupa(1)[OF firmeD(3)[OF f] h(1)]
  define d where "d = nat (dir mod ?T)"
  have dir: "dir = nro_pagina pg * ?T + int d" using T(1) h(5) by (simp add: d_def)
  have d: "int d < ?T" using T(1) by (simp add: d_def)
  have en: "dir - ?T * nro_pagina pg = int d" by (simp add: dir)
  have lee1: "okE (\<lambda>(bs, w'). int (length bs) = k \<and> lee S ident dir bs w w')
      (interaccion_leer ext (p_marco i w + int d) k i w2)" if "int d + k \<le> ?T" for k
    by (rule okE_mono[OF leer_en_marco[OF fielD[OF u(2)] N u(3,4) h(3) u(5) that, unfolded u(6,7), folded dir]])
       (use fiel_antes_lee[OF N u(2)] in auto)
  have manda: "okE ?Q (enviar_lectura ext ident bs n w1)"
    if l: "lee S ident dir bs w w1" and len: "int (length bs) \<le> n" for bs w1
  proof (rule okE_I)
    fix w' assume e: "enviar_lectura ext ident bs n w1 = Inr w'"
    then have "int (length bs) = n" using len by (auto simp: enviar_lectura_def split: if_split_asm)
    moreover have "master_rta ext (LECTURA_MASTER, [cstr ident, bs @ [0]]) (entorno w1) = (Some OK, entorno w')"
      using e by (auto simp: enviar_lectura_def en_entorno_def
          split: if_split_asm prod.split_asm option.split_asm resultado_t.split_asm)
    moreover have "fiel S w1 w'"
      using okE_D[OF quieta_lectura e] quieta_fiel l unfolding lee_def by (metis fielD)
    then have "fiel S w w'" using l fiel_trans unfolding lee_def by blast
    ultimately show "?Q w'" using l by blast
  qed
  have uno: "okE ?Q (bindE (interaccion_leer ext (p_marco i w + int d) n i w2)
      (\<lambda>(bs, w). enviar_lectura ext ident bs n w))" if "n \<le> ?T - int d"
    unfolding okE_bindE
    by (rule okE_mono[OF lee1]) (use that manda in \<open>auto split: prod.split\<close>)
  have varios: "okE ?Q (bindE (bindE (interaccion_leer ext (p_marco i w + int d) (?T - int d) i w2) (\<lambda>(bs, w).
        bindE (leer_resto v ext ident (k w) (nro_pagina pg + 1) (n - (?T - int d)) w) (\<lambda>(cs, w). Inr (bs @ cs, w))))
      (\<lambda>(bs, w). enviar_lectura ext ident bs n w))" if n: "?T - int d < n" for k :: "'e worker \<Rightarrow> nat"
  proof (rule okE_I)
    fix w' assume e: "bindE (bindE (interaccion_leer ext (p_marco i w + int d) (?T - int d) i w2) (\<lambda>(bs, w).
        bindE (leer_resto v ext ident (k w) (nro_pagina pg + 1) (n - (?T - int d)) w) (\<lambda>(cs, w). Inr (bs @ cs, w))))
      (\<lambda>(bs, w). enviar_lectura ext ident bs n w) = Inr w'"
    then obtain bs w3 cs w4 where s:
      "interaccion_leer ext (p_marco i w + int d) (?T - int d) i w2 = Inr (bs, w3)"
      "leer_resto v ext ident (k w3) (nro_pagina pg + 1) (n - (?T - int d)) w3 = Inr (cs, w4)"
      "enviar_lectura ext ident (bs @ cs) n w4 = Inr w'"
      by (auto simp: bindE_Inr_iff)
    have 1: "int (length bs) = ?T - int d" "lee S ident dir bs w w3" using okE_D[OF lee1 s(1)] by simp_all
    have "firme S w3" using 1(2) by (simp add: lee_def fiel_def)
    then have 2: "int (length cs) \<le> max 0 (n - (?T - int d))" "lee S ident ((nro_pagina pg + 1) * ?T) cs w3 w4"
      using okE_D[OF leer_resto_vista[OF N] s(2)] by simp_all
    have "(nro_pagina pg + 1) * ?T = dir + int (length bs)" using 1(1) dir by (simp add: algebra_simps)
    then have "lee S ident dir (bs @ cs) w w4" using lee_trans[OF N 1(2)] 2(2) by simp
    moreover have "int (length (bs @ cs)) \<le> n" using 1(1) 2(1) n by simp
    ultimately show "?Q w'" using okE_D[OF manda s(3)] by blast
  qed
  show ?thesis
    unfolding leer_pagina_def deref_Some[of "paginas w", OF h(4)] bindE.simps(2) Let_def m u(1) T(2) en
      u(8)
    using uno varios by (cases "n \<le> ?T - int d") (simp_all add: u(8) T(2) not_le del: okE_bindE)
qed

end

section \<open>FLUSH\<close>

text \<open>With no modified page in memory the storage has what the worker reads.\<close>

lemma vista_sin_sucios:
  assumes fo: "forma_ok w" and c: "coherente S w"
    and l: "\<And>i. i < cantidad_marcos w \<Longrightarrow> tiene w i ident n \<Longrightarrow> \<not> sucio w i"
  shows "vista S w ident n = pag S (entorno w) ident n"
proof (cases "\<exists>i < cantidad_marcos w. tiene w i ident n")
  case True
  then obtain i where i: "i < cantidad_marcos w" "tiene w i ident n" by blast
  then show ?thesis using vista_presente[OF fo i, of S] c l[OF i] by (simp add: coherente_def)
qed (simp add: vista_ausente)

lemma limpiar_publicada:
  assumes f: "firme S w" and oc: "ocupa w i r p" and pu: "publica S i w w1"
    and s: "set_pagina p (\<lambda>pg. pg\<lparr>modificado := False\<rparr>) w1 = Inr w2"
  shows "fiel S w w2"
proof -
  obtain e where e: "w1 = w\<lparr>entorno := e\<rparr>" using pu unfolding publica_def by blast
  have oc1: "ocupa w1 i r p" using oc by (simp add: e)
  have m1: "mismos_ft w w1" by (simp add: e mismos_ft_def misma_forma_def)
  have m2: "mismos_ft w1 w2" using okE_D[OF ft_steps(2) s] .
  have mf2: "misma_forma w1 w2" using m2 by (simp add: mismos_ft_def)
  have mo: "mem_ok w2" using mismos_ft_ok[OF m2 mismos_ft_ok[OF m1 firmeD(1)[OF f]]] .
  have me: "entorno w2 = entorno w1" "memoria w2 = memoria w1" "cantidad_marcos w2 = cantidad_marcos w1"
    "marco w2 = marco w1" "tam_pagina w2 = tam_pagina w1"
    "paginas w2 = (paginas w1)(p := map_option (\<lambda>pg. pg\<lparr>modificado := False\<rparr>) (paginas w1 p))"
    using s by (auto simp: set_pagina_def deref_def fun_eq_iff split: option.split_asm)
  have "basica S w2"
  proof -
    have m12: "misma_forma w w2" using m1 m2 misma_forma_trans by (auto simp: mismos_ft_def)
    have "conocidos S w2" "nros_ok w2" "tam_pagina w2 = tam_bloque S"
      using forma_conocidos[OF m12] forma_nros[OF m12] basicaD[OF firmeD(2)[OF f]] m12
      by (simp_all add: misma_forma_def)
    then show ?thesis using mo pu by (simp add: basica_def mem_ok_def me publica_def)
  qed
  moreover have "transparente S w w2"
    unfolding transparente_def
  proof (intro impI conjI)
    assume sa: "sano S (entorno w2)"
    then show "sano S (entorno w)" using pu me by (simp add: publica_def)
    assume c: "coherente S w"
    then have c1: "coherente S w1" "misma_vista S w w1" "publicado S i w1"
      using pu sa me by (simp_all add: publica_def)
    have t: "tiene w2 j a n = tiene w1 j a n" for j a n by (rule tiene_misma_forma[OF mf2])
    have co: "contenido j w2 = contenido j w1" for j by (simp add: contenido_def me)
    have "vista S w2 = vista S w1" by (simp add: vista_def t co me fun_eq_iff cong: option.case_cong)
    then show "misma_vista S w w2" using c1(2) by (simp add: misma_vista_def)
    show "coherente S w2"
      unfolding coherente_def t co me
    proof (intro allI impI)
      fix j a n assume h: "j < cantidad_marcos w1" "tiene w1 j a n" "\<not> sucio w2 j"
      show "pag S (entorno w1) a n = Some (contenido j w1)"
      proof (cases "j = i")
        case True
        then show ?thesis using c1(3) h(2) by (simp add: publicado_def)
      next
        case False
        obtain s' q where q: "ocupa w1 j s' q" using h(1,2) by (auto simp: tiene_ocupa)
        then have "q \<noteq> p" using oc1 False by (auto simp: ocupa_def)
        then have "\<not> sucio w1 j" using h(3) q by (simp add: sucio_def me ocupa_def)
        then show ?thesis using c1(1) h(1,2) by (simp add: coherente_def)
      qed
    qed
  qed
  ultimately show ?thesis using mo by (simp add: fiel_def firme_def)
qed

context servidor_paginas
begin

lemma flush_pagina_fiel:
  assumes f: "firme S w" and ft: "file_tags w r = Some ft" and p: "p \<in> set (tabla_paginas ft)"
  shows "okE (fiel S w) (flush_pagina ext (identificador ft) p w)"
proof -
  note fo = firmeD(3)[OF f]
  obtain pg where pg: "paginas w p = Some pg" using paginas_de_tabla[OF fo ft p] by blast
  show ?thesis
  proof (cases "modificado pg \<and> presencia pg")
    case True
    then have pr: "presente w p" using pg by (simp add: presente_def)
    have en: "en_tabla w r p" using ft p by (auto simp: en_tabla_def)
    obtain i where oc: "ocupa w i r p" using marco_de_presente[OF fo en pr] by blast
    then have i: "nro_marco pg = int i" "i < length (marco w)"
      using pg tamanios_okD(2)[OF fo] by (simp_all add: ocupa_def)
    have "okE (\<lambda>w1. okE (fiel S w) (set_pagina p (\<lambda>pg. pg\<lparr>modificado := False\<rparr>) w1))
        (notificar_cambios ext p (identificador ft) (p_marco i w) w)"
      by (rule okE_mono[OF notificar_publica[OF firmeD(2)[OF f] oc ft]])
        (rule okE_I, rule limpiar_publicada[OF f oc])
    then show ?thesis
      using True i unfolding flush_pagina_def deref_Some[of "paginas w", OF pg] bindE.simps(2) by simp
  next
    case False
    then show ?thesis using fiel_refl[OF f] by (auto simp: flush_pagina_def pg)
  qed
qed

lemma flush_paginas_fiel:
  "firme S w \<Longrightarrow> file_tags w r = Some ft \<Longrightarrow> set ps \<subseteq> set (tabla_paginas ft) \<Longrightarrow>
   okE (fiel S w) (foldE (flush_pagina ext (identificador ft)) ps w)"
proof (induction ps arbitrary: w)
  case (Cons p ps)
  show ?case
    unfolding foldE.simps okE_bindE
  proof (rule okE_I)
    fix w1 assume w1: "flush_pagina ext (identificador ft) p w = Inr w1"
    have p: "p \<in> set (tabla_paginas ft)" using Cons.prems(3) by simp
    have f1: "fiel S w w1" by (rule okE_D[OF flush_pagina_fiel[OF Cons.prems(1,2) p] w1])
    have "file_tags w1 r = Some ft"
      using solo_flush_campos(1)[OF conjunct1[OF okE_D[OF flush_pagina_ok w1]]] Cons.prems(2) by simp
    then have "okE (fiel S w1) (foldE (flush_pagina ext (identificador ft)) ps w1)"
      using Cons.IH[OF fielD[OF f1]] Cons.prems(3) by simp
    then show "okE (fiel S w) (foldE (flush_pagina ext (identificador ft)) ps w1)"
      by (rule okE_mono) (rule fiel_trans[OF f1])
  qed
qed (simp add: fiel_refl)

lemma FLUSH_fiel:
  assumes f: "firme S w" and N: "ident \<in> nombres S" and d: "cadena (datos i) 0 = Inr ident"
  shows "okE (fiel S w) (interpretar_FLUSH ext i w)"
proof (rule okE_I)
  fix w' assume w': "interpretar_FLUSH ext i w = Inr w'"
  show "fiel S w w'"
  proof (cases "file_tag_pages w = []")
    case False
    then obtain x where x: "buscar_file_tag ident (file_tag_pages w) w = Inr x"
      using w' by (cases "buscar_file_tag ident (file_tag_pages w) w") (simp_all add: interpretar_FLUSH_def d)
    show ?thesis
    proof (cases x)
      case (Some r)
      then obtain ft where ft: "file_tags w r = Some ft" "string_equals_ignore_case (identificador ft) ident"
        using buscar_Some[of ident _ w r] x by blast
      have "identificador ft = ident"
        using sin_caso[OF _ N ft(2)] basicaD(5)[OF firmeD(2)[OF f]] ft(1) by (auto simp: conocidos_def)
      then have "foldE (flush_pagina ext (identificador ft)) (tabla_paginas ft) w = Inr w'"
        using w' False x Some ft(1) by (simp add: interpretar_FLUSH_def d)
      then show ?thesis using okE_D[OF flush_paginas_fiel[OF f ft(1) subset_refl]] by blast
    qed (use w' False x fiel_refl[OF f] in \<open>simp add: interpretar_FLUSH_def d\<close>)
  qed (use w' fiel_refl[OF f] in \<open>simp add: interpretar_FLUSH_def\<close>)
qed

end

section \<open>The instructions\<close>

lemma log_OK [simp]: "log_ejecucion ext (resultado_val OK) w = Inr w"
proof -
  have "rta_of (resultado_val OK) = Some OP_EXITOSA" by code_simp
  then show ?thesis by (simp add: log_ejecucion_def)
qed

text \<open>The bytes of a WRITE that are written: to the end of the first page, then whole pages.\<close>

lemma take_menos_drop: "take (length xs - length (drop k xs)) xs = take k xs"
  by (cases "k \<le> length xs") simp_all

definition escritos :: "int \<Rightarrow> int \<Rightarrow> byte list \<Rightarrow> byte list" where
  "escritos tam dir dato =
     (if int (length dato) \<le> tam - dir mod tam then dato
      else take (nat (tam - dir mod tam) + (nat (techo (int (length dato)) tam) - 1) * nat tam) dato)"

context servidor_paginas
begin

lemma WRITE_vista:
  assumes f: "firme S w" and N: "ident \<in> nombres S" and d: "datos i = [ident, a, dato]" and a: "0 \<le> atoi a"
  shows "okE (\<lambda>w'. firme S w' \<and>
      (sano S (entorno w') \<longrightarrow>
         escribe S ident (atoi a) (escritos (tam_bloque S) (atoi a) (map char_byte dato)) w w'))
    (interpretar_WRITE v ext i w)"
proof (rule okE_I)
  fix w' assume w': "interpretar_WRITE v ext i w = Inr w'"
  let ?T = "tam_bloque S" and ?bs = "map char_byte dato"
  have T: "0 < ?T" "tam_pagina w = ?T"
    using tamanios_okD(1)[OF firmeD(3)[OF f]] basicaD(3)[OF firmeD(2)[OF f]] by simp_all
  have c: "cadena (datos i) 0 = Inr ident" "cadena (datos i) (Suc 0) = Inr a" "cadena (datos i) 2 = Inr dato"
    by (simp_all add: cadena_def d list_get_def numeral_2_eq_2)
  have nro: "c_div (atoi a) ?T = atoi a div ?T" using a T(1) by (simp add: c_div_pos)
  obtain p w1 where p: "pagina_en_Tabla v ext ident (atoi a div ?T) w = Inr (p, w1)"
    using w' T by (auto simp: interpretar_WRITE_def c nro bindE_Inr_iff)
  have h: "fiel S w w1" "\<And>q. p = Some q \<Longrightarrow> de_pagina w1 ident (atoi a div ?T) q"
    using okE_D[OF pagina_en_Tabla_fiel[OF f N] p] by simp_all
  show "firme S w' \<and> (sano S (entorno w') \<longrightarrow> escribe S ident (atoi a) (escritos ?T (atoi a) ?bs) w w')"
  proof (cases p)
    case None
    then have "w' = notif_query_error ext ERR_FUERA_LIMITE w1"
      using w' p T by (simp add: interpretar_WRITE_def c nro log_ejecucion_def)
    then show ?thesis
      using aviso fielD[OF h(1)] mismos_ft_ok[of w1 w'] forma_nros[of w1 w'] forma_conocidos[of w1 w' S]
      by (simp add: firme_def basica_def notif_query_error_def mismos_ft_def misma_forma_def mem_ok_def)
  next
    case (Some q)
    obtain queda where e: "escribir_pagina v ext q ident (atoi a) ?bs w1 = Inr (queda, w')"
      using w' p T Some by (auto simp: interpretar_WRITE_def c nro bindE_Inr_iff)
    obtain bs where bs: "?bs = bs @ queda" "escribe S ident (atoi a) bs w1 w'"
      using okE_D[OF escribir_pagina_vista[OF fielD[OF h(1)] N h(2)[OF Some]] e] by auto
    obtain pg where pg: "paginas w1 q = Some pg" "nro_pagina pg = atoi a div ?T"
      using h(2)[OF Some] by (auto simp: de_pagina_def)
    have t1: "tam_pagina w1 = ?T" by (rule basicaD(3)[OF firmeD(2)[OF fielD[OF h(1)]]])
    have m: "atoi a - ?T * (atoi a div ?T) = atoi a mod ?T" by (simp add: minus_mult_div_eq_mod)
    have q: "queda = drop (nat (?T - atoi a mod ?T) + (nat (techo (int (length ?bs)) ?T) - 1) * nat ?T) ?bs"
      using okE_D[OF escribir_pagina_queda[OF pg(1)] e, of "atoi a mod ?T"] T(1) by (simp add: t1 pg(2) m)
    have "bs = escritos ?T (atoi a) ?bs"
    proof (cases "int (length ?bs) \<le> ?T - atoi a mod ?T")
      case True
      then have "queda = []" unfolding q by simp
      then show ?thesis using True bs(1) by (simp add: escritos_def)
    next
      case False
      have "bs = take (length ?bs - length queda) ?bs" unfolding bs(1) by simp
      also have "\<dots> = take (nat (?T - atoi a mod ?T) + (nat (techo (int (length ?bs)) ?T) - 1) * nat ?T) ?bs"
        unfolding q by (rule take_menos_drop)
      finally show ?thesis using False by (simp add: escritos_def)
    qed
    then show ?thesis using fiel_antes_escribe[OF h(1) bs(2)] bs(2) by (simp add: escribe_def)
  qed
qed

lemma READ_vista:
  assumes f: "firme S w" and N: "ident \<in> nombres S" and d: "datos i = [ident, a, tam]" and a: "0 \<le> atoi a"
  shows "okE (\<lambda>w'. firme S w' \<and>
      (sano S (entorno w') \<longrightarrow> fiel S w w' \<and>
         (\<exists>bs w1. int (length bs) = atoi tam \<and> lee S ident (atoi a) bs w w1 \<and>
            master_rta ext (LECTURA_MASTER, [cstr ident, bs @ [0]]) (entorno w1) = (Some OK, entorno w'))))
    (interpretar_READ v ext i w)"
proof (rule okE_I)
  fix w' assume w': "interpretar_READ v ext i w = Inr w'"
  let ?T = "tam_bloque S"
  have T: "0 < ?T" "tam_pagina w = ?T"
    using tamanios_okD(1)[OF firmeD(3)[OF f]] basicaD(3)[OF firmeD(2)[OF f]] by simp_all
  have c: "cadena (datos i) 0 = Inr ident" "cadena (datos i) (Suc 0) = Inr a" "cadena (datos i) 2 = Inr tam"
    by (simp_all add: cadena_def d list_get_def numeral_2_eq_2)
  have nro: "c_div (atoi a) ?T = atoi a div ?T" using a T(1) by (simp add: c_div_pos)
  obtain p w1 where p: "pagina_en_Tabla v ext ident (atoi a div ?T) w = Inr (p, w1)"
    using w' T by (auto simp: interpretar_READ_def c nro bindE_Inr_iff)
  have h: "fiel S w w1" "\<And>q. p = Some q \<Longrightarrow> de_pagina w1 ident (atoi a div ?T) q"
    using okE_D[OF pagina_en_Tabla_fiel[OF f N] p] by simp_all
  show "firme S w' \<and> (sano S (entorno w') \<longrightarrow> fiel S w w' \<and>
         (\<exists>bs w1. int (length bs) = atoi tam \<and> lee S ident (atoi a) bs w w1 \<and>
            master_rta ext (LECTURA_MASTER, [cstr ident, bs @ [0]]) (entorno w1) = (Some OK, entorno w')))"
  proof (cases p)
    case None
    then have "w' = notif_query_error ext ERR_FUERA_LIMITE w1"
      using w' p T by (simp add: interpretar_READ_def c nro log_ejecucion_def)
    then show ?thesis
      using aviso fielD[OF h(1)] mismos_ft_ok[of w1 w'] forma_nros[of w1 w'] forma_conocidos[of w1 w' S]
      by (simp add: firme_def basica_def notif_query_error_def mismos_ft_def misma_forma_def mem_ok_def)
  next
    case (Some q)
    then have e: "leer_pagina v ext q ident (atoi a) (atoi tam) w1 = Inr w'"
      using w' p T by (auto simp: interpretar_READ_def c nro bindE_Inr_iff)
    from okE_D[OF leer_pagina_vista[OF fielD[OF h(1)] N h(2)[OF Some]] e]
    obtain bs w2 where l: "fiel S w1 w'" "int (length bs) = atoi tam" "lee S ident (atoi a) bs w1 w2"
      "master_rta ext (LECTURA_MASTER, [cstr ident, bs @ [0]]) (entorno w2) = (Some OK, entorno w')" by blast
    have "fiel S w w'" by (rule fiel_trans[OF h(1) l(1)])
    then show ?thesis using l(2,4) fiel_antes_lee[OF N h(1) l(3)] fielD by blast
  qed
qed

text \<open>After leaving on the master's request the storage has what the worker reads, of every File:Tag.\<close>

lemma desalojar_fiel:
  assumes f: "firme S w"
  shows "okE (fiel S w) (desalojar ext w)"
proof -
  let ?f = "\<lambda>i w. bindE (list_get (file_tag_pages w) (int i)) (\<lambda>r. bindE (deref (file_tags w) r) (\<lambda>ft.
      interpretar_FLUSH ext \<lparr>copi = FLUSH, i_identificador = ''FLUSH'', datos = [identificador ft]\<rparr> w))"
  have "okE (fiel S w1) (foldE ?f is w1)" if "firme S w1" for w1 "is"
    using that
  proof (induction "is" arbitrary: w1)
    case (Cons i "is")
    have "okE (fiel S w1) (?f i w1)"
    proof (rule okE_I)
      fix w2 assume "?f i w1 = Inr w2"
      then obtain r ft where ft: "file_tags w1 r = Some ft"
        "interpretar_FLUSH ext \<lparr>copi = FLUSH, i_identificador = ''FLUSH'', datos = [identificador ft]\<rparr> w1 = Inr w2"
        by (auto simp: bindE_Inr_iff deref_def split: option.split_asm)
      then have "identificador ft \<in> nombres S"
        using basicaD(5)[OF firmeD(2)[OF Cons.prems]] by (auto simp: conocidos_def)
      then show "fiel S w1 w2" using okE_D[OF FLUSH_fiel[OF Cons.prems] ft(2)] by (simp add: cadena_def list_get_def)
    qed
    then show ?case
      unfolding foldE.simps okE_bindE[of _ "?f i w1"]
      by (rule okE_mono) (rule okE_mono[OF Cons.IH], auto intro: fiel_trans fielD)
  qed (simp add: fiel_refl)
  then show ?thesis using f by (simp add: desalojar_def)
qed

lemma desalojar_publica:
  assumes f: "firme S w" and d: "desalojar ext w = Inr w'" and s: "sano S (entorno w')" and c: "coherente S w"
    and N: "ident \<in> nombres S"
  shows "pag S (entorno w') ident = vista S w ident"
proof -
  have w': "fiel S w w'" by (rule okE_D[OF desalojar_fiel[OF f] d])
  note fo = firmeD(3)[OF fielD[OF w']]
  have t: "coherente S w'" "misma_vista S w w'" using w' s c by (simp_all add: fiel_def transparente_def)
  have "tablas_ok w" by (rule forma_okD(2)[OF firmeD(3)[OF f]])
  then have l: "todo_limpio w' (file_tag_pages w')"
    using okE_D[OF desalojar_ok d] by (auto simp: solo_flush_campos)
  have "\<not> sucio w' i" if i: "i < cantidad_marcos w'" "tiene w' i ident n" for i n
  proof -
    obtain r p ft pg where h: "ocupa w' i r p" "file_tags w' r = Some ft" "paginas w' p = Some pg"
      using i by (auto simp: tiene_ocupa)
    then have "p \<in> set (tabla_paginas ft)" "r \<in> set (file_tag_pages w')"
      using ocupa_tabla[OF fo h(1)] refs_okD(1)[OF fo h(2)] by (auto simp: en_tabla_def)
    then have "limpia w' p" using l h(2) by (auto simp: todo_limpio_def)
    then show ?thesis using h by (auto simp: limpia_def sucio_def ocupa_def)
  qed
  then have "vista S w' ident n = pag S (entorno w') ident n" for n by (rule vista_sin_sucios[OF fo t(1)])
  then show ?thesis using t(2) N by (simp add: misma_vista_def fun_eq_iff)
qed

end

end
