(* ===== verification/Worker_Guion.thy ===== *)
theory Worker_Guion
  imports Worker_Vista
begin

text \<open>
  A script of WRITE, READ, FLUSH and END against a reference in which a File:Tag is only an
  array of bytes and WRITE an update of it: whatever the memory, the replacement and the
  storage do, and wherever the script stops, what the File:Tags read as is what the reference
  makes of the instructions run, until an error is reported.
\<close>

section \<open>The reference\<close>

type_synonym lectura_ref = "string \<Rightarrow> int \<Rightarrow> byte option"

definition ref_instr :: "int \<Rightarrow> t_instrucion \<Rightarrow> lectura_ref \<Rightarrow> lectura_ref" where
  "ref_instr tam i B =
     (case (copi i, datos i) of
        (WRITE, ident # a # dato # _) \<Rightarrow>
          (let bs = escritos tam (atoi a) (map char_byte dato)
           in (\<lambda>b x. if b = ident \<and> atoi a \<le> x \<and> x < atoi a + int (length bs)
                     then Some (bs ! nat (x - atoi a)) else B b x))
      | _ \<Rightarrow> B)"

definition ref_guion :: "int \<Rightarrow> t_instrucion list \<Rightarrow> lectura_ref \<Rightarrow> lectura_ref" where
  "ref_guion tam is B = fold (ref_instr tam) is B"

text \<open>The instructions that only act on pages, with names in use and addresses that are not negative.\<close>

definition de_paginas :: "string set \<Rightarrow> t_instrucion \<Rightarrow> bool" where
  "de_paginas N i \<longleftrightarrow>
     (case copi i of
        WRITE \<Rightarrow> (case datos i of [ident, a, d] \<Rightarrow> ident \<in> N \<and> 0 \<le> atoi a | _ \<Rightarrow> False)
      | READ \<Rightarrow> (case datos i of [ident, a, d] \<Rightarrow> ident \<in> N \<and> 0 \<le> atoi a | _ \<Rightarrow> False)
      | FLUSH \<Rightarrow> (case datos i of [ident] \<Rightarrow> ident \<in> N | _ \<Rightarrow> False)
      | END \<Rightarrow> True
      | _ \<Rightarrow> False)"

text \<open>The step does to the bytes what \<open>g\<close> says.\<close>

definition sigue_ref :: "'e almacen_visto \<Rightarrow> (lectura_ref \<Rightarrow> lectura_ref) \<Rightarrow> 'e worker \<Rightarrow> 'e worker \<Rightarrow> bool" where
  "sigue_ref S g w w' \<longleftrightarrow>
     firme S w' \<and>
     (sano S (entorno w') \<longrightarrow> sano S (entorno w) \<and>
       (coherente S w \<longrightarrow> coherente S w' \<and>
         (\<forall>b \<in> nombres S. \<forall>x \<ge> 0. byte_en S w' b x = g (byte_en S w) b x)))"

definition puntual :: "(lectura_ref \<Rightarrow> lectura_ref) \<Rightarrow> bool" where
  "puntual g \<longleftrightarrow> (\<forall>B B' b x. B b x = B' b x \<longrightarrow> g B b x = g B' b x)"

lemma puntual_instr: "puntual (ref_instr tam i)"
  by (auto simp: puntual_def ref_instr_def Let_def split: set_instrucciones.split list.split)

lemma ref_guion_simps [simp]:
  "ref_guion tam [] = (\<lambda>B. B)"
  "ref_guion tam (i # is) = (\<lambda>B. ref_guion tam is (ref_instr tam i B))"
  by (simp_all add: ref_guion_def fun_eq_iff)

lemma puntual_guion: "puntual (ref_guion tam is)"
proof (induction "is")
  case (Cons i "is")
  then show ?case using puntual_instr[of tam i] unfolding puntual_def ref_guion_simps by blast
qed (simp add: puntual_def)

lemma sigue_ref_trans:
  assumes "sigue_ref S g w w1" and "sigue_ref S h w1 w2" and "puntual h"
  shows "sigue_ref S (\<lambda>B. h (g B)) w w2"
  using assms unfolding sigue_ref_def puntual_def by (metis (no_types, lifting))

lemma fiel_sigue: "fiel S w w' \<Longrightarrow> sigue_ref S (\<lambda>B. B) w w'"
  by (auto simp: fiel_def transparente_def sigue_ref_def misma_vista_byte)

text \<open>How a run of a script that was preempted leaves the storage.\<close>

definition entregado :: "'e almacen_visto \<Rightarrow> fin_query \<Rightarrow> 'e worker \<Rightarrow> 'e worker \<Rightarrow> bool" where
  "entregado S fin w w' \<longleftrightarrow>
     (fin = Desalojada \<longrightarrow> sano S (entorno w') \<longrightarrow> coherente S w \<longrightarrow>
       (\<forall>b \<in> nombres S. pag S (entorno w') b = vista S w' b))"

section \<open>Each instruction\<close>

locale servidor_worker = servidor_paginas ext S
  for ext :: "'e externos" and S :: "'e almacen_visto" +
  assumes pregunta: "consultar_interrupcion ext n e = (r, e') \<Longrightarrow> leal S e e'"
begin

lemma notif_fiel:
  assumes "firme S w"
  shows "fiel S w (notif_query_error ext r w)"
proof -
  let ?w = "notif_query_error ext r w"
  have m: "mismos_ft w ?w" by (simp add: notif_query_error_def mismos_ft_def misma_forma_def)
  have "\<not> sano S (entorno ?w)" "buena S (entorno ?w)"
    using aviso basicaD(2)[OF firmeD(2)[OF assms]] by (simp_all add: notif_query_error_def)
  moreover have "forma_ok ?w" "mem_ok ?w" "nros_ok ?w" "conocidos S ?w" "tam_pagina ?w = tam_pagina w"
    using mismos_ft_ok[OF m firmeD(1)[OF assms]] m basicaD[OF firmeD(2)[OF assms]]
      forma_nros[of w ?w] forma_conocidos[of w ?w S]
    by (simp_all add: mismos_ft_def mem_ok_def notif_query_error_def)
  ultimately show ?thesis
    using basicaD(3)[OF firmeD(2)[OF assms]] by (simp add: fiel_def firme_def basica_def transparente_def)
qed

lemma END_fiel:
  assumes f: "firme S w"
  shows "okE (fiel S w) (interpretar_END ext i w)"
proof (rule okE_I)
  let ?m = "(INSTRUCCION_MASTER, [int_bytes (copi_val (copi i))])"
  fix w' assume "interpretar_END ext i w = Inr w'"
  moreover have "string_equals_ignore_case ''Master'' ''Master''" by simp
  ultimately obtain res w1 where h: "en_entorno (master_rta ext ?m) w = (Some res, w1)"
    "log_ejecucion ext (resultado_val res) w1 = Inr w'"
    by (auto simp: interpretar_END_def enviar_paquete_a_def split: prod.split_asm option.split_asm)
  have q: "fiel S w w1" by (rule quieta_fiel[OF f quieta_entorno[OF h(1) lectura]])
  from h(2) have "w' = w1 \<or> (\<exists>r. w' = notif_query_error ext r w1)"
    by (auto simp: log_ejecucion_def split: option.split_asm if_split_asm)
  then show "fiel S w w'" using q notif_fiel[OF fielD[OF q]] fiel_trans by blast
qed

lemma instr_sigue:
  assumes f: "firme S w" and i: "de_paginas (nombres S) i"
  shows "okE (sigue_ref S (ref_instr (tam_bloque S) i) w) (ejecutar_instruccion v ext i w)"
proof (cases "copi i")
  case WRITE
  with i obtain ident a d where d: "datos i = [ident, a, d]" "ident \<in> nombres S" "0 \<le> atoi a"
    by (auto simp: de_paginas_def split: list.split_asm)
  show ?thesis
    using WRITE_vista[OF f d(2,1,3), of v] WRITE d(1)
    by (auto simp: ejecutar_instruccion_def sigue_ref_def escribe_def ref_instr_def Let_def elim!: okE_mono)
next
  case READ
  with i obtain ident a n where d: "datos i = [ident, a, n]" "ident \<in> nombres S" "0 \<le> atoi a"
    by (auto simp: de_paginas_def split: list.split_asm)
  have g: "ref_instr (tam_bloque S) i = (\<lambda>B. B)" using READ by (simp add: ref_instr_def fun_eq_iff)
  have "sigue_ref S (\<lambda>B. B) w w'" if "firme S w'" "sano S (entorno w') \<longrightarrow> fiel S w w'" for w'
    using that fiel_sigue unfolding sigue_ref_def by blast
  then have "okE (sigue_ref S (\<lambda>B. B) w) (interpretar_READ v ext i w)"
    by (intro okE_mono[OF READ_vista[OF f d(2,1,3), of v]]) blast
  then show ?thesis unfolding g using READ by (simp add: ejecutar_instruccion_def)
next
  case FLUSH
  with i obtain ident where d: "datos i = [ident]" "ident \<in> nombres S"
    by (auto simp: de_paginas_def split: list.split_asm)
  have g: "ref_instr (tam_bloque S) i = (\<lambda>B. B)" using FLUSH by (simp add: ref_instr_def fun_eq_iff)
  show ?thesis
    unfolding g using FLUSH_fiel[OF f d(2), of i] FLUSH d(1)
    by (auto simp: ejecutar_instruccion_def cadena_def elim!: okE_mono intro: fiel_sigue)
next
  case END
  have g: "ref_instr (tam_bloque S) i = (\<lambda>B. B)" using END by (simp add: ref_instr_def fun_eq_iff)
  show ?thesis
    unfolding g using END_fiel[OF f, of i] END
    by (auto simp: ejecutar_instruccion_def elim!: okE_mono intro: fiel_sigue)
qed (use i in \<open>simp_all add: de_paginas_def\<close>)

lemma desalojar_entrega:
  assumes "firme S w" and "desalojar ext w = Inr w'"
  shows "entregado S fin w w'"
  unfolding entregado_def
proof (intro impI ballI)
  fix b assume h: "sano S (entorno w')" "coherente S w" "b \<in> nombres S"
  have "fiel S w w'" by (rule okE_D[OF desalojar_fiel[OF assms(1)] assms(2)])
  then have "vista S w' b = vista S w b" using h by (simp add: fiel_def transparente_def misma_vista_def)
  then show "pag S (entorno w') b = vista S w' b" using desalojar_publica[OF assms h] by simp
qed

lemma entregado_antes:
  assumes "sigue_ref S g w w1" and "sigue_ref S h w1 w2" and "entregado S fin w1 w2"
  shows "entregado S fin w w2"
  using assms unfolding entregado_def sigue_ref_def by blast

lemma guion_sigue:
  assumes "firme S w" and "list_all (de_paginas (nombres S)) is"
  shows "okE (\<lambda>(fin, pc', w'). pc \<le> pc' \<and>
      sigue_ref S (ref_guion (tam_bloque S) (take (nat (pc' - pc)) is)) w w' \<and> entregado S fin w w')
    (ejecutar_desde v ext is pc w)"
  using assms
proof (induction "is" arbitrary: pc w)
  case Nil
  then show ?case using fiel_sigue[OF fiel_refl] by (simp add: entregado_def)
next
  case (Cons i "is")
  let ?T = "tam_bloque S"
  show ?case
  proof (rule okE_I, clarify)
    fix fin pc' w' assume r: "ejecutar_desde v ext (i # is) pc w = Inr (fin, pc', w')"
    then obtain w1 where w1: "ejecutar_instruccion v ext i w = Inr w1" by (auto simp: bindE_Inr_iff)
    have s1: "sigue_ref S (ref_instr ?T i) w w1"
      using okE_D[OF instr_sigue[OF Cons.prems(1)] w1] Cons.prems(2) by simp
    show "pc \<le> pc' \<and> sigue_ref S (ref_guion ?T (take (nat (pc' - pc)) (i # is))) w w' \<and> entregado S fin w w'"
    proof (cases "copi i = END")
      case True
      then have e: "fin = Terminada" "pc' = pc" "w' = w1" using r w1 by simp_all
      have "ref_instr ?T i = (\<lambda>B. B)" using True by (simp add: ref_instr_def fun_eq_iff)
      then show ?thesis using s1 by (simp add: e entregado_def)
    next
      case False
      obtain res w2 where c: "en_entorno (consultar_interrupcion ext (word_of_int (pc + 1))) w1 = (Some res, w2)"
        using r w1 False by (auto split: prod.split_asm option.split_asm)
      have f2: "fiel S w1 w2"
        by (rule quieta_fiel[OF _ quieta_entorno[OF c pregunta]]) (use s1 in \<open>simp add: sigue_ref_def\<close>)
      have s2: "sigue_ref S (ref_instr ?T i) w w2"
        by (rule sigue_ref_trans[OF s1 fiel_sigue[OF f2]]) (simp add: puntual_def)
      have firme2: "firme S w2" by (rule fielD[OF f2])
      show ?thesis
      proof (cases res)
        case True
        then obtain d: "desalojar ext w2 = Inr w'" and e: "fin = Desalojada" "pc' = pc + 1"
          using r w1 False c by (auto simp: bindE_Inr_iff)
        have s3: "sigue_ref S (\<lambda>B. B) w2 w'" by (rule fiel_sigue[OF okE_D[OF desalojar_fiel[OF firme2] d]])
        have "sigue_ref S (ref_instr ?T i) w w'" by (rule sigue_ref_trans[OF s2 s3]) (simp add: puntual_def)
        then show ?thesis using entregado_antes[OF s2 s3 desalojar_entrega[OF firme2 d]] by (simp add: e)
      next
        case False
        then have "ejecutar_desde v ext is (pc + 1) w2 = Inr (fin, pc', w')"
          using r w1 c \<open>copi i \<noteq> END\<close> by simp
        from okE_D[OF Cons.IH[OF firme2] this] Cons.prems(2)
        have h: "pc + 1 \<le> pc'" "sigue_ref S (ref_guion ?T (take (nat (pc' - (pc + 1))) is)) w2 w'" "entregado S fin w2 w'"
          by simp_all
        have n: "take (nat (pc' - pc)) (i # is) = i # take (nat (pc' - (pc + 1))) is"
        proof -
          have "nat (pc' - pc) = Suc (nat (pc' - (pc + 1)))" using h(1) by simp
          then show ?thesis by simp
        qed
        have "sigue_ref S (\<lambda>B. ref_guion ?T (take (nat (pc' - (pc + 1))) is) (ref_instr ?T i B)) w w'"
          by (rule sigue_ref_trans[OF s2 h(2) puntual_guion])
        then show ?thesis using h(1) entregado_antes[OF s2 h(2,3)] unfolding n by simp
      qed
    qed
  qed
qed

end

end
