(* ===== verification/System.thy ===== *)
theory System
  imports Storage_System Storage_Frame Worker_Guion
begin

text \<open>
  The worker and the storage together: the storage's answers, which are a parameter of the
  worker's model, are here the ones \<open>storage_worker_handler\<close> gives. The environment holds the
  storage's state, whether the worker has reported an error to the master, and the rest of the
  world, whose behaviour is still a parameter \<open>base\<close>. A storage that faults closes its socket,
  and one that does not answer leaves the worker in \<open>recv\<close>; both are no answer. Packets arrive
  as they were sent, which is the round trip of \<open>Paquetes\<close>.
\<close>

record 'x red =
  almacen :: storage
  avisado :: bool
  resto :: 'x

section \<open>The exchanges\<close>

definition al_storage :: "(byte list \<Rightarrow> string) \<Rightarrow> mensaje \<Rightarrow> 'x red \<Rightarrow> envio option \<times> 'x red" where
  "al_storage md5 m e =
     (case storage_worker_handler md5 (fst m) (snd m) True (almacen e) of
        Inl _ \<Rightarrow> (None, e)
      | Inr (r, _, s) \<Rightarrow> (r, e\<lparr>almacen := s\<rparr>))"

definition paquete_de :: "envio option \<Rightarrow> mensaje option" where
  "paquete_de r = (case r of Some (Paquete c items) \<Rightarrow> Some (c, items) | _ \<Rightarrow> None)"

definition entero_de :: "envio option \<Rightarrow> int32 option" where
  "entero_de r = (case r of Some (Crudo b) \<Rightarrow> Some (bytes_int b) | _ \<Rightarrow> None)"

definition en_resto :: "('x \<Rightarrow> 'a \<times> 'x) \<Rightarrow> 'x red \<Rightarrow> 'a \<times> 'x red" where
  "en_resto f e = (case f (resto e) of (r, x) \<Rightarrow> (r, e\<lparr>resto := x\<rparr>))"

definition red_ext :: "(byte list \<Rightarrow> string) \<Rightarrow> 'x externos \<Rightarrow> 'x red externos" where
  "red_ext md5 base = \<lparr>string_split = string_split base,
     storage_paquete = (\<lambda>m e. apfst paquete_de (al_storage md5 m e)),
     storage_rta = (\<lambda>m e. apfst (\<lambda>r. Option.bind (entero_de r) rta_of) (al_storage md5 m e)),
     master_rta = (\<lambda>m. en_resto (master_rta base m)),
     master_envio = (\<lambda>m e. e\<lparr>resto := master_envio base m (resto e),
                             avisado := avisado e \<or> fst m = ERROR_AT_EXEC\<rparr>),
     gettime = en_resto (gettime base),
     script = script base,
     recibir_query = en_resto (recibir_query base),
     consultar_interrupcion = (\<lambda>pc. en_resto (consultar_interrupcion base pc)),
     storage_handshake = (\<lambda>m e. apfst entero_de (al_storage md5 m e)),
     master_handshake = (\<lambda>m e. e\<lparr>resto := master_handshake base m (resto e)\<rparr>)\<rparr>"

section \<open>The storage as the worker sees it\<close>

definition partes :: "'x externos \<Rightarrow> string \<Rightarrow> ft_key option" where
  "partes base ident = (case string_split base ident '':'' of f # t # _ \<Rightarrow> Some (f, t) | _ \<Rightarrow> None)"

text \<open>The page \<open>n\<close> of a File:Tag: the block of that index.\<close>

definition pagina_de :: "afile \<Rightarrow> int \<Rightarrow> byte list option" where
  "pagina_de a n = (if 0 \<le> n \<and> n < int (length (a_blocks a)) then Some (a_blocks a ! nat n) else None)"

definition pagina_storage :: "storage \<Rightarrow> ft_key \<Rightarrow> int \<Rightarrow> byte list option" where
  "pagina_storage s k n = Option.bind (abs_fs s k) (\<lambda>a. pagina_de a n)"

definition tamanios_int32 :: "storage \<Rightarrow> bool" where
  "tamanios_int32 s \<longleftrightarrow> (\<forall>k a. abs_fs s k = Some a \<longrightarrow> 0 \<le> a_tamanio a \<and> a_tamanio a < 2 ^ 31)"

definition storage_bueno :: "int \<Rightarrow> storage \<Rightarrow> bool" where
  "storage_bueno tam s \<longleftrightarrow>
     fs_wf s \<and> alloc_safe s \<and> BLOCK_SIZE s = tam \<and> int (length (bitmap s)) = num_blocks s \<and> tamanios_int32 s"

text \<open>
  The identifiers in use: a file and a tag joined by a colon, in lower case, since the worker
  compares them ignoring it and the storage does not.
\<close>

definition nombres_de :: "'x externos \<Rightarrow> string set" where
  "nombres_de base =
     {ident. \<exists>f t. string_split base ident '':'' = [f, t] \<and> ident = f @ '':'' @ t \<and>
        no_nul f \<and> no_nul t \<and> map to_lower ident = ident}"

definition red_visto :: "'x externos \<Rightarrow> int \<Rightarrow> 'x red almacen_visto" where
  "red_visto base tam = \<lparr>
     pag = (\<lambda>e ident n. Option.bind (partes base ident) (\<lambda>k. pagina_storage (almacen e) k n)),
     buena = (\<lambda>e. storage_bueno tam (almacen e)),
     sano = (\<lambda>e. \<not> avisado e),
     nombres = nombres_de base,
     tam_bloque = tam\<rparr>"

lemma red_visto_simps [simp]:
  "pag (red_visto base tam) e ident n = Option.bind (partes base ident) (\<lambda>k. pagina_storage (almacen e) k n)"
  "buena (red_visto base tam) e = storage_bueno tam (almacen e)"
  "sano (red_visto base tam) e = (\<not> avisado e)"
  "nombres (red_visto base tam) = nombres_de base"
  "tam_bloque (red_visto base tam) = tam"
  by (simp_all add: red_visto_def)

lemma storage_buenoD:
  assumes "storage_bueno tam s"
  shows "fs_wf s" "alloc_safe s" "BLOCK_SIZE s = tam" "int (length (bitmap s)) = num_blocks s" "tamanios_int32 s"
  using assms by (simp_all add: storage_bueno_def)

lemma red_ext_split [simp]: "string_split (red_ext md5 base) = string_split base"
  by (simp add: red_ext_def)

lemma nombres_deD:
  assumes "ident \<in> nombres_de base" and "agregar_file_tag (red_ext md5 base) ident = Inr items"
  obtains f t where "items = [cstr f, cstr t]" "partes base ident = Some (f, t)" "ident = f @ '':'' @ t"
    "no_nul f" "no_nul t"
proof -
  from assms(1) obtain f t where h: "string_split base ident '':'' = [f, t]" "ident = f @ '':'' @ t" "no_nul f" "no_nul t"
    by (auto simp: nombres_de_def)
  show ?thesis using that[of f t] h assms(2) by (simp add: agregar_file_tag_def partes_def)
qed

lemma partes_inj:
  assumes "a \<in> nombres_de base" and "b \<in> nombres_de base" and "partes base a = partes base b"
  shows "a = b"
  using assms by (auto simp: nombres_de_def partes_def)

section \<open>Each exchange\<close>

lemma leal_resto:
  assumes "almacen e' = almacen e" and "avisado e' = avisado e"
  shows "leal (red_visto base tam) e e'"
  using assms by (simp add: leal_def fun_eq_iff)

lemma leal_en_resto: "en_resto f e = (r, e') \<Longrightarrow> leal (red_visto base tam) e e'"
  by (rule leal_resto) (auto simp: en_resto_def split: prod.split_asm)

lemma al_storage_avisado [simp]: "al_storage md5 m e = (r, e') \<Longrightarrow> avisado e' = avisado e"
  by (auto simp: al_storage_def split: sum.split_asm prod.split_asm)

lemma al_storage_consulta:
  assumes "al_storage md5 (INFO_FILE_TAG_STORAGE, items) e = (r, e')"
  shows "e' = e"
  using assms
  by (cases "item_str items 0"; cases "item_str items 1")
    (auto simp: al_storage_def storage_worker_handler_def Let_def split: option.split_asm)

lemma al_storage_pedido:
  assumes "fs_wf (almacen e)" and "al_storage md5 (SOLICITUD_STORAGE, items) e = (r, e')"
  shows "almacen e' = almacen e"
  using assms(2) storage_read_total[OF assms(1)]
  by (auto simp: al_storage_def storage_worker_handler_def bindE_Inr_iff
      split: sum.split_asm prod.split_asm option.split_asm if_split_asm)

lemma pagina_de_length:
  assumes "fs_wf s" and "pagina_storage s k n = Some c"
  shows "int (length c) = BLOCK_SIZE s"
proof -
  obtain m where m: "metas s k = Some m" and n: "0 \<le> n" "n < int (length (blocks m))"
    and c: "c = map (block_content (physical_blocks s)) (blocks m) ! nat n"
    using assms(2)
    by (cases "metas s k")
      (auto simp: pagina_storage_def pagina_de_def abs_fs_def abs_view_def file_view_def split: if_split_asm)
  have i: "nat n < length (blocks m)" using n by simp
  note ok = fs_wfD(1)[OF assms(1)]
  have "physical_blocks s (atoi (blocks m ! nat n)) = Some c"
    using block_content_ok[OF ok m i] c i by simp
  then show ?thesis using fs_okD(9)[OF ok] fs_okD(4)[OF ok] by fastforce
qed

lemma al_storage_pagina:
  assumes wf: "fs_wf (almacen e)" and nn: "no_nul f" "no_nul t"
    and a: "al_storage md5 (SOLICITUD_STORAGE, [cstr f, cstr t] @ [int_bytes n, q]) e =
      (Some (Paquete PAGINA_WORKER (rta # contents # rest)), e')"
    and ok: "rta_of (bytes_int rta) = Some OP_EXITOSA"
  shows "pagina_storage (almacen e) (f, t) (sint n) = Some contents"
proof -
  obtain r where r: "storage_read f t (sint n) (almacen e) = Inr ((r, Some contents), almacen e')"
    "rta = int_bytes (rta_val r)"
    using a nn
    by (auto simp: al_storage_def storage_worker_handler_def numeral_2_eq_2 bindE_Inr_iff
        split: sum.split_asm prod.split_asm option.split_asm)
  have "r = OP_EXITOSA" using ok r(2) by simp
  then show ?thesis
    using r(1) storage_read_view[OF wf, of f t "sint n"]
    by (cases "abs_fs (almacen e) (f, t)")
      (auto simp: read_view_def spec_read_def pagina_storage_def pagina_de_def split: if_split_asm)
qed

lemma tamanios_int32_size:
  assumes "tamanios_int32 s" and "storage_metadata_read f t s = Some m"
  shows "0 \<le> tamanio m" "tamanio m < 2 ^ 31"
proof -
  have "abs_fs s (f, t) = Some (file_view (physical_blocks s) m)"
    using assms(2) by (simp add: abs_fs_Some metas_read)
  then have "0 \<le> a_tamanio (file_view (physical_blocks s) m) \<and> a_tamanio (file_view (physical_blocks s) m) < 2 ^ 31"
    using assms(1) unfolding tamanios_int32_def by blast
  then show "0 \<le> tamanio m" "tamanio m < 2 ^ 31" by (simp_all add: file_view_def)
qed

lemma al_storage_tamanio:
  assumes s: "tamanios_int32 (almacen e)"
    and a: "al_storage md5 (INFO_FILE_TAG_STORAGE, [cstr f, cstr t]) e = (Some (Paquete c (tam # rest)), e')"
    and nn: "no_nul f" "no_nul t"
  shows "- 1 \<le> sint (bytes_int tam)"
proof (cases "storage_metadata_read f t (almacen e)")
  case None
  then show ?thesis using a nn by (auto simp: al_storage_def storage_worker_handler_def Let_def)
next
  case (Some m)
  note t = tamanios_int32_size[OF s Some]
  have "sint (word_of_int (tamanio m) :: int32) = tamanio m"
    using t by (subst sint_sbintrunc') (simp add: signed_take_bit_int_eq_self)
  then show ?thesis
    using a nn Some t by (auto simp: al_storage_def storage_worker_handler_def Let_def)
qed

lemma storage_bueno_write:
  assumes b: "storage_bueno tam s" and buf: "int (length buf) = tam"
    and w: "storage_write f t l buf s = Inr (r, s')"
  shows "storage_bueno tam s'" and "pagina_storage s' k n =
      (if r = OP_EXITOSA \<and> k = (f, t) \<and> n = l then Some buf else pagina_storage s k n)"
proof -
  note s = storage_buenoD[OF b]
  have d: "mismo_disco s s'" using okE_D[OF disco_write w] by simp
  then have n: "BLOCK_SIZE s' = BLOCK_SIZE s" "num_blocks s' = num_blocks s" "length (bitmap s') = length (bitmap s)"
    by (simp_all add: mismo_disco_def num_blocks_def)
  have wr: "fs_wf s'" "alloc_safe s'" "(r, abs_fs s') = spec_write (BLOCK_SIZE s) (f, t) l buf (abs_fs s)"
    using write_any[OF s(1,2) _ s(4) w] buf s(3) by simp_all
  consider (same) "abs_fs s' = abs_fs s" "r \<noteq> OP_EXITOSA"
    | (upd) a where "abs_fs s (f, t) = Some a" "0 \<le> l" "l < int (length (a_blocks a))" "r = OP_EXITOSA"
        "abs_fs s' = (abs_fs s)((f, t) \<mapsto> a\<lparr>a_blocks := (a_blocks a)[nat l := buf]\<rparr>)"
    using wr(3) buf s(3) by (auto simp: spec_write_def split: option.split_asm if_split_asm)
  then have "tamanios_int32 s' \<and> pagina_storage s' k n =
      (if r = OP_EXITOSA \<and> k = (f, t) \<and> n = l then Some buf else pagina_storage s k n)"
  proof cases
    case same
    then show ?thesis using s(5) by (simp add: tamanios_int32_def pagina_storage_def)
  next
    case upd
    have "tamanios_int32 s'"
      using s(5) upd(1) unfolding tamanios_int32_def upd(5) by (auto split: if_split_asm)
    moreover have "pagina_storage s' k n =
        (if r = OP_EXITOSA \<and> k = (f, t) \<and> n = l then Some buf else pagina_storage s k n)"
      using upd by (auto simp: pagina_storage_def pagina_de_def nth_list_update nat_eq_iff)
    ultimately show ?thesis by blast
  qed
  then show "storage_bueno tam s'" "pagina_storage s' k n =
      (if r = OP_EXITOSA \<and> k = (f, t) \<and> n = l then Some buf else pagina_storage s k n)"
    using wr n s by (simp_all add: storage_bueno_def)
qed

lemma al_storage_cambios:
  assumes b: "storage_bueno tam (almacen e)" and nn: "no_nul f" "no_nul t"
    and buf: "int (length contents) = tam"
    and a: "al_storage md5 (MODIFICACIONES_STORAGE, [cstr f, cstr t] @ [int_bytes n, contents, q]) e = (r, e')"
  shows "storage_bueno tam (almacen e')" and "Option.bind (entero_de r) rta_of = Some OP_EXITOSA \<Longrightarrow>
    pagina_storage (almacen e') k l =
      (if k = (f, t) \<and> l = sint n then Some contents else pagina_storage (almacen e) k l)"
proof -
  have h: "storage_worker_handler md5 MODIFICACIONES_STORAGE [cstr f, cstr t, int_bytes n, contents, q] True s =
      bindE (storage_write f t (sint n) contents s) (\<lambda>rs. Inr (responder_rta True rs))" for s
    using nn by (simp add: storage_worker_handler_def numeral_2_eq_2 numeral_3_eq_3)
  consider (inl) "r = None" "e' = e"
    | (inr) x s' where "storage_write f t (sint n) contents (almacen e) = Inr (x, s')"
        "r = Some (Crudo (int_bytes (rta_val x)))" "e' = e\<lparr>almacen := s'\<rparr>"
    using a by (cases "storage_write f t (sint n) contents (almacen e)")
      (auto simp: al_storage_def h responder_rta_def)
  then have "storage_bueno tam (almacen e') \<and> (Option.bind (entero_de r) rta_of = Some OP_EXITOSA \<longrightarrow>
    pagina_storage (almacen e') k l =
      (if k = (f, t) \<and> l = sint n then Some contents else pagina_storage (almacen e) k l))"
  proof cases
    case inl
    then show ?thesis using b by (simp add: entero_de_def)
  next
    case inr
    then show ?thesis
      using storage_bueno_write[OF b buf inr(1)] by (simp add: entero_de_def)
  qed
  then show "storage_bueno tam (almacen e')" "Option.bind (entero_de r) rta_of = Some OP_EXITOSA \<Longrightarrow>
    pagina_storage (almacen e') k l =
      (if k = (f, t) \<and> l = sint n then Some contents else pagina_storage (almacen e) k l)" by blast+
qed

lemma nombres_de_minuscula: "ident \<in> nombres_de base \<Longrightarrow> map to_lower ident = ident"
  unfolding nombres_de_def by blast

section \<open>The storage keeps the contract of the worker's memory\<close>

lemma paquete_de_Some: "paquete_de r = Some (c, items) \<longleftrightarrow> r = Some (Paquete c items)"
  by (auto simp: paquete_de_def split: option.split envio.split)

lemma storage_paquete_red:
  "storage_paquete (red_ext md5 base) m e = (x, e') \<longleftrightarrow> (\<exists>r. al_storage md5 m e = (r, e') \<and> x = paquete_de r)"
  by (cases "al_storage md5 m e") (auto simp: red_ext_def)

lemma storage_rta_red:
  "storage_rta (red_ext md5 base) m e = (x, e') \<longleftrightarrow>
     (\<exists>r. al_storage md5 m e = (r, e') \<and> x = Option.bind (entero_de r) rta_of)"
  by (cases "al_storage md5 m e") (auto simp: red_ext_def)

interpretation red: servidor_paginas "red_ext md5 base" "red_visto base tam" for md5 base tam
proof (unfold_locales, goal_cases)
  case (1 a b)
  then have "map to_lower a = a" "map to_lower b = b" by (simp_all only: red_visto_simps nombres_de_minuscula)
  then show ?case using 1(3) unfolding string_equals_ignore_case_def by argo
next
  case (2 e t e')
  then show ?case by (intro leal_en_resto) (simp add: red_ext_def)
next
  case (3 m e res e')
  then show ?case by (intro leal_en_resto) (simp add: red_ext_def)
next
  case (4 items e rsp e')
  then obtain r where "al_storage md5 (INFO_FILE_TAG_STORAGE, items) e = (r, e')"
    unfolding storage_paquete_red by blast
  then show ?case using al_storage_consulta by (metis leal_refl)
next
  case (5 e ident items tam' rest e')
  obtain f t where ft: "items = [cstr f, cstr t]" "no_nul f" "no_nul t"
    using nombres_deD[OF 5(2)[unfolded red_visto_simps] 5(3)] by blast
  from 5(4) obtain r where "al_storage md5 (INFO_FILE_TAG_STORAGE, items) e = (r, e')"
    "paquete_de r = Some (INFO_FILE_TAG_WORKER, tam' # rest)" by (auto simp: storage_paquete_red)
  then show ?case
    using al_storage_tamanio[OF storage_buenoD(5)] 5(1) ft by (simp add: paquete_de_Some)
next
  case (6 items e rsp e')
  then obtain r where a: "al_storage md5 (SOLICITUD_STORAGE, items) e = (r, e')" by (auto simp: storage_paquete_red)
  have "almacen e' = almacen e" if "storage_bueno tam (almacen e)"
    by (rule al_storage_pedido[OF storage_buenoD(1)[OF that] a])
  then show ?case using al_storage_avisado[OF a] by (simp add: leal_def fun_eq_iff)
next
  case (7 e ident items n q rta contents rest e')
  obtain f t where ft: "items = [cstr f, cstr t]" "partes base ident = Some (f, t)" "no_nul f" "no_nul t"
    using nombres_deD[OF 7(2)[unfolded red_visto_simps] 7(3)] by blast
  from 7(4) have a: "al_storage md5 (SOLICITUD_STORAGE, [cstr f, cstr t] @ [int_bytes n, q]) e =
      (Some (Paquete PAGINA_WORKER (rta # contents # rest)), e')"
    by (auto simp: storage_paquete_red ft(1) paquete_de_Some[symmetric])
  have wf: "fs_wf (almacen e)" using 7(1) by (simp add: storage_bueno_def)
  have p: "pagina_storage (almacen e) (f, t) (sint n) = Some contents"
    by (rule al_storage_pagina[OF wf ft(3,4) a 7(5)])
  then show ?case using pagina_de_length[OF wf p] 7(1) ft(2) by (simp add: storage_bueno_def)
next
  case (8 e ident items contents n q res' e')
  obtain f t where ft: "items = [cstr f, cstr t]" "partes base ident = Some (f, t)" "no_nul f" "no_nul t"
    using nombres_deD[OF 8(2)[unfolded red_visto_simps] 8(3)] by blast
  from 8(5) obtain r where a: "al_storage md5 (MODIFICACIONES_STORAGE, [cstr f, cstr t] @ [int_bytes n, contents, q]) e = (r, e')"
    "res' = Option.bind (entero_de r) rta_of" by (auto simp: storage_rta_red ft(1))
  have b: "storage_bueno tam (almacen e)" "int (length contents) = tam" using 8(1,4) by simp_all
  note c = al_storage_cambios[OF b(1) ft(3,4) b(2) a(1)]
  have o: "partes base x = Some k \<longleftrightarrow> x = ident" if "x \<in> nombres_de base" "partes base x = Some k" "k = (f, t)" for x k
    using partes_inj[OF that(1) _] 8(2) ft(2) that(2,3) by auto
  have "pag (red_visto base tam) e' x = (if x = ident
      then (pag (red_visto base tam) e ident)(sint n \<mapsto> contents) else pag (red_visto base tam) e x)"
    if "x \<in> nombres_de base" "res' = Some OP_EXITOSA" for x
  proof (cases "partes base x")
    case None
    then show ?thesis using ft(2) by (auto simp: fun_eq_iff)
  next
    case (Some k)
    have "k = (f, t) \<longleftrightarrow> x = ident" using o[OF that(1) Some] Some ft(2) by auto
    then show ?thesis using c(2)[of k] that(2) a(2) Some ft(2) by (auto simp: fun_eq_iff)
  qed
  then show ?case using c(1) al_storage_avisado[OF a(1)] by simp
next
  case (9 items e)
  then show ?case by (simp add: red_ext_def)
qed

interpretation redw: servidor_worker "red_ext md5 base" "red_visto base tam" for md5 base tam
proof (unfold_locales, goal_cases)
  case (1 n e r e')
  then show ?case by (intro leal_en_resto) (simp add: red_ext_def)
qed

end
