(* ===== verification/Worker_Inv_Query.thy ===== *)
theory Worker_Inv_Query
  imports Worker_Query Worker_Inv_Ops
begin

text \<open>
  The invariant of the worker's memory through a query: it holds when the memory is set up,
  every instruction keeps it, and so it holds after any run the worker makes.
\<close>

section \<open>Start\<close>

text \<open>The worker when the storage has told it the page size: nothing in memory.\<close>

definition sin_memoria :: "'e worker \<Rightarrow> bool" where
  "sin_memoria w \<longleftrightarrow>
     0 < tam_pagina w \<and> 0 \<le> TAM_MEMORIA w \<and> marco w = [] \<and> file_tag_pages w = [] \<and>
     paginas w = Map.empty \<and> file_tags w = Map.empty"

lemma init_memoria_ok:
  assumes "sin_memoria w"
  shows "\<exists>w'. init_memoria w = Inr w' \<and> mem_ok w'"
proof -
  let ?n = "nat (c_div (TAM_MEMORIA w) (tam_pagina w))"
  have t: "0 < tam_pagina w" "0 \<le> TAM_MEMORIA w" using assms by (simp_all add: sin_memoria_def)
  have n: "int ?n = TAM_MEMORIA w div tam_pagina w" using t by (simp add: c_div_pos pos_imp_zdiv_nonneg_iff)
  have "TAM_MEMORIA w div tam_pagina w * tam_pagina w \<le> TAM_MEMORIA w"
    using t by (simp add: minus_mod_eq_div_mult[symmetric])
  then have tam: "int ?n * tam_pagina w \<le> int (length (replicate (nat (TAM_MEMORIA w)) (0::byte)))"
    using t by (simp only: n) simp
  have bits: "k \<le> (k + 7) div 8 * 8" for k :: nat by presburger
  have ok: "mem_ok w'"
    if "tam_pagina w' = tam_pagina w" "cantidad_marcos w' = ?n" "length (marco w') = ?n"
      "bit_map w' = replicate ((?n + 7) div 8 * 8) False"
      "memoria w' = replicate (nat (TAM_MEMORIA w)) 0" "file_tag_pages w' = []" "paginas w' = Map.empty"
      "file_tags w' = Map.empty" for w'
  proof -
    have "tamanios_ok w'" using t tam bits[of ?n] that by (simp add: tamanios_ok_def)
    moreover have "\<not> bit_map w' ! i" if "i < cantidad_marcos w'" for i
    proof -
      have "i < (?n + 7) div 8 * 8" using bits[of ?n] that \<open>cantidad_marcos w' = ?n\<close> by simp
      then show ?thesis using \<open>bit_map w' = replicate ((?n + 7) div 8 * 8) False\<close> by simp
    qed
    ultimately show ?thesis
      using that by (simp add: mem_ok_def forma_ok_def tablas_ok_def refs_ok_def marcos_tablas_ok_def
          en_tabla_def cuentas_ok_def)
  qed
  show ?thesis
    using assms t by (auto simp: init_memoria_def Let_def sin_memoria_def intro!: ok)
qed

section \<open>Instructions\<close>

lemma solo_flush_ft:
  assumes "solo_flush w w'"
  shows "mismos_ft w w'"
proof -
  obtain P e where w': "w' = w\<lparr>paginas := P, entorno := e\<rparr>" using assms unfolding solo_flush_def by blast
  have "map_option forma_pagina (P p) = map_option forma_pagina (paginas w p)" for p
    using solo_flush_pagina[OF assms, of p]
    by (cases "paginas w p") (auto simp: w' limpiar_def forma_pagina_def)
  then show ?thesis by (simp add: mismos_ft_def misma_forma_def w')
qed

lemma ft_FLUSH: "okE (mismos_ft w) (interpretar_FLUSH ext i w)"
  by (rule okE_mono[OF interpretar_FLUSH_solo]) (rule solo_flush_ft)

lemma ft_notif: "mismos_ft w (notif_query_error ext r w)"
  by (simp add: notif_query_error_def mismos_ft_def misma_forma_def)

lemma ft_log_ejecucion: "okE (mismos_ft w) (log_ejecucion ext r w)"
  unfolding log_ejecucion_def by (auto intro: ft_notif split: option.split)

lemma ft_enviar: "okE (mismos_ft w) (enviar_paquete_a ext m quien w)"
  unfolding enviar_paquete_a_def
  by (auto dest!: ft_entorno intro!: okE_mono[OF ft_log_ejecucion] elim: mismos_ft_trans
      split: prod.split option.split)

lemma ft_simple: "okE (mismos_ft w) (instruccion_simple_storage ext i w)"
  unfolding instruccion_simple_storage_def
  by (simp add: okE_pure[OF ft_enviar])

text \<open>DELETE: the frames of the File:Tag's pages are freed, and then the File:Tag.\<close>

lemma liberar_marco_ok:
  assumes ok: "mem_ok w" and ft: "file_tags w r = Some ft" and p: "p \<in> set (tabla_paginas ft)"
    and pg: "paginas w p = Some pg" "presencia pg"
  shows "\<exists>w'. bindE (bit_clean (nro_marco pg) w) (\<lambda>w.
             bindE (set_pagina p (\<lambda>pg. pg\<lparr>presencia := False\<rparr>) w) (\<lambda>w.
               set_file_tag r (\<lambda>ft. ft\<lparr>cantidad_paginas := cantidad_paginas ft - 1\<rparr>) w)) = Inr w' \<and>
           mem_ok w' \<and> (\<forall>q. presente w' q \<longleftrightarrow> presente w q \<and> q \<noteq> p) \<and>
           file_tag_pages w' = file_tag_pages w \<and>
           file_tags w' = (file_tags w)(r \<mapsto> ft\<lparr>cantidad_paginas := cantidad_paginas ft - 1\<rparr>)"
proof -
  let ?f = "\<lambda>pg. pg\<lparr>presencia := False\<rparr>"
  have fo: "forma_ok w" using ok by (simp add: mem_ok_def)
  have en: "en_tabla w r p" using ft p by (auto simp: en_tabla_def)
  have pr: "presente w p" using pg by (auto simp: presente_def)
  obtain i where oc: "ocupa w i r p" using marco_de_presente[OF fo en pr] by blast
  then have i: "i < length (bit_map w)" "nro_marco pg = int i"
    using tamanios_okD(3)[OF fo] pg(1) by (auto simp: ocupa_def)
  note d = desocupar_ok[OF fo oc en, of ?f, simplified]
  let ?w = "desocupar i p ?f w"
  have ft': "file_tags ?w r = Some ft" using ft by (simp add: desocupar_def)
  have "cuentas_ok (\<lambda>s. if s = r then 1 else 0) ?w" using d(3) ok by (simp add: mem_ok_def)
  note e = descontar_ok[OF d(1) ft' this]
  have "bindE (bit_clean (nro_marco pg) w) (\<lambda>w. bindE (set_pagina p ?f w) (\<lambda>w.
      set_file_tag r (\<lambda>ft. ft\<lparr>cantidad_paginas := cantidad_paginas ft - 1\<rparr>) w)) = Inr (descontar r ft ?w)"
    using i pg ft by (simp add: bit_clean_def set_pagina_def set_file_tag_def descontar_def desocupar_def)
  moreover have "presente (descontar r ft ?w) q \<longleftrightarrow> presente w q \<and> q \<noteq> p" for q
    using d(2) by (simp add: misma_forma_presente[OF e(1)])
  ultimately show ?thesis
    using e(2) by (auto simp: descontar_def desocupar_def)
qed

lemma liberar_marcos_ok:
  assumes "mem_ok w" and "file_tags w r = Some ft" and "set ps \<subseteq> set (tabla_paginas ft)"
  shows "okE (\<lambda>w'. mem_ok w' \<and> file_tag_pages w' = file_tag_pages w \<and>
      (\<forall>p. presente w' p \<longrightarrow> presente w p) \<and>
      (\<exists>ft'. file_tags w' r = Some ft' \<and> forma_ft ft' = forma_ft ft \<and>
         (cantidad_paginas ft' = 0 \<or> (\<forall>p \<in> set ps. \<not> presente w' p)))) (liberar_marcos r ps w)"
  using assms
proof (induction ps arbitrary: w ft)
  case (Cons p ps)
  have fo: "forma_ok w" using Cons.prems(1) by (simp add: mem_ok_def)
  obtain pg where pg: "paginas w p = Some pg"
    using paginas_de_tabla[OF fo Cons.prems(2), of p] Cons.prems(3) by auto
  consider (cero) "cantidad_paginas ft = 0"
    | (queda) "cantidad_paginas ft \<noteq> 0" "presencia pg"
    | (ausente) "cantidad_paginas ft \<noteq> 0" "\<not> presencia pg" by blast
  then show ?case
  proof cases
    case cero
    then show ?thesis using Cons.prems(1,2) by simp
  next
    case queda
    let ?ft = "ft\<lparr>cantidad_paginas := cantidad_paginas ft - 1\<rparr>"
    obtain w1 where w1: "bindE (bit_clean (nro_marco pg) w) (\<lambda>w.
             bindE (set_pagina p (\<lambda>pg. pg\<lparr>presencia := False\<rparr>) w) (\<lambda>w.
               set_file_tag r (\<lambda>ft. ft\<lparr>cantidad_paginas := cantidad_paginas ft - 1\<rparr>) w)) = Inr w1"
      "mem_ok w1" "\<forall>q. presente w1 q \<longleftrightarrow> presente w q \<and> q \<noteq> p" "file_tag_pages w1 = file_tag_pages w"
      "file_tags w1 = (file_tags w)(r \<mapsto> ?ft)"
      using liberar_marco_ok[OF Cons.prems(1,2) _ pg queda(2)] Cons.prems(3) by auto
    have "liberar_marcos r (p # ps) w = liberar_marcos r ps w1"
      using Cons.prems(2) queda pg w1(1) by (auto simp del: fun_upd_apply)
    moreover have "file_tags w1 r = Some ?ft" using w1(5) by simp
    note IH = Cons.IH[OF w1(2) this]
    ultimately show ?thesis
      using Cons.prems(3) w1(3,4) by (auto intro!: okE_mono[OF IH] simp: forma_ft_def)
  next
    case ausente
    have np: "\<not> presente w p" using pg ausente(2) by (simp add: presente_def)
    have "liberar_marcos r (p # ps) w = liberar_marcos r ps w" using Cons.prems(2) ausente pg by simp
    then show ?thesis
      using Cons.prems np by (auto intro!: okE_mono[OF Cons.IH])
  qed
qed simp

lemma buscar_fuera:
  "\<forall>s \<in> set rs. \<exists>ft. file_tags w s = Some ft \<and> \<not> string_equals_ignore_case (identificador ft) ident \<Longrightarrow>
   buscar_file_tag ident rs w = Inr None"
  by (induction rs) auto

lemma free_file_tag_quitado:
  assumes fo: "forma_ok w" and ft: "file_tags w r = Some ft"
  shows "free_file_tag r (w\<lparr>file_tag_pages := remove1 r (file_tag_pages w)\<rparr>) = Inr (liberar_ft r ft w)"
proof -
  let ?w = "w\<lparr>file_tag_pages := remove1 r (file_tag_pages w)\<rparr>"
  have d: "distinct (map (\<lambda>r. map to_lower (identificador (the (file_tags w r)))) (file_tag_pages w))"
    and v: "\<forall>r \<in> set (file_tag_pages w). file_tags w r \<noteq> None"
    using forma_okD(2)[OF fo] by (simp_all add: tablas_ok_def)
  have dist: "distinct (file_tag_pages w)" using d by (simp add: distinct_map)
  have "buscar_file_tag (identificador ft) (remove1 r (file_tag_pages w)) ?w = Inr None"
  proof (rule buscar_fuera, rule ballI)
    fix s assume s: "s \<in> set (remove1 r (file_tag_pages w))"
    then have s': "s \<in> set (file_tag_pages w)" "s \<noteq> r" using dist by auto
    obtain a where a: "file_tags w s = Some a" using v s'(1) by auto
    have "map to_lower (identificador a) \<noteq> map to_lower (identificador ft)"
      using d s' refs_okD(1)[OF fo ft] a ft by (auto simp: distinct_map dest: inj_onD[of _ _ s r])
    then show "\<exists>f. file_tags ?w s = Some f \<and> \<not> string_equals_ignore_case (identificador f) (identificador ft)"
      using a by (simp add: string_equals_ignore_case_def)
  qed
  moreover have "distinct (tabla_paginas ft)" "\<forall>p \<in> set (tabla_paginas ft). paginas w p \<noteq> None"
    using forma_okD(5)[OF fo ft] paginas_de_tabla[OF fo ft] by (auto simp: tabla_ok_def)
  ultimately show ?thesis
    using ft by (simp add: free_file_tag_def foldE_free_pagina liberar_ft_def cong del: if_weak_cong)
qed

lemma DELETE_ok:
  assumes ok: "mem_ok w"
  shows "okE mem_ok (interpretar_DELETE ext i w)"
proof -
  have borra: "okE mem_ok (bindE (deref (file_tags w) r) (\<lambda>ft. bindE (liberar_marcos r (tabla_paginas ft) w)
      (\<lambda>w. free_file_tag r (w\<lparr>file_tag_pages := remove1 r (file_tag_pages w)\<rparr>))))" for r
  proof (cases "file_tags w r")
    case (Some ft)
    show ?thesis
      unfolding deref_Some[of "file_tags w", OF Some] bindE.simps(2) okE_bindE
    proof (rule okE_mono[OF liberar_marcos_ok[OF ok Some subset_refl]])
      fix w1 assume w1: "mem_ok w1 \<and> file_tag_pages w1 = file_tag_pages w \<and>
        (\<forall>p. presente w1 p \<longrightarrow> presente w p) \<and>
        (\<exists>ft'. file_tags w1 r = Some ft' \<and> forma_ft ft' = forma_ft ft \<and>
           (cantidad_paginas ft' = 0 \<or> (\<forall>p \<in> set (tabla_paginas ft). \<not> presente w1 p)))"
      then obtain ft' where ft': "file_tags w1 r = Some ft'" "tabla_paginas ft' = tabla_paginas ft"
        "cantidad_paginas ft' = 0 \<or> (\<forall>p \<in> set (tabla_paginas ft). \<not> presente w1 p)"
        by (auto simp: forma_ft_def)
      have fo: "forma_ok w1" and cu: "cuentas_ok (\<lambda>r. 0) w1" using w1 by (simp_all add: mem_ok_def)
      have "\<forall>p \<in> set (tabla_paginas ft'). \<not> presente w1 p"
      proof (cases "cantidad_paginas ft' = 0")
        case True
        have "int (presentes w1 (tabla_paginas ft') + 0) \<le> cantidad_paginas ft'"
          using cu ft'(1) unfolding cuentas_ok_def by blast
        then show ?thesis using True presentes_cero[of w1 "tabla_paginas ft'"] by simp
      qed (use ft' in simp)
      note l = liberar_ft_ok[OF fo ft'(1) this]
      show "okE mem_ok (free_file_tag r (w1\<lparr>file_tag_pages := remove1 r (file_tag_pages w1)\<rparr>))"
        unfolding free_file_tag_quitado[OF fo ft'(1)] using l cu by (simp add: mem_ok_def)
    qed
  qed (simp add: deref_def)
  show ?thesis
    unfolding interpretar_DELETE_def okE_bindE[of _ "if file_tag_pages w = [] then Inr w else _"]
  proof (rule okE_mono[of mem_ok])
    show "okE mem_ok (if file_tag_pages w = [] then Inr w
        else bindE (cadena (datos i) 0) (\<lambda>ident. bindE (buscar_file_tag ident (file_tag_pages w) w) (\<lambda>r.
          case r of None \<Rightarrow> Inr w
          | Some r \<Rightarrow> bindE (deref (file_tags w) r) (\<lambda>ft. bindE (liberar_marcos r (tabla_paginas ft) w)
              (\<lambda>w. free_file_tag r (w\<lparr>file_tag_pages := remove1 r (file_tag_pages w)\<rparr>))))))"
      using ok borra
      by (auto intro!: okE_pure[of _ "cadena xs n" for xs n] okE_pure[of _ "buscar_file_tag x rs w" for x rs w]
          split: option.split simp del: okE_bindE simp: okE_bindE[of _ "cadena xs n" for xs n]
          okE_bindE[of _ "buscar_file_tag x rs w" for x rs w])
  qed (rule mem_ok_tras[OF ft_simple])
qed

lemmas pura_cadena = okE_pure[of _ "cadena xs n" for xs n]
  okE_pure[of _ "paquete_instruccion_storage ext i w" for ext i w]

lemma TRUNCATE_ok:
  assumes md: "metadata_ok ext" and ok: "mem_ok w"
  shows "okE mem_ok (interpretar_TRUNCATE ext i w)"
proof -
  have tabla: "okE (\<lambda>x. \<forall>r w2. x = (r, w2) \<longrightarrow> okE (\<lambda>ft.
        (c w2 \<noteq> cantidad_paginas ft \<longrightarrow> okE mem_ok (actualizar_tabla ext r w2)) \<and>
        (c w2 = cantidad_paginas ft \<longrightarrow> mem_ok w2)) (deref (file_tags w2) r))
      (file_tag_en_memoria ext ident w1)" if "mem_ok w1" for c :: "'a worker \<Rightarrow> int" and w1 ident
  proof (rule okE_mono[OF file_tag_en_memoria_ok[OF solicitar_metadata_tam[OF md] that, of ident]])
    fix x :: "nat \<times> 'a worker" assume x: "case x of (r, w') \<Rightarrow> hallado ident r w'"
    show "\<forall>r w2. x = (r, w2) \<longrightarrow> okE (\<lambda>ft.
        (c w2 \<noteq> cantidad_paginas ft \<longrightarrow> okE mem_ok (actualizar_tabla ext r w2)) \<and>
        (c w2 = cantidad_paginas ft \<longrightarrow> mem_ok w2)) (deref (file_tags w2) r)"
    proof (intro allI impI)
      fix r w2 assume "x = (r, w2)"
      with x obtain ft where ft: "mem_ok w2" "file_tags w2 r = Some ft" by (auto simp: hallado_def)
      have "okE mem_ok (actualizar_tabla ext r w2)"
        by (rule okE_mono[OF actualizar_tabla_ok[OF ft]]) simp
      then show "okE (\<lambda>ft. (c w2 \<noteq> cantidad_paginas ft \<longrightarrow> okE mem_ok (actualizar_tabla ext r w2)) \<and>
        (c w2 = cantidad_paginas ft \<longrightarrow> mem_ok w2)) (deref (file_tags w2) r)" using ft by simp
    qed
  qed
  show ?thesis
    unfolding interpretar_TRUNCATE_def Let_def
    using ok
    by (auto intro!: pura_cadena ft_enviar[THEN okE_mono] tabla[OF mismos_ft_ok] split: prod.split)
qed

lemma log_ok: "mem_ok w \<Longrightarrow> okE mem_ok (log_ejecucion ext r w)"
  by (rule mem_ok_tras[OF ft_log_ejecucion])

lemma WRITE_ok:
  assumes md: "metadata_ok ext" and ok: "mem_ok w"
  shows "okE mem_ok (interpretar_WRITE v ext i w)"
  unfolding interpretar_WRITE_def
  by (auto intro!: pura_cadena pagina_en_Tabla_ok[OF md ok, THEN okE_mono] log_ok
      escribir_pagina_ok[OF md, THEN okE_mono] split: option.split)

lemma READ_ok:
  assumes md: "metadata_ok ext" and ok: "mem_ok w"
  shows "okE mem_ok (interpretar_READ v ext i w)"
  unfolding interpretar_READ_def
  by (auto intro!: pura_cadena pagina_en_Tabla_ok[OF md ok, THEN okE_mono] log_ok
      leer_pagina_ok[OF md, THEN okE_mono] split: option.split)

lemma instruccion_ok:
  assumes md: "metadata_ok ext" and ok: "mem_ok w"
  shows "okE mem_ok (ejecutar_instruccion v ext i w)"
proof -
  have "okE mem_ok (interpretar_COMMIT ext i w)"
    unfolding interpretar_COMMIT_def okE_bindE
    by (rule okE_mono[OF ft_FLUSH]) (blast intro: mem_ok_tras[OF ft_simple] mismos_ft_ok ok)
  moreover have "okE mem_ok (interpretar_TAG ext i w)"
    unfolding interpretar_TAG_def by (auto intro!: pura_cadena consultas mem_ok_tras[OF ft_enviar] ok)
  ultimately show ?thesis
    using TRUNCATE_ok[OF assms] WRITE_ok[OF assms] READ_ok[OF assms] DELETE_ok[OF ok]
      mem_ok_tras[OF ft_FLUSH ok] mem_ok_tras[OF ft_simple ok] mem_ok_tras[OF ft_enviar ok]
    by (auto simp: ejecutar_instruccion_def interpretar_CREATE_def interpretar_END_def
        split: set_instrucciones.split)
qed

section \<open>Runs\<close>

lemma desalojar_mem_ok:
  assumes ok: "mem_ok w"
  shows "okE mem_ok (desalojar ext w)"
proof -
  have "tablas_ok w" using ok forma_okD(2) unfolding mem_ok_def by blast
  then show ?thesis
    by (rule okE_mono[OF desalojar_ok]) (use mismos_ft_ok[OF solo_flush_ft ok] in blast)
qed

lemma ejecutar_desde_ok:
  assumes md: "metadata_ok ext"
  shows "mem_ok w \<Longrightarrow> okE (\<lambda>(fin, pc', w'). mem_ok w') (ejecutar_desde v ext is pc w)"
proof (induction "is" arbitrary: pc w)
  case (Cons i "is")
  have sigue: "okE (\<lambda>(fin, pc', w'). mem_ok w')
      (case en_entorno (consultar_interrupcion ext (word_of_int (pc + 1))) w1 of
           (None, w) \<Rightarrow> Inl ExitFailure
         | (Some True, w) \<Rightarrow> bindE (desalojar ext w) (\<lambda>w. Inr (Desalojada, pc + 1, w))
         | (Some False, w) \<Rightarrow> ejecutar_desde v ext is (pc + 1) w)" if "mem_ok w1" for w1
  proof -
    obtain r w2 where r: "en_entorno (consultar_interrupcion ext (word_of_int (pc + 1))) w1 = (r, w2)" by force
    have "mem_ok w2" by (rule mismos_ft_ok[OF ft_entorno[OF r] that])
    show ?thesis
    proof (cases r)
      case (Some b)
      show ?thesis
        using Cons.IH[OF \<open>mem_ok w2\<close>, of "pc + 1"] desalojar_mem_ok[OF \<open>mem_ok w2\<close>, of ext]
        unfolding r Some by (cases b) simp_all
    qed (unfold r, simp)
  qed
  show ?case
    unfolding ejecutar_desde.simps okE_bindE[of _ "ejecutar_instruccion v ext i w"]
    by (rule okE_mono[OF instruccion_ok[OF md Cons.prems]]) (use sigue in simp)
qed simp

lemma atender_query_ok:
  assumes md: "metadata_ok ext" and ok: "mem_ok w"
  shows "okE (\<lambda>(fin, pc, w'). mem_ok w') (atender_query v ext w)"
proof -
  obtain r w1 where r: "en_entorno (recibir_query ext) w = (r, w1)" by force
  have ok1: "mem_ok w1" using mismos_ft_ok[OF ft_entorno[OF r] ok] .
  have q: "mem_ok (w1\<lparr>query_id := q\<rparr>)" for q
    by (rule mismos_ft_ok[OF _ ok1]) (simp add: mismos_ft_def misma_forma_def)
  have corre: "okE (\<lambda>(fin, pc, w'). mem_ok w')
      (bindE (parsear_archivo ext c) (\<lambda>is. if int (length is) \<le> pc then Inr (Sin_END, pc, w2)
         else if pc < 0 then Inl NullDeref else ejecutar_desde v ext (drop (nat pc) is) pc w2))"
    if "mem_ok w2" for c pc w2
    using ejecutar_desde_ok[OF md that] that by (cases "parsear_archivo ext c") simp_all
  show ?thesis
  proof (cases r)
    case (Some mensaje)
    then obtain codigo items where m: "r = Some (codigo, items)" by (cases mensaje) simp
    show ?thesis
    proof (cases "codigo \<noteq> SOLICITUD_EJECUCION \<or> length items < 3")
      case True
      then show ?thesis unfolding atender_query_def r m by (auto split: list.split)
    next
      case False
      then obtain path qid pc rest where i: "items = path # qid # pc # rest"
        by (cases items; cases "tl items"; cases "tl (tl items)") auto
      have c: "codigo = SOLICITUD_EJECUCION" using False by simp
      show ?thesis
        unfolding atender_query_def r m i c Let_def
        using corre[OF q] by (simp del: okE_bindE split: option.split)
    qed
  qed (simp add: atender_query_def r)
qed

lemma worker_ciclo_ok:
  assumes md: "metadata_ok ext"
  shows "mem_ok w \<Longrightarrow> okE mem_ok (worker_ciclo v ext n w)"
proof (induction n arbitrary: w)
  case (Suc n)
  show ?case
    using Suc.IH by (auto intro!: okE_mono[OF atender_query_ok[OF md Suc.prems]])
qed simp

text \<open>
  C37: after any number of queries the worker's memory is consistent: a frame is taken exactly
  by the page that is in it, page tables are disjoint and in order, no two File:Tags share an
  identifier, and no File:Tag counts fewer pages than it has in memory.
\<close>

theorem worker_memory_invariant:
  assumes "metadata_ok ext" and "0 \<le> tam_memoria"
    and "storage_handshake ext (HANDSHAKE_WORKER_STORAGE, [cstr nombre]) e = (Some tam, e')" and "0 < sint tam"
    and "worker_main vueltas ext algoritmo tam_memoria nombre n e = Inr w"
  shows "mem_ok w"
proof -
  let ?w = "worker_handshakes ext nombre (worker_globals algoritmo tam_memoria e)"
  have "sin_memoria ?w"
    using assms(2-4) by (simp add: sin_memoria_def worker_handshakes_def worker_globals_def en_entorno_def Let_def)
  then obtain w0 where "init_memoria ?w = Inr w0" "mem_ok w0" using init_memoria_ok by blast
  then show ?thesis
    using okE_D[OF worker_ciclo_ok[OF assms(1)], of w0] assms(5) by (simp add: worker_main_def)
qed

lemma metadata_ok_demo: "metadata_ok demo_ext"
proof -
  have "- 1 \<le> sint (bytes_int (int_bytes 8))" by code_simp
  then show ?thesis by (simp add: metadata_ok_def demo_ext_def)
qed

theorem worker_memory_invariant_witness:
  "\<exists>w. worker_main 2 demo_ext ''CLOCK-M'' 8 ''w'' 1 [] = Inr w \<and> mem_ok w"
proof -
  have "isl (worker_main 2 demo_ext ''CLOCK-M'' 8 ''w'' 1 []) = False" by code_simp
  then obtain w where w: "worker_main 2 demo_ext ''CLOCK-M'' 8 ''w'' 1 [] = Inr w"
    by (cases "worker_main 2 demo_ext ''CLOCK-M'' 8 ''w'' 1 []") simp_all
  have "mem_ok w"
    by (rule worker_memory_invariant[where tam = 4 and e = "[]", OF metadata_ok_demo _ _ _ w])
      (simp_all add: demo_ext_def)
  with w show ?thesis by blast
qed

end
