(* ===== verification/System_Theorems.thy ===== *)
theory System_Theorems
  imports System Worker_Inv_Query
begin

text \<open>
  The properties of a worker that runs against the storage: its memory starts and stays a
  coherent cache of the storage's blocks, so that page faults and replacement are not seen,
  WRITE changes the bytes it names and no others, READ sends the bytes written, and what a
  preempted query wrote is what another worker reads. Every instruction that the worker
  sends is the storage's operation on the names it was given.
\<close>

section \<open>Starting\<close>

lemma red_handshake:
  assumes "no_nul nombre" and "storage_bueno tam (almacen e)" and "tam < 2 ^ 31"
  shows "storage_handshake (red_ext md5 base) (HANDSHAKE_WORKER_STORAGE, [cstr nombre]) e =
    (Some (word_of_int tam), e\<lparr>almacen := (almacen e)\<lparr>CANT_WORKERS := CANT_WORKERS (almacen e) + 1\<rparr>\<rparr>)"
  using assms
  by (simp add: red_ext_def al_storage_def storage_worker_handler_def entero_de_def item_str_def item_def
      storage_bueno_def)

lemma red_master_handshake [simp]:
  "master_handshake (red_ext md5 base) m e = e\<lparr>resto := master_handshake base m (resto e)\<rparr>"
  by (simp add: red_ext_def)

lemma metas_cant [simp]: "metas (s\<lparr>CANT_WORKERS := n\<rparr>) = metas s"
  by (simp add: metas_def storage_metadata_read_def fun_eq_iff)

lemma abs_fs_cant [simp]: "abs_fs (s\<lparr>CANT_WORKERS := n\<rparr>) = abs_fs s"
  by (simp add: abs_fs_def)

lemma storage_bueno_cant [simp]: "storage_bueno tam (s\<lparr>CANT_WORKERS := n\<rparr>) = storage_bueno tam s"
proof -
  let ?s = "s\<lparr>CANT_WORKERS := n\<rparr>"
  have n: "num_blocks ?s = num_blocks s" "zero_block ?s = zero_block s" by (simp_all add: num_blocks_def zero_block_def)
  have "fs_ok M ?s = fs_ok M s" for M
    by (simp add: fs_ok_def disk_ok_def tree_ok_def mutex_ok_def n)
  moreover have "alloc_safe ?s = alloc_safe s" by (simp add: alloc_safe_def block_used_def)
  ultimately show ?thesis by (simp add: storage_bueno_def fs_wf_def n tamanios_int32_def)
qed

lemma sin_memoria_firme:
  assumes s: "sin_memoria w" and i: "init_memoria w = Inr w'"
    and b: "buena S (entorno w)" "tam_pagina w = tam_bloque S"
  shows "firme S w'" and "coherente S w'"
proof -
  have c: "file_tags w' = Map.empty" "paginas w' = Map.empty" "tam_pagina w' = tam_pagina w" "entorno w' = entorno w"
    using i s by (auto simp: init_memoria_def sin_memoria_def Let_def split: if_split_asm)
  obtain w0 where "init_memoria w = Inr w0" "mem_ok w0" using init_memoria_ok[OF s] by blast
  then have "mem_ok w'" using i by simp
  then show "firme S w'"
    using b c by (simp add: firme_def basica_def mem_ok_def nros_ok_def conocidos_def)
  show "coherente S w'"
    using c by (auto simp: coherente_def tiene_def split: option.split_asm)
qed

lemma arranque_coherente:
  assumes "storage_bueno tam (almacen e)" and "0 < tam" and "tam < 2 ^ 31"
    and "no_nul nombre" and "0 \<le> tam_memoria"
  shows "\<exists>w. init_memoria (worker_handshakes (red_ext md5 base) nombre (worker_globals algoritmo tam_memoria e)) = Inr w \<and>
           tam_pagina w = BLOCK_SIZE (almacen e) \<and> abs_fs (almacen (entorno w)) = abs_fs (almacen e) \<and>
           firme (red_visto base tam) w \<and> coherente (red_visto base tam) w"
proof -
  let ?w = "worker_handshakes (red_ext md5 base) nombre (worker_globals algoritmo tam_memoria e)"
  have tam: "sint (word_of_int tam :: int32) = tam"
    using assms(2,3) by (subst sint_sbintrunc') (simp add: signed_take_bit_int_eq_self)
  note h = red_handshake[OF assms(4,1,3), of md5 base]
  have a: "almacen (entorno ?w) = (almacen e)\<lparr>CANT_WORKERS := CANT_WORKERS (almacen e) + 1\<rparr>"
    "tam_pagina ?w = tam" "sin_memoria ?w"
    using assms(2,5) tam
    by (simp_all add: worker_handshakes_def worker_globals_def en_entorno_def h Let_def sin_memoria_def)
  obtain w where w: "init_memoria ?w = Inr w" using init_memoria_ok[OF a(3)] by blast
  have "tam_pagina w = tam" "entorno w = entorno ?w"
    using w a(2) by (auto simp: init_memoria_def Let_def split: if_split_asm)
  moreover have "firme (red_visto base tam) w" "coherente (red_visto base tam) w"
    using sin_memoria_firme[OF a(3) w, of "red_visto base tam"] a(1,2) assms(1) by simp_all
  ultimately show ?thesis using w a(1) storage_buenoD(3)[OF assms(1)] by auto
qed

lemma demo_bueno: "storage_bueno 2 demo_fs"
proof -
  have "tamanios_int32 demo_fs"
    by (auto simp: tamanios_int32_def abs_fs_def abs_view_def metas_demo file_view_def split: if_split_asm)
  moreover have "length (bitmap demo_fs) = 8" by (simp add: demo_fs_def)
  ultimately show ?thesis
    by (simp add: storage_bueno_def demo_wf demo_safe demo_block_size num_blocks_demo)
qed

text \<open>
  C6: the worker's start against a well-formed storage: its page size is the storage's block
  size, nothing of the storage's contents changes, and its memory is consistent and agrees
  with the storage.
\<close>

theorem worker_starts_coherent:
  assumes "storage_bueno tam (almacen e)" and "0 < tam" and "tam < 2 ^ 31"
    and "no_nul nombre" and "0 \<le> tam_memoria"
  shows "\<exists>w. init_memoria (worker_handshakes (red_ext md5 base) nombre (worker_globals algoritmo tam_memoria e)) = Inr w \<and>
           tam_pagina w = BLOCK_SIZE (almacen e) \<and> abs_fs (almacen (entorno w)) = abs_fs (almacen e) \<and>
           firme (red_visto base tam) w \<and> coherente (red_visto base tam) w"
  by (rule arranque_coherente[OF assms])

theorem worker_starts_coherent_witness:
  "\<exists>w. init_memoria (worker_handshakes (red_ext demo_md5 demo_ext) ''w''
          (worker_globals ''LRU'' 4 \<lparr>almacen = demo_fs, avisado = False, resto = []\<rparr>)) = Inr w \<and>
        tam_pagina w = 2 \<and> firme (red_visto demo_ext 2) w"
proof -
  have n: "no_nul ''w''" by (simp add: no_nul_def)
  show ?thesis
    using worker_starts_coherent[of 2 "\<lparr>almacen = demo_fs, avisado = False, resto = []\<rparr>" "''w''" 4
        demo_md5 demo_ext "''LRU''"] n demo_bueno demo_block_size by auto
qed

section \<open>A concrete worker and storage\<close>

definition demo_red :: "mensaje list red worker" where
  "demo_red = (case init_memoria (worker_handshakes (red_ext demo_md5 demo_ext) ''w''
       (worker_globals ''LRU'' 4 \<lparr>almacen = demo_fs, avisado = False, resto = []\<rparr>)) of
     Inr w \<Rightarrow> w | Inl _ \<Rightarrow> worker_globals [] 0 \<lparr>almacen = demo_fs, avisado = False, resto = []\<rparr>)"

lemma demo_red_ok: "firme (red_visto demo_ext 2) demo_red" "coherente (red_visto demo_ext 2) demo_red"
proof -
  let ?e = "\<lparr>almacen = demo_fs, avisado = False, resto = []\<rparr>"
  have "no_nul ''w''" by (simp add: no_nul_def)
  then obtain w where "init_memoria (worker_handshakes (red_ext demo_md5 demo_ext) ''w''
      (worker_globals ''LRU'' 4 ?e)) = Inr w" "firme (red_visto demo_ext 2) w" "coherente (red_visto demo_ext 2) w"
    using arranque_coherente[of 2 ?e "''w''" 4 demo_md5 demo_ext "''LRU''"] demo_bueno by auto
  then show "firme (red_visto demo_ext 2) demo_red" "coherente (red_visto demo_ext 2) demo_red"
    by (simp_all add: demo_red_def)
qed

lemma demo_nombres: "''a:1'' \<in> nombres_de demo_ext" "''b:2'' \<in> nombres_de demo_ext"
    "partes demo_ext ''a:1'' = Some (''a'', ''1'')" "partes demo_ext ''b:2'' = Some (''b'', ''2'')"
proof -
  have s: "string_split demo_ext ''a:1'' '':'' = [''a'', ''1'']" "string_split demo_ext ''b:2'' '':'' = [''b'', ''2'']"
    by (simp_all add: demo_ext_def)
  have l: "map to_lower ''a:1'' = ''a:1''" "map to_lower ''b:2'' = ''b:2''" by code_simp+
  show "''a:1'' \<in> nombres_de demo_ext" "''b:2'' \<in> nombres_de demo_ext"
    "partes demo_ext ''a:1'' = Some (''a'', ''1'')" "partes demo_ext ''b:2'' = Some (''b'', ''2'')"
    using s l by (auto simp: nombres_de_def partes_def no_nul_def)
qed

lemma demo_red_vacia: "\<not> tiene demo_red i ident n"
proof -
  let ?w = "worker_handshakes (red_ext demo_md5 demo_ext) ''w''
    (worker_globals ''LRU'' 4 \<lparr>almacen = demo_fs, avisado = False, resto = []\<rparr>)"
  have "file_tags ?w = Map.empty"
    by (simp add: worker_handshakes_def worker_globals_def en_entorno_def Let_def split: prod.split option.split)
  moreover have "file_tags w' = file_tags w" if "init_memoria w = Inr w'" for w w' :: "mensaje list red worker"
    using that by (auto simp: init_memoria_def Let_def split: if_split_asm)
  ultimately have "file_tags demo_red = Map.empty"
    by (cases "init_memoria ?w") (auto simp: demo_red_def worker_globals_def)
  then show ?thesis by (simp add: tiene_def split: option.split)
qed

definition demo_write :: "mensaje list red worker" where
  "demo_write = (case interpretar_WRITE 2 (red_ext demo_md5 demo_ext)
      \<lparr>copi = WRITE, i_identificador = ''WRITE'', datos = [''a:1'', ''1'', ''Z'']\<rparr> demo_red of
     Inr w \<Rightarrow> w | Inl _ \<Rightarrow> demo_red)"

lemma demo_write_run: "interpretar_WRITE 2 (red_ext demo_md5 demo_ext)
      \<lparr>copi = WRITE, i_identificador = ''WRITE'', datos = [''a:1'', ''1'', ''Z'']\<rparr> demo_red = Inr demo_write"
    "\<not> avisado (entorno demo_write)"
proof -
  have r: "case interpretar_WRITE 2 (red_ext demo_md5 demo_ext)
      \<lparr>copi = WRITE, i_identificador = ''WRITE'', datos = [''a:1'', ''1'', ''Z'']\<rparr> demo_red of
     Inl _ \<Rightarrow> False | Inr w \<Rightarrow> \<not> avisado (entorno w)" by code_simp
  then show "interpretar_WRITE 2 (red_ext demo_md5 demo_ext)
      \<lparr>copi = WRITE, i_identificador = ''WRITE'', datos = [''a:1'', ''1'', ''Z'']\<rparr> demo_red = Inr demo_write"
    "\<not> avisado (entorno demo_write)"
    unfolding demo_write_def by (auto split: sum.split_asm)
qed

lemma demo_uno: "atoi ''1'' = 1" "atoi ''3'' = 3" "atoi ''2'' = 2"
  by code_simp+

lemma demo_write_ok: "firme (red_visto demo_ext 2) demo_write" "coherente (red_visto demo_ext 2) demo_write"
  using okE_D[OF red.WRITE_vista[OF demo_red_ok(1), of "''a:1''" _ "''1''" "''Z''"] demo_write_run(1)]
    demo_nombres(1) demo_red_ok(2) demo_write_run(2)
  by (simp_all add: demo_uno escribe_def)

lemma demo_corre:
  "case pagina_en_Tabla 2 (red_ext demo_md5 demo_ext) ''a:1'' 1 demo_write of
     Inl _ \<Rightarrow> False | Inr (p, w) \<Rightarrow> \<not> avisado (entorno w) \<and> p \<noteq> None"
  "case interpretar_READ 2 (red_ext demo_md5 demo_ext)
      \<lparr>copi = READ, i_identificador = ''READ'', datos = [''a:1'', ''1'', ''3'']\<rparr> demo_write of
     Inl _ \<Rightarrow> False | Inr w \<Rightarrow> \<not> avisado (entorno w)"
  "case desalojar (red_ext demo_md5 demo_ext) demo_write of
     Inl _ \<Rightarrow> False | Inr w \<Rightarrow> \<not> avisado (entorno w)"
  by code_simp+

section \<open>Pages\<close>

text \<open>
  C2: asking for a page, with the fault, the eviction and the requests to the storage that it
  may take, is not seen: no page of any File:Tag reads differently afterwards, the memory still
  agrees with the storage, and the page given is in a frame that holds what it reads as.
\<close>

theorem page_access_transparent:
  assumes "firme (red_visto base tam) w" and "coherente (red_visto base tam) w" and "ident \<in> nombres_de base"
    and "pagina_en_Tabla v (red_ext md5 base) ident nro w = Inr (p, w')" and "\<not> avisado (entorno w')"
  shows "firme (red_visto base tam) w' \<and> coherente (red_visto base tam) w' \<and>
     (\<forall>b \<in> nombres_de base. vista (red_visto base tam) w' b = vista (red_visto base tam) w b) \<and>
     (\<forall>q. p = Some q \<longrightarrow> (\<exists>i pg. paginas w' q = Some pg \<and> nro_marco pg = int i \<and> nro_pagina pg = nro \<and>
        vista (red_visto base tam) w ident nro = Some (contenido i w')))"
proof -
  let ?S = "red_visto base tam"
  have h: "fiel ?S w w'" "\<And>q. p = Some q \<Longrightarrow> de_pagina w' ident nro q"
    using okE_D[OF red.pagina_en_Tabla_fiel[OF assms(1)] assms(4)] assms(3) by simp_all
  have f: "firme ?S w'" by (rule fielD[OF h(1)])
  have t: "coherente ?S w'" "\<forall>b \<in> nombres_de base. vista ?S w' b = vista ?S w b"
    using h(1) assms(2,5) by (simp_all add: fiel_def transparente_def misma_vista_def)
  have "\<exists>i pg. paginas w' q = Some pg \<and> nro_marco pg = int i \<and> nro_pagina pg = nro \<and>
        vista ?S w ident nro = Some (contenido i w')" if q: "p = Some q" for q
  proof -
    obtain i r ft pg where d: "ocupa w' i r q" "file_tags w' r = Some ft" "identificador ft = ident"
      "paginas w' q = Some pg" "nro_pagina pg = nro" using h(2)[OF q] by (auto simp: de_pagina_def)
    have o: "i < cantidad_marcos w'" "nro_marco pg = int i" using d(1,4) by (auto simp: ocupa_def)
    have "tiene w' i ident nro" using d by (auto simp: tiene_ocupa[OF o(1)])
    then have "vista ?S w' ident nro = Some (contenido i w')"
      by (rule vista_presente[OF firmeD(3)[OF f] o(1)])
    then show ?thesis using t(2) assms(3) d(4,5) o(2) by auto
  qed
  then show ?thesis using f t by blast
qed

theorem page_access_transparent_witness:
  "\<exists>p w' i. pagina_en_Tabla 2 (red_ext demo_md5 demo_ext) ''a:1'' 1 demo_write = Inr (Some p, w') \<and>
     vista (red_visto demo_ext 2) demo_write ''a:1'' 1 = Some (contenido i w') \<and>
     vista (red_visto demo_ext 2) w' ''a:1'' = vista (red_visto demo_ext 2) demo_write ''a:1''"
proof -
  from demo_corre(1) obtain p w' where r:
    "pagina_en_Tabla 2 (red_ext demo_md5 demo_ext) ''a:1'' 1 demo_write = Inr (Some p, w')" "\<not> avisado (entorno w')"
    by (auto split: sum.split_asm prod.split_asm)
  from page_access_transparent[OF demo_write_ok demo_nombres(1) r] demo_nombres(1) r(1) show ?thesis by blast
qed

section \<open>WRITE and READ\<close>

text \<open>
  C3: a WRITE that reports no error puts its bytes, those \<open>escritos\<close> says, at its address, and
  every other byte of this and every other File:Tag reads as before, whether the pages were in
  memory or came from the storage and whatever was evicted on the way.
\<close>

theorem write_changes_exactly:
  assumes "firme (red_visto base tam) w" and "coherente (red_visto base tam) w" and "ident \<in> nombres_de base"
    and "datos i = [ident, a, dato]" and "0 \<le> atoi a"
    and "interpretar_WRITE v (red_ext md5 base) i w = Inr w'" and "\<not> avisado (entorno w')"
    and "bs = escritos tam (atoi a) (map char_byte dato)"
  shows "firme (red_visto base tam) w' \<and> coherente (red_visto base tam) w' \<and>
     (\<forall>b \<in> nombres_de base. \<forall>x \<ge> 0. byte_en (red_visto base tam) w' b x =
        (if b = ident \<and> atoi a \<le> x \<and> x < atoi a + int (length bs) then Some (bs ! nat (x - atoi a))
         else byte_en (red_visto base tam) w b x))"
  using okE_D[OF red.WRITE_vista[OF assms(1) _ assms(4,5)] assms(6)] assms(2,3,7,8)
  by (simp add: escribe_def)

theorem write_changes_exactly_witness:
  "byte_en (red_visto demo_ext 2) demo_write ''a:1'' 1 = Some 90 \<and>
   byte_en (red_visto demo_ext 2) demo_write ''a:1'' 0 = byte_en (red_visto demo_ext 2) demo_red ''a:1'' 0"
proof -
  have e: "escritos 2 1 [char_byte (CHR ''Z'')] = [90]" by code_simp
  from write_changes_exactly[OF demo_red_ok demo_nombres(1) _ _ demo_write_run refl] demo_nombres(1)
  show ?thesis by (simp add: demo_uno e)
qed

text \<open>
  C4: a READ that reports no error sends the master, as one text, exactly the bytes that the
  File:Tag reads as at the addresses asked for, and changes no byte.
\<close>

theorem read_sends_view:
  assumes "firme (red_visto base tam) w" and "coherente (red_visto base tam) w" and "ident \<in> nombres_de base"
    and "datos i = [ident, a, n]" and "0 \<le> atoi a"
    and "interpretar_READ v (red_ext md5 base) i w = Inr w'" and "\<not> avisado (entorno w')"
  shows "coherente (red_visto base tam) w' \<and>
     (\<forall>b \<in> nombres_de base. vista (red_visto base tam) w' b = vista (red_visto base tam) w b) \<and>
     (\<exists>bs e. int (length bs) = atoi n \<and>
        (\<forall>k < length bs. byte_en (red_visto base tam) w ident (atoi a + int k) = Some (bs ! k)) \<and>
        master_rta (red_ext md5 base) (LECTURA_MASTER, [cstr ident, bs @ [0]]) e = (Some OK, entorno w'))"
proof -
  let ?S = "red_visto base tam"
  from okE_D[OF red.READ_vista[OF assms(1) _ assms(4,5)] assms(6)] assms(3,7)
  obtain bs w1 where h: "fiel ?S w w'" "int (length bs) = atoi n" "lee ?S ident (atoi a) bs w w1"
    "master_rta (red_ext md5 base) (LECTURA_MASTER, [cstr ident, bs @ [0]]) (entorno w1) = (Some OK, entorno w')"
    by auto
  have "leal ?S (entorno w1) (entorno w')" by (rule red.lectura[OF h(4)])
  then have "\<not> avisado (entorno w1)" using assms(7) by (simp add: leal_def)
  then have "\<forall>k < length bs. byte_en ?S w ident (atoi a + int k) = Some (bs ! k)"
    using h(3) assms(2) by (simp add: lee_def)
  then show ?thesis
    using h assms(2,7) by (auto simp: fiel_def transparente_def misma_vista_def)
qed

theorem read_sends_view_witness:
  "\<exists>bs e w'. interpretar_READ 2 (red_ext demo_md5 demo_ext)
        \<lparr>copi = READ, i_identificador = ''READ'', datos = [''a:1'', ''1'', ''3'']\<rparr> demo_write = Inr w' \<and>
     int (length bs) = 3 \<and>
     (\<forall>k < length bs. byte_en (red_visto demo_ext 2) demo_write ''a:1'' (1 + int k) = Some (bs ! k)) \<and>
     master_rta (red_ext demo_md5 demo_ext) (LECTURA_MASTER, [cstr ''a:1'', bs @ [0]]) e = (Some OK, entorno w')"
proof -
  from demo_corre(2) obtain w' where r: "interpretar_READ 2 (red_ext demo_md5 demo_ext)
      \<lparr>copi = READ, i_identificador = ''READ'', datos = [''a:1'', ''1'', ''3'']\<rparr> demo_write = Inr w'"
    "\<not> avisado (entorno w')" by (auto split: sum.split_asm)
  from read_sends_view[OF demo_write_ok demo_nombres(1) _ _ r, of "''1''" "''3''"] r(1) show ?thesis
    by (simp add: demo_uno)
qed

section \<open>Another worker\<close>

text \<open>
  C5: when the master takes a query off a worker, and the worker's flush reports no error, any
  worker of the same storage that has no page of a File:Tag in memory reads that File:Tag as
  the first one did: what the query wrote before it was preempted is what it reads where it goes on.
\<close>

theorem preempted_query_moves:
  assumes "firme (red_visto base tam) w" and "coherente (red_visto base tam) w" and "ident \<in> nombres_de base"
    and "desalojar (red_ext md5 base) w = Inr w'" and "\<not> avisado (entorno w')"
    and "almacen (entorno u) = almacen (entorno w')"
    and "\<forall>i < cantidad_marcos u. \<forall>n. \<not> tiene u i ident n"
  shows "vista (red_visto base tam) u ident = vista (red_visto base tam) w ident"
proof -
  have "pag (red_visto base tam) (entorno w') ident = vista (red_visto base tam) w ident"
    using red.desalojar_publica[OF assms(1,4) _ assms(2)] assms(3,5) by simp
  moreover have "vista (red_visto base tam) u ident n = pag (red_visto base tam) (entorno u) ident n" for n
    by (rule vista_ausente) (use assms(7) in blast)
  ultimately show ?thesis using assms(6) by (simp add: fun_eq_iff)
qed

theorem preempted_query_moves_witness:
  "\<exists>w'. desalojar (red_ext demo_md5 demo_ext) demo_write = Inr w' \<and>
     vista (red_visto demo_ext 2) (demo_red\<lparr>entorno := entorno w'\<rparr>) ''a:1'' =
     vista (red_visto demo_ext 2) demo_write ''a:1''"
proof -
  from demo_corre(3) obtain w' where r: "desalojar (red_ext demo_md5 demo_ext) demo_write = Inr w'"
    "\<not> avisado (entorno w')" by (auto split: sum.split_asm)
  from preempted_query_moves[OF demo_write_ok demo_nombres(1) r, of "demo_red\<lparr>entorno := entorno w'\<rparr>"] r(1)
  show ?thesis by (simp add: demo_red_vacia)
qed


section \<open>Scripts\<close>

text \<open>
  C1: running a script of WRITE, READ, FLUSH and END, with the memory, the replacement, the
  messages and the storage's blocks, links and locks, does to the bytes of the File:Tags what
  the reference does, which only updates an array of bytes at each WRITE: exactly the
  instructions from the program counter to where it stopped count, and when it stopped because
  the master asked for the worker the storage has all of it.
\<close>

theorem script_refines_bytes:
  assumes "firme (red_visto base tam) w" and "coherente (red_visto base tam) w"
    and "list_all (de_paginas (nombres_de base)) is"
    and "ejecutar_desde v (red_ext md5 base) is pc w = Inr (fin, pc', w')" and "\<not> avisado (entorno w')"
  shows "firme (red_visto base tam) w' \<and> coherente (red_visto base tam) w' \<and> pc \<le> pc' \<and>
     (\<forall>b \<in> nombres_de base. \<forall>x \<ge> 0. byte_en (red_visto base tam) w' b x =
        ref_guion tam (take (nat (pc' - pc)) is) (byte_en (red_visto base tam) w) b x) \<and>
     (fin = Desalojada \<longrightarrow>
        (\<forall>b \<in> nombres_de base. pag (red_visto base tam) (entorno w') b = vista (red_visto base tam) w' b))"
  using okE_D[OF redw.guion_sigue[OF assms(1), of "is" pc v] assms(4)] assms(2,3,5)
  by (simp add: sigue_ref_def entregado_def)

definition demo_guion :: "t_instrucion list" where
  "demo_guion = [\<lparr>copi = WRITE, i_identificador = ''WRITE'', datos = [''a:1'', ''1'', ''Z'']\<rparr>,
     \<lparr>copi = END, i_identificador = ''END'', datos = []\<rparr>]"

theorem script_refines_bytes_witness:
  "\<exists>w'. ejecutar_desde 2 (red_ext demo_md5 demo_ext) demo_guion 0 demo_red = Inr (Desalojada, 1, w') \<and>
     byte_en (red_visto demo_ext 2) w' ''a:1'' 1 = Some 90 \<and>
     pag (red_visto demo_ext 2) (entorno w') ''a:1'' = vista (red_visto demo_ext 2) w' ''a:1''"
proof -
  have "case ejecutar_desde 2 (red_ext demo_md5 demo_ext) demo_guion 0 demo_red of
      Inl _ \<Rightarrow> False | Inr (fin, pc, w) \<Rightarrow> fin = Desalojada \<and> pc = 1 \<and> \<not> avisado (entorno w)" by code_simp
  then obtain w' where r: "ejecutar_desde 2 (red_ext demo_md5 demo_ext) demo_guion 0 demo_red = Inr (Desalojada, 1, w')"
    "\<not> avisado (entorno w')" by (auto split: sum.split_asm prod.split_asm)
  have g: "list_all (de_paginas (nombres_de demo_ext)) demo_guion"
    using demo_nombres(1) by (simp add: demo_guion_def de_paginas_def demo_uno)
  have e: "escritos 2 1 [char_byte (CHR ''Z'')] = [90]" by code_simp
  have "ref_guion 2 (take (nat (1 - 0)) demo_guion) B ''a:1'' 1 = Some 90" for B
    by (simp add: demo_guion_def ref_instr_def demo_uno e)
  then show ?thesis
    using script_refines_bytes[OF demo_red_ok g r] demo_nombres(1) r(1) by simp
qed

section \<open>Instructions\<close>

text \<open>An operation of the storage as the worker sees it: a fault is a closed socket.\<close>

definition tras_storage ::
    "'x red externos \<Rightarrow> (storage \<Rightarrow> fault + (rta_storage \<times> storage)) \<Rightarrow> 'x red worker \<Rightarrow> fault + 'x red worker" where
  "tras_storage ext oper w =
     (case oper (almacen (entorno w)) of
        Inl _ \<Rightarrow> Inl ExitFailure
      | Inr (r, s) \<Rightarrow> log_ejecucion ext (rta_val r) (w\<lparr>entorno := (entorno w)\<lparr>almacen := s\<rparr>\<rparr>))"

lemma enviar_red:
  assumes "\<And>s. desglozar_instruccion md5 items s = oper s"
  shows "enviar_paquete_a (red_ext md5 base) (INSTRUCCION_STORAGE, items) ''Storage'' w =
    tras_storage (red_ext md5 base) oper w"
proof -
  have n: "\<not> string_equals_ignore_case ''Storage'' ''Master''" by code_simp
  have h: "storage_worker_handler md5 INSTRUCCION_STORAGE items True s =
      bindE (oper s) (\<lambda>rs. Inr (responder_rta True rs))" for s
    by (simp add: storage_worker_handler_def assms)
  show ?thesis
    using n
    by (cases "oper (almacen (entorno w))")
      (auto simp: enviar_paquete_a_def en_entorno_def storage_rta_red tras_storage_def red_ext_def
        al_storage_def h responder_rta_def entero_de_def)
qed

lemma desglozar_simple:
  assumes "no_nul f" and "no_nul t"
  shows "desglozar_instruccion md5 (int_bytes (copi_val CREATE) # cstr f # cstr t # q) s = storage_create f t s"
    "desglozar_instruccion md5 (int_bytes (copi_val COMMIT) # cstr f # cstr t # q) s = storage_commit md5 f t s"
    "desglozar_instruccion md5 (int_bytes (copi_val DELETE) # cstr f # cstr t # q) s = storage_delete md5 f t s"
    "desglozar_instruccion md5 [int_bytes (copi_val TRUNCATE), cstr f, cstr t, x, int_bytes n] s =
       storage_truncate f t (sint n) s"
    "no_nul f2 \<Longrightarrow> no_nul t2 \<Longrightarrow>
       desglozar_instruccion md5 [int_bytes (copi_val TAG), cstr f, cstr t, x, cstr f2, cstr t2] s =
       storage_tag f t f2 t2 s"
  using assms
  by (simp_all add: desglozar_instruccion_def item_str_def item_int32_def item_def numeral_2_eq_2)

text \<open>
  C7: the packet the worker builds for an instruction is one the storage takes apart into the
  operation meant, with the names and the number of the script: no item is missing, out of
  order or of another type. CREATE, COMMIT and TAG are shown as the worker runs them, DELETE
  and TRUNCATE from the point where their packet is sent.
\<close>

theorem instruction_packets_understood:
  assumes "a \<in> nombres_de base" and "b \<in> nombres_de base"
    and "partes base a = Some (f, t)" and "partes base b = Some (f2, t2)"
  shows "interpretar_CREATE (red_ext md5 base) \<lparr>copi = CREATE, i_identificador = nm, datos = [a]\<rparr> w =
           tras_storage (red_ext md5 base) (storage_create f t) w \<and>
    interpretar_COMMIT (red_ext md5 base) \<lparr>copi = COMMIT, i_identificador = nm, datos = [a]\<rparr> w =
           bindE (interpretar_FLUSH (red_ext md5 base) \<lparr>copi = FLUSH, i_identificador = ''FLUSH'', datos = [a]\<rparr> w)
             (tras_storage (red_ext md5 base) (storage_commit md5 f t)) \<and>
    interpretar_TAG (red_ext md5 base) \<lparr>copi = TAG, i_identificador = nm, datos = [a, b]\<rparr> w =
           tras_storage (red_ext md5 base) (storage_tag f t f2 t2) w \<and>
    instruccion_simple_storage (red_ext md5 base) \<lparr>copi = DELETE, i_identificador = nm, datos = [a]\<rparr> w =
           tras_storage (red_ext md5 base) (storage_delete md5 f t) w \<and>
    bindE (paquete_instruccion_storage (red_ext md5 base) \<lparr>copi = TRUNCATE, i_identificador = nm, datos = [a, b]\<rparr> w)
        (\<lambda>items. enviar_paquete_a (red_ext md5 base)
           (INSTRUCCION_STORAGE, items @ [int_bytes (word_of_int n)]) ''Storage'' w) =
           tras_storage (red_ext md5 base) (storage_truncate f t (sint (word_of_int n :: int32))) w"
proof -
  have split: "agregar_file_tag (red_ext md5 base) x = Inr [cstr g, cstr u] \<and> no_nul g \<and> no_nul u"
    if "x \<in> nombres_de base" "partes base x = Some (g, u)" for x g u
    using that by (auto simp: nombres_de_def partes_def agregar_file_tag_def)
  have a: "agregar_file_tag (red_ext md5 base) a = Inr [cstr f, cstr t]" "no_nul f" "no_nul t"
    using split[OF assms(1,3)] by simp_all
  have b: "agregar_file_tag (red_ext md5 base) b = Inr [cstr f2, cstr t2]" "no_nul f2" "no_nul t2"
    using split[OF assms(2,4)] by simp_all
  note d = desglozar_simple[OF a(2,3)] and simps = cadena_def paquete_instruccion_storage_def a(1) b(1)
  have c: "instruccion_simple_storage (red_ext md5 base) \<lparr>copi = c, i_identificador = nm, datos = [a]\<rparr> w =
      enviar_paquete_a (red_ext md5 base)
        (INSTRUCCION_STORAGE, [int_bytes (copi_val c), cstr f, cstr t, cstr (query_id w)]) ''Storage'' w" for c w
    by (simp add: instruccion_simple_storage_def simps)
  note env = enviar_red[where base = base and w = w]
  have 1: "instruccion_simple_storage (red_ext md5 base) \<lparr>copi = CREATE, i_identificador = nm, datos = [a]\<rparr> w =
      tras_storage (red_ext md5 base) (storage_create f t) w"
    unfolding c by (rule enviar_red) (rule d)
  have 2: "instruccion_simple_storage (red_ext md5 base) \<lparr>copi = COMMIT, i_identificador = nm, datos = [a]\<rparr> =
      tras_storage (red_ext md5 base) (storage_commit md5 f t)"
    unfolding fun_eq_iff c by (intro allI enviar_red) (rule d)
  have 3: "instruccion_simple_storage (red_ext md5 base) \<lparr>copi = DELETE, i_identificador = nm, datos = [a]\<rparr> w =
      tras_storage (red_ext md5 base) (storage_delete md5 f t) w"
    unfolding c by (rule enviar_red) (rule d)
  have 4: "interpretar_TAG (red_ext md5 base) \<lparr>copi = TAG, i_identificador = nm, datos = [a, b]\<rparr> w =
      tras_storage (red_ext md5 base) (storage_tag f t f2 t2) w"
    using env[OF d(5)[OF b(2,3)]] by (simp add: interpretar_TAG_def simps)
  have 5: "bindE (paquete_instruccion_storage (red_ext md5 base) \<lparr>copi = TRUNCATE, i_identificador = nm, datos = [a, b]\<rparr> w)
      (\<lambda>items. enviar_paquete_a (red_ext md5 base) (INSTRUCCION_STORAGE, items @ [int_bytes (word_of_int n)]) ''Storage'' w) =
      tras_storage (red_ext md5 base) (storage_truncate f t (sint (word_of_int n :: int32))) w"
    using env[OF d(4)] by (simp add: simps)
  show ?thesis
    using 1 2 3 4 5 by (simp add: interpretar_CREATE_def interpretar_COMMIT_def)
qed

theorem instruction_packets_understood_witness:
  "interpretar_TAG (red_ext demo_md5 demo_ext)
      \<lparr>copi = TAG, i_identificador = ''TAG'', datos = [''a:1'', ''b:2'']\<rparr> demo_red =
   tras_storage (red_ext demo_md5 demo_ext) (storage_tag ''a'' ''1'' ''b'' ''2'') demo_red"
  using instruction_packets_understood[OF demo_nombres] by blast

end
