(* ===== verification/Spec2Isabelle.thy ===== *)
theory Spec2Isabelle
  imports Networking Conexiones Lock_Protocol Master_Theorems System_Theorems
begin

text \<open>
  Master of Files: a distributed file service of four C programs that talk over TCP. A Query
  Control submits a script; the Master queues the scripts and gives each to a Worker; the
  Worker runs its instructions over pages that it brings from the Storage into a small memory;
  the Storage keeps files, each under tags, as lists of physical blocks that files may share.

  The theories follow the programs under \<open>src/\<close>.

  \<^bold>\<open>Shared.\<close> \<open>Prelude\<close> has the outcomes of C code beside returning (\<open>fault\<close>: a null pointer, a use
  after free, a double free, an index out of bounds, memory never set, a wait that does not
  end, an exit), the sequencing \<open>bindE\<close> of steps that may fault and the partial-correctness
  reading \<open>okE\<close> of a step. \<open>Op_Codes\<close> and \<open>Paquetes\<close> are \<open>utils/src/utils/op_codes.h\<close>,
  \<open>set_instrucciones.h\<close> and \<open>paquetes.c\<close>, with C's \<open>int\<close> as \<open>32 word\<close>: a packet comes out as it
  was built, when no item is empty and it fits an \<open>int\<close>. \<open>Networking\<close> is \<open>networking.c\<close>.

  \<^bold>\<open>Storage.\<close> \<open>Storage_State\<close> is the state: the globals, the tree under the mount point, with hard
  links as entries that name a physical block, the bitmap and the hash index. \<open>Storage_Bitmap\<close>,
  \<open>Storage_Hashes\<close>, \<open>Storage_Locks\<close> and \<open>Storage_Files\<close> are \<open>storage_bitmap.c\<close>,
  \<open>storage_hashes.c\<close>, \<open>storage_locks.c\<close> and \<open>sotrage_files.c\<close>, one definition per function and
  per loop body; \<open>Storage_Start\<close> is \<open>storage_init.c\<close> and \<open>storage_fresh_start.c\<close>;
  \<open>Storage_Handler\<close> is \<open>storage_operaciones.c\<close> and \<open>storage_worker_handler.c\<close>. \<open>Storage_Spec\<close>
  states what each operation promises on a map from File:Tag to size, state and contents;
  \<open>Storage_Inv\<close> has the invariant (\<open>fs_wf\<close>: metadata, links, blocks and semaphores agree;
  \<open>alloc_safe\<close>: a block in use is marked used) and \<open>Storage_Write\<close>, \<open>Storage_Commit\<close> and
  \<open>Storage_Tags\<close> prove that every operation keeps it and refines its specification.
  \<open>Storage_Frame\<close> adds what WRITE leaves alone. \<open>Storage_Theorems\<close> and \<open>Storage_System\<close> hold the
  properties, with the runs in which the code breaks its own rules. \<open>Lock_Protocol\<close> interleaves
  the steps of the lock functions for any number of threads.

  \<^bold>\<open>Worker.\<close> \<open>Worker_State\<close> has the globals of \<open>worker_globals.h\<close>, with pages and page tables in
  heaps, since the code reaches them through several pointers, and the memory as one byte
  array. \<open>Worker_Reemplazo\<close>, \<open>Worker_Memoria\<close>, \<open>Worker_Parser\<close> and \<open>Worker_Interprete\<close> are
  \<open>algoritmos_reemplazo.c\<close>, \<open>memoria.c\<close>, \<open>parser.c\<close> and \<open>interpreter.c\<close> with \<open>main.c\<close>.
  \<open>Worker_Clock\<close> refines CLOCK-M to a search over the use and modified bits; \<open>Worker_Inv\<close>,
  \<open>Worker_Inv_Ops\<close> and \<open>Worker_Inv_Query\<close> prove the memory's invariant (\<open>mem_ok\<close>: bitmap, frames,
  page tables and counts agree) from the start through every query; \<open>Worker_Query\<close> is about
  where a script stops and what a preemption leaves. \<open>Worker_Coherencia\<close>,
  \<open>Worker_Transparencia\<close> and \<open>Worker_Vista\<close> read the memory as a cache: \<open>vista\<close> is what a page
  reads as, and every operation keeps it, against any storage that keeps the contract of the
  locale \<open>servidor_paginas\<close>; \<open>Worker_Guion\<close> concludes for whole scripts, against a reference
  that is an array of bytes (\<open>servidor_worker\<close> adds the master's answers to the contract).

  \<^bold>\<open>Master.\<close> \<open>Master_State\<close> is \<open>master_globals.h\<close> and \<open>master_util.c\<close>; \<open>Master_Handlers\<close> has each
  thread (\<open>master_network_handler.c\<close>, \<open>process_handler.c\<close>, \<open>master_aging.c\<close>) as steps from one
  place where it can wait to the next. \<open>Master_Inv\<close> proves the scheduler's invariant over all
  interleavings of runs with aging off and no departures; \<open>Master_Atasco\<close> proves a deadlock
  outside them, and \<open>Master_Theorems\<close> holds the properties and the runs that crash.

  \<^bold>\<open>Query Control.\<close> \<open>Query_Control\<close> is the loop over the notifications of
  \<open>query_control/src/main.c\<close>, and \<open>Conexiones\<close> its \<open>main\<close>, the master's side of a new connection
  and the notices of disconnection, down to the bytes.

  \<^bold>\<open>The composition.\<close> \<open>System\<close> answers the worker's messages with the storage's own handler and
  proves that the storage's model keeps the contract of the worker's locales (the
  interpretations \<open>red\<close> and \<open>redw\<close>); \<open>System_Theorems\<close> concludes for the two programs together: page faults and replacement
  are not seen, WRITE changes exactly its bytes, READ sends them, a preempted query goes on
  elsewhere with what it wrote, a script does to the bytes what the reference does, and every
  instruction sent is the operation meant. These hold
  until the worker reports an error, for File:Tags named in lower case (the worker compares
  names ignoring case and the storage does not), for a bitmap without padding bits (the
  storage hands them out as blocks) and with one worker at a time: a worker that keeps a clean
  copy of a page does not learn that another one wrote it, which is why the theorem on preemption
  asks that the second worker has no page of the File:Tag.

  \<^bold>\<open>Bounds and fuel.\<close> CLOCK-M's search takes the number of rounds as fuel (\<open>vueltas\<close>); two always
  find a victim, and out of fuel is the fault \<open>Blocked\<close>. The worker's loop over queries and the
  runs of the master are any number of steps. No other definition has fuel: the parser, the
  packet reader and the loops of the storage are recursive on what they consume.

  \<^bold>\<open>Atomicity.\<close> A storage operation is one step, since it runs with the File:Tag's lock held;
  \<open>Lock_Protocol\<close> says when that lock excludes and when it does not. A critical section of
  the master is one step.

  \<^bold>\<open>Parameters.\<close> Code outside the repository is an argument: \<open>string_split\<close>, \<open>crypto_md5\<close>,
  \<open>list_add_sorted\<close>, the clock, the contents of the script files, the answers of the system calls
  and of the peers. What is relied on is a named hypothesis with a witness: an insertion that
  keeps the order, a split that undoes the join, a hash without collisions on the disk.

  \<^bold>\<open>Not modelled.\<close> Logging and delays; reading the configuration files and building paths
  (\<open>*_init.c\<close>, \<open>pathing.c\<close>), whose values are arguments; the release of memory at exit
  (\<open>*_liberar_recursos.c\<close>), which depends on how the library's list destroyer behaves when the
  list changes under it; starting threads, beyond the steps that they take; the header files,
  which declare what the models define.
\<close>

end
